(* ===== verification/Prelude.thy ===== *)
theory Prelude
  imports "HOL-Library.Finite_Map" "HOL-Library.Multiset" "HOL-Library.Signed_Division"
begin

text \<open>Shared vocabulary of the development.

  \<^item> \<open>err\<close> and \<open>res\<close>: a C++ function that may throw returns \<open>Inl\<close> of the exception it
    throws or \<open>Inr\<close> of its value; \<open>rbind\<close> is sequencing (an exception leaves the function at
    once), \<open>rassert\<close> is \<open>FC_ASSERT\<close>, \<open>rfold\<close> is a range-\<open>for\<close> whose body may throw.
    C++ \<open>assert\<close> disappears in release builds, so it is never a branch of the model: where the
    code asserts something, the asserted fact is proved as a lemma instead. Behaviour that C++
    leaves undefined (a null dereference, an index out of range) is the error \<open>UB\<close>.
  \<^item> finite maps (\<open>fmap\<close>) as the database tables, and \<open>fmsum\<close>, the sum of a measure over a table,
    with the laws that tell how each table operation changes it: they carry the conservation proofs.
  \<^item> \<open>res_simps\<close>, \<open>fmsum_simps\<close>: the rewrite collections the component proofs use.\<close>

named_theorems res_simps "evaluation of the result monad"
named_theorems fmsum_simps "how table updates change a sum over the table"

section \<open>Results\<close>

datatype err =
    AssertFail                \<comment> \<open>\<open>fc::assert_exception\<close>, thrown by \<open>FC_ASSERT\<close>\<close>
  | Overflow                  \<comment> \<open>\<open>fc::overflow_exception\<close>\<close>
  | Underflow                 \<comment> \<open>\<open>fc::underflow_exception\<close>\<close>
  | DivideByZero              \<comment> \<open>\<open>fc::divide_by_zero_exception\<close>\<close>
  | KeyNotFound               \<comment> \<open>\<open>fc::key_not_found_exception\<close>\<close>
  | OutOfRange                \<comment> \<open>\<open>std::out_of_range\<close>, thrown by \<open>at\<close>\<close>
  | UnlinkableBlock           \<comment> \<open>\<open>unlinkable_block_exception\<close>\<close>
  | BlackSwan                 \<comment> \<open>\<open>black_swan_exception\<close>\<close>
  | InsufficientFee           \<comment> \<open>\<open>insufficient_fee\<close>\<close>
  | TxMissingActiveAuth       \<comment> \<open>\<open>tx_missing_active_auth\<close>\<close>
  | TxMissingOwnerAuth        \<comment> \<open>\<open>tx_missing_owner_auth\<close>\<close>
  | TxMissingOtherAuth        \<comment> \<open>\<open>tx_missing_other_auth\<close>\<close>
  | TxIrrelevantSig           \<comment> \<open>\<open>tx_irrelevant_sig\<close>\<close>
  | PopEmptyChain             \<comment> \<open>\<open>pop_empty_chain\<close>\<close>
  | OtherError                \<comment> \<open>any other \<open>fc::exception\<close>\<close>
  | PartialEffect             \<comment> \<open>an exception is swallowed after part of the state was changed: the code goes on, the model stops\<close>
  | UB                        \<comment> \<open>undefined behaviour\<close>

type_synonym 'a res = "err + 'a"

fun rbind :: "'a res \<Rightarrow> ('a \<Rightarrow> 'b res) \<Rightarrow> 'b res" where
  "rbind (Inl e) k = Inl e"
| "rbind (Inr x) k = k x"

definition rassert :: "bool \<Rightarrow> err \<Rightarrow> 'a res \<Rightarrow> 'a res" where
  "rassert b e k = (if b then k else Inl e)"

definition fc_assert :: "bool \<Rightarrow> 'a res \<Rightarrow> 'a res" where
  "fc_assert b k = rassert b AssertFail k"

fun rfold :: "('a \<Rightarrow> 's \<Rightarrow> 's res) \<Rightarrow> 'a list \<Rightarrow> 's \<Rightarrow> 's res" where
  "rfold f [] s = Inr s"
| "rfold f (x # xs) s = rbind (f x s) (rfold f xs)"

definition from_option :: "err \<Rightarrow> 'a option \<Rightarrow> 'a res" where
  "from_option e m = (case m of None \<Rightarrow> Inl e | Some x \<Rightarrow> Inr x)"

fun is_ok :: "'a res \<Rightarrow> bool" where
  "is_ok (Inl e) = False"
| "is_ok (Inr x) = True"

fun error_of :: "'a res \<Rightarrow> err option" where
  "error_of (Inl e) = Some e"
| "error_of (Inr x) = None"

lemma error_of_iff: "error_of r = Some e \<longleftrightarrow> r = Inl e"
  by (cases r) auto

declare rbind.simps [res_simps]

lemma rbind_eq_Inr [simp]:
  "rbind m k = Inr y \<longleftrightarrow> (\<exists>x. m = Inr x \<and> k x = Inr y)"
  by (cases m) auto

lemma rbind_eq_Inl:
  "rbind m k = Inl e \<longleftrightarrow> m = Inl e \<or> (\<exists>x. m = Inr x \<and> k x = Inl e)"
  by (cases m) auto

text \<open>A successful sequence, taken apart step by step.\<close>

lemma rbindE:
  assumes "rbind m k = Inr y"
  obtains x where "m = Inr x" "k x = Inr y"
  using assms by auto

lemma rbind_pairE:
  assumes "rbind m (\<lambda>(a, b). k a b) = Inr y"
  obtains a b where "m = Inr (a, b)" "k a b = Inr y"
  using assms by auto

lemma fc_assertE:
  assumes "fc_assert b k = Inr y"
  obtains "b" "k = Inr y"
  using assms by (auto simp: fc_assert_def rassert_def split: if_splits)

lemma rassertE:
  assumes "rassert b e k = Inr y"
  obtains "b" "k = Inr y"
  using assms by (auto simp: rassert_def split: if_splits)

lemmas res_elims = rbind_pairE rbindE fc_assertE rassertE

lemma if_resE:
  assumes "(if b then x else y) = Inr r"
  obtains (yes) "b" "x = Inr r" | (no) "\<not> b" "y = Inr r"
  using assms by (auto split: if_splits)

lemma list_resE:
  assumes "(case xs of [] \<Rightarrow> x | y # ys \<Rightarrow> f y ys) = Inr r"
  obtains (empty) "xs = []" "x = Inr r" | (cons) y ys where "xs = y # ys" "f y ys = Inr r"
  using assms by (auto split: list.splits)

lemma option_resE:
  assumes "(case m of None \<Rightarrow> x | Some y \<Rightarrow> f y) = Inr r"
  obtains (none) "m = None" "x = Inr r" | (some) y where "m = Some y" "f y = Inr r"
  using assms by (auto split: option.splits)

lemma let_resE:
  assumes "Let v f = Inr r" obtains "f v = Inr r"
  using assms by simp

lemma done_resE:
  assumes "Inr x = (Inr r :: 'e + 'a)" obtains "r = x"
  using assms by simp

lemma failed_resE:
  assumes "Inl e = (Inr r :: 'e + 'a)" obtains "P"
  using assms by simp

text \<open>The way through a body of assertions, branches and calls to the result it returns.\<close>

lemmas run_elims = res_elims if_resE list_resE option_resE let_resE done_resE failed_resE

text \<open>What a recursive call inside a sequence may assume.\<close>

lemma rbind_cong:
  "m = m' \<Longrightarrow> (\<And>x. m' = Inr x \<Longrightarrow> k x = k' x) \<Longrightarrow> rbind m k = rbind m' k'"
  by (cases m) auto

lemma fc_assert_cong: "b = b' \<Longrightarrow> (b' \<Longrightarrow> k = k') \<Longrightarrow> fc_assert b k = fc_assert b' k'"
  by (simp add: fc_assert_def rassert_def)

lemma rassert_cong: "b = b' \<Longrightarrow> (b' \<Longrightarrow> k = k') \<Longrightarrow> rassert b e k = rassert b' e k'"
  by (simp add: rassert_def)

lemma rbind_assoc: "rbind (rbind m f) g = rbind m (\<lambda>x. rbind (f x) g)"
  by (cases m) auto

lemma rbind_Inr [simp]: "rbind m Inr = m"
  by (cases m) auto

lemma rassert_eq_Inr [simp]: "rassert b e k = Inr y \<longleftrightarrow> b \<and> k = Inr y"
  by (auto simp: rassert_def)

lemma fc_assert_eq_Inr [simp]: "fc_assert b k = Inr y \<longleftrightarrow> b \<and> k = Inr y"
  by (auto simp: fc_assert_def)

lemma Inr_eq_fc_assert [simp]: "Inr y = fc_assert b k \<longleftrightarrow> b \<and> k = Inr y"
  by (auto simp: fc_assert_def rassert_def)

lemma Inr_eq_rbind [simp]: "Inr y = rbind m k \<longleftrightarrow> (\<exists>x. m = Inr x \<and> k x = Inr y)"
  by (cases m) auto

lemma fc_assert_True [simp, res_simps]: "fc_assert True k = k"
  by (simp add: fc_assert_def rassert_def)

lemma fc_assert_False [simp, res_simps]: "fc_assert False k = Inl AssertFail"
  by (simp add: fc_assert_def rassert_def)

lemma rassert_True [simp, res_simps]: "rassert True e k = k"
  by (simp add: rassert_def)

lemma rassert_False [simp, res_simps]: "rassert False e k = Inl e"
  by (simp add: rassert_def)

lemma from_option_eq_Inr [simp]: "from_option e m = Inr x \<longleftrightarrow> m = Some x"
  by (auto simp: from_option_def split: option.splits)

lemma from_option_Some [simp, res_simps]: "from_option e (Some x) = Inr x"
  by (simp add: from_option_def)

lemma from_option_None [simp, res_simps]: "from_option e None = Inl e"
  by (simp add: from_option_def)

lemma is_ok_iff: "is_ok r \<longleftrightarrow> (\<exists>x. r = Inr x)"
  by (cases r) auto

lemma rfold_append: "rfold f (xs @ ys) s = rbind (rfold f xs s) (rfold f ys)"
proof (induction xs arbitrary: s)
  case (Cons x xs)
  then show ?case by (cases "f x s") auto
qed simp

text \<open>The loop rule: an invariant that the body keeps holds after the loop.\<close>

lemma rfold_invariant:
  assumes "rfold f xs s = Inr t" and "P s"
    and "\<And>x s s'. x \<in> set xs \<Longrightarrow> P s \<Longrightarrow> f x s = Inr s' \<Longrightarrow> P s'"
  shows "P t"
  using assms by (induction xs arbitrary: s) auto

lemma rfold_each:
  assumes "rfold f xs s = Inr t" and "P s"
    and "\<And>x s s'. x \<in> set xs \<Longrightarrow> P s \<Longrightarrow> f x s = Inr s' \<Longrightarrow> P s' \<and> Q x"
  shows "P t \<and> (\<forall>x\<in>set xs. Q x)"
  using assms
proof (induction xs arbitrary: s)
  case (Cons x xs)
  obtain s' where s': "f x s = Inr s'" "rfold f xs s' = Inr t" using Cons.prems(1) by auto
  have x: "P s' \<and> Q x" by (rule Cons.prems(3)[OF _ Cons.prems(2) s'(1)]) simp
  have "P t \<and> (\<forall>x\<in>set xs. Q x)"
    by (rule Cons.IH[OF s'(2)]) (use x Cons.prems(3) in auto)
  with x show ?case by simp
qed simp

lemma rfold_total:
  assumes "P s" and "\<And>x s. x \<in> set xs \<Longrightarrow> P s \<Longrightarrow> \<exists>s'. f x s = Inr s' \<and> P s'"
  shows "\<exists>t. rfold f xs s = Inr t \<and> P t"
  using assms
proof (induction xs arbitrary: s)
  case (Cons x xs)
  obtain s' where s': "f x s = Inr s'" "P s'" using Cons.prems by (meson list.set_intros(1))
  have "\<exists>t. rfold f xs s' = Inr t \<and> P t"
    by (rule Cons.IH) (use s' Cons.prems(2) in auto)
  then show ?case using s' by auto
qed simp

text \<open>A fold of updates that each touch one entry only, read at one entry.\<close>

lemma fold_pointwise:
  assumes other: "\<And>x y s. x \<noteq> y \<Longrightarrow> E (f x s) y = E s y"
    and same: "\<And>x s. E (f x s) x = g x (E s x)"
    and "distinct xs"
  shows "E (fold f xs s) y = (if y \<in> set xs then g y (E s y) else E s y)"
  using \<open>distinct xs\<close>
proof (induction xs arbitrary: s)
  case (Cons x xs)
  then show ?case using other[of x y s] same[of x s] by (cases "x = y") auto
qed simp

section \<open>Tables\<close>

definition fmsum :: "('k \<Rightarrow> 'v \<Rightarrow> int) \<Rightarrow> ('k, 'v) fmap \<Rightarrow> int" where
  "fmsum f m = (\<Sum>k\<in>fmdom' m. f k (the (fmlookup m k)))"

definition fmval :: "('k \<Rightarrow> 'v \<Rightarrow> int) \<Rightarrow> ('k, 'v) fmap \<Rightarrow> 'k \<Rightarrow> int" where
  "fmval f m k = (case fmlookup m k of None \<Rightarrow> 0 | Some v \<Rightarrow> f k v)"

lemma fmval_Some [simp]: "fmlookup m k = Some v \<Longrightarrow> fmval f m k = f k v"
  by (simp add: fmval_def)

lemma fmval_None [simp]: "fmlookup m k = None \<Longrightarrow> fmval f m k = 0"
  by (simp add: fmval_def)

lemma fmdom'_iff: "k \<in> fmdom' m \<longleftrightarrow> fmlookup m k \<noteq> None"
  by (auto simp: fmlookup_dom'_iff)

lemma fmsum_empty [simp, fmsum_simps]: "fmsum f fmempty = 0"
  by (simp add: fmsum_def)

lemma fmsum_fmdrop [fmsum_simps]: "fmsum f (fmdrop k m) = fmsum f m - fmval f m k"
proof -
  have "fmsum f (fmdrop k m) = (\<Sum>j\<in>fmdom' m - {k}. f j (the (fmlookup m j)))"
    unfolding fmsum_def by (rule sum.cong) auto
  also have "\<dots> = fmsum f m - fmval f m k"
  proof (cases "fmlookup m k")
    case None
    then have "fmdom' m - {k} = fmdom' m" by (auto simp: fmdom'_iff)
    with None show ?thesis by (simp add: fmsum_def)
  next
    case (Some w)
    then have "k \<in> fmdom' m" by (simp add: fmdom'_iff)
    with Some show ?thesis by (simp add: fmsum_def sum.remove)
  qed
  finally show ?thesis .
qed

lemma fmsum_fmupd [fmsum_simps]: "fmsum f (fmupd k v m) = fmsum f m - fmval f m k + f k v"
proof -
  have "fmsum f (fmupd k v m) = f k v + fmsum f (fmdrop k (fmupd k v m))"
    using fmsum_fmdrop[of f k "fmupd k v m"] by simp
  also have "fmdrop k (fmupd k v m) = fmdrop k m" by (rule fmap_ext) simp
  finally show ?thesis by (simp add: fmsum_fmdrop)
qed

lemma fmsum_nonneg:
  assumes "\<And>k v. fmlookup m k = Some v \<Longrightarrow> 0 \<le> f k v"
  shows "0 \<le> fmsum f m"
  unfolding fmsum_def by (rule sum_nonneg) (auto simp: fmlookup_dom'_iff intro: assms)

lemma fmval_le_fmsum:
  assumes "\<And>k v. fmlookup m k = Some v \<Longrightarrow> 0 \<le> f k v"
  shows "fmval f m k \<le> fmsum f m"
  using fmsum_nonneg[of "fmdrop k m" f] assms fmsum_fmdrop[of f k m]
  by (simp add: fmlookup_drop) (metis option.distinct(1) option.sel)

lemma fmsum_zero: "(\<And>k v. fmlookup m k = Some v \<Longrightarrow> f k v = 0) \<Longrightarrow> fmsum f m = 0"
  unfolding fmsum_def by (rule sum.neutral) (auto simp: fmlookup_dom'_iff)

section \<open>Ordered indices\<close>

text \<open>Sorting by a strict order, as an ordered index keeps its elements; equivalent elements keep the
  order in which they come.\<close>

fun insert_by :: "('a \<Rightarrow> 'a \<Rightarrow> bool) \<Rightarrow> 'a \<Rightarrow> 'a list \<Rightarrow> 'a list" where
  "insert_by lt x [] = [x]"
| "insert_by lt x (y # ys) = (if lt y x then y # insert_by lt x ys else x # y # ys)"

definition sort_by :: "('a \<Rightarrow> 'a \<Rightarrow> bool) \<Rightarrow> 'a list \<Rightarrow> 'a list" where
  "sort_by lt xs = foldr (insert_by lt) xs []"

lemma mset_insert_by: "mset (insert_by lt x ys) = add_mset x (mset ys)"
  by (induction ys) auto

lemma mset_sort_by [simp]: "mset (sort_by lt xs) = mset xs"
  by (induction xs) (simp_all add: sort_by_def mset_insert_by)

lemma set_sort_by [simp]: "set (sort_by lt xs) = set xs"
  by (metis mset_sort_by set_mset_mset)

lemma length_sort_by [simp]: "length (sort_by lt xs) = length xs"
  by (metis mset_sort_by size_mset)

lemma distinct_sort_by [simp]: "distinct (sort_by lt xs) = distinct xs"
  by (metis mset_sort_by mset_eq_imp_distinct_iff)

text \<open>The result is ordered by every preorder that the strict order decides; the first elements come before the others.\<close>

lemma insert_by_sorted:
  assumes "\<And>a b. \<not> lt a b \<Longrightarrow> le b a" "\<And>a b. lt a b \<Longrightarrow> le a b" "\<And>a b c. le a b \<Longrightarrow> le b c \<Longrightarrow> le a c"
    and "sorted_wrt le ys"
  shows "sorted_wrt le (insert_by lt x ys)"
  using assms(4)
proof (induction ys)
  case (Cons y ys)
  have "set (insert_by lt x ys) = insert x (set ys)" by (metis mset_insert_by set_mset_add_mset_insert set_mset_mset)
  then show ?case using Cons assms(1)[of y x] assms(2)[of y x] assms(3)[of x y] by auto
qed simp

lemma sort_by_sorted:
  assumes "\<And>a b. \<not> lt a b \<Longrightarrow> le b a" "\<And>a b. lt a b \<Longrightarrow> le a b" "\<And>a b c. le a b \<Longrightarrow> le b c \<Longrightarrow> le a c"
  shows "sorted_wrt le (sort_by lt xs)"
  by (induction xs) (auto simp: sort_by_def intro: insert_by_sorted[OF assms])

lemma first_of_sorted:
  assumes "sorted_wrt le xs" "x \<in> set (take n xs)" "y \<in> set xs" "y \<notin> set (take n xs)"
  shows "le x y"
proof -
  have "y \<in> set (drop n xs)" using assms(3,4) by (metis UnE append_take_drop_id set_append)
  then show ?thesis using assms(1,2) by (metis append_take_drop_id sorted_wrt_append)
qed

lemma sort_by_least:
  assumes "\<And>a b. \<not> lt a b \<Longrightarrow> le b a" "\<And>a b. lt a b \<Longrightarrow> le a b" "\<And>a b c. le a b \<Longrightarrow> le b c \<Longrightarrow> le a c"
    and "z \<in> set xs"
  shows "le (hd (sort_by lt xs)) z"
proof (cases "sort_by lt xs")
  case (Cons y ys)
  have "sorted_wrt le (y # ys)" using sort_by_sorted[of lt le xs] assms(1-3) Cons by metis
  moreover have "z = y \<or> z \<in> set ys" using assms(4) Cons by (metis set_ConsD set_sort_by)
  moreover have "le y y" using assms(1,2) by blast
  ultimately show ?thesis using Cons by auto
qed (use assms(4) in \<open>metis empty_iff empty_set set_sort_by\<close>)

text \<open>The objects of a table with their instance numbers, in the order of the numbers.\<close>

definition entries :: "(nat, 'v) fmap \<Rightarrow> (nat \<times> 'v) list" where
  "entries m = map (\<lambda>k. (k, the (fmlookup m k))) (sorted_list_of_fset (fmdom m))"

lemma set_entries: "(k, v) \<in> set (entries m) \<longleftrightarrow> fmlookup m k = Some v"
  by (auto simp: entries_def image_iff fmlookup_dom_iff)

lemma distinct_entries: "distinct (map fst (entries m))"
  by (simp add: entries_def comp_def sorted_list_of_fset.rep_eq)

section \<open>Truncating division\<close>

text \<open>C++ integer division truncates towards zero; on non-negative operands it is \<open>div\<close>.\<close>

lemma sdiv_nonneg [simp]: "0 \<le> a \<Longrightarrow> 0 \<le> b \<Longrightarrow> a sdiv b = a div (b :: int)"
  by (cases "a = 0"; cases "b = 0") (auto simp: signed_divide_int_def)

lemma smod_nonneg [simp]: "0 \<le> a \<Longrightarrow> 0 \<le> b \<Longrightarrow> a smod b = a mod (b :: int)"
  by (cases "a = 0") (auto simp: signed_modulo_int_def)

lemma mult_div_le_self:
  fixes a b c :: int
  assumes "0 \<le> a" "0 \<le> b" "b \<le> c" "0 < c"
  shows "a * b div c \<le> a" "0 \<le> a * b div c"
proof -
  have "a * b \<le> a * c" using assms by (simp add: mult_left_mono)
  then have "a * b div c \<le> a * c div c" using assms(4) by (rule zdiv_mono1)
  then show "a * b div c \<le> a" using assms(4) by simp
  show "0 \<le> a * b div c" using assms by (simp add: pos_imp_zdiv_nonneg_iff)
qed

end
