(* ===== verification/Safe_Int.thy ===== *)
theory Safe_Int
  imports Prelude
begin

text \<open>\<open>fc::safe<int64_t>\<close> (\<open>share_type\<close>): the checked 64-bit arithmetic in which every amount of the
  chain is computed. A \<open>share_type\<close> is an \<open>int\<close>; each operator carries the comparisons of
  \<open>safe.hpp\<close> with its two limits and throws as the code throws. The theorems show that the
  comparisons are exact: an operator returns precisely when the mathematical result fits in 64 bits,
  and then it returns that result.\<close>

definition i64_min :: int where "i64_min = - 9223372036854775808"
definition i64_max :: int where "i64_max = 9223372036854775807"

definition in_i64 :: "int \<Rightarrow> bool" where
  "in_i64 x \<longleftrightarrow> i64_min \<le> x \<and> x \<le> i64_max"

definition safe_add :: "int \<Rightarrow> int \<Rightarrow> int res" where
  "safe_add a b =
    (if b > 0 \<and> a > i64_max - b then Inl Overflow
     else if b < 0 \<and> a < i64_min - b then Inl Underflow
     else Inr (a + b))"

definition safe_sub :: "int \<Rightarrow> int \<Rightarrow> int res" where
  "safe_sub a b =
    (if b > 0 \<and> a < i64_min + b then Inl Underflow
     else if b < 0 \<and> a > i64_max + b then Inl Overflow
     else Inr (a - b))"

definition safe_mul :: "int \<Rightarrow> int \<Rightarrow> int res" where
  "safe_mul a b =
    (if a > 0 then
       (if b > 0 then
          (if a > i64_max sdiv b then Inl Overflow else Inr (a * b))
        else
          (if b < i64_min sdiv a then Inl Underflow else Inr (a * b)))
     else
       (if b > 0 then
          (if a < i64_min sdiv b then Inl Underflow else Inr (a * b))
        else
          (if a \<noteq> 0 \<and> b < i64_max sdiv a then Inl Overflow else Inr (a * b))))"

definition safe_div :: "int \<Rightarrow> int \<Rightarrow> int res" where
  "safe_div a b =
    (if b = 0 then Inl DivideByZero
     else if a = i64_min \<and> b = -1 then Inl Overflow
     else Inr (a sdiv b))"

definition safe_mod :: "int \<Rightarrow> int \<Rightarrow> int res" where
  "safe_mod a b =
    (if b = 0 then Inl DivideByZero
     else if a = i64_min \<and> b = -1 then Inl Overflow
     else Inr (a smod b))"

definition safe_neg :: "int \<Rightarrow> int res" where
  "safe_neg a = (if a = i64_min then Inl Overflow else Inr (- a))"

lemmas i64_defs = i64_min_def i64_max_def in_i64_def

subsection \<open>Exactness\<close>

lemma safe_add_exact:
  "in_i64 a \<Longrightarrow> in_i64 b \<Longrightarrow> safe_add a b = Inr c \<longleftrightarrow> c = a + b \<and> in_i64 c"
  unfolding safe_add_def i64_defs by auto

lemma safe_sub_exact:
  "in_i64 a \<Longrightarrow> in_i64 b \<Longrightarrow> safe_sub a b = Inr c \<longleftrightarrow> c = a - b \<and> in_i64 c"
  unfolding safe_sub_def i64_defs by auto

text \<open>The truncated quotient of a limit is the right bound for a product.\<close>

lemma sdiv_bound_pos:
  assumes "0 < b" "0 \<le> m"
  shows "a \<le> m sdiv b \<longleftrightarrow> a * b \<le> (m :: int)"
proof
  assume "a \<le> m sdiv b"
  then have "a * b \<le> (m div b) * b" using assms by (simp add: mult_right_mono)
  also have "\<dots> \<le> m" using assms(1) div_mult_mod_eq[of m b] pos_mod_sign[of b m] by linarith
  finally show "a * b \<le> m" .
next
  assume "a * b \<le> m"
  then have "a * b div b \<le> m div b" using assms(1) by (rule zdiv_mono1)
  then show "a \<le> m sdiv b" using assms by simp
qed

lemma sdiv_neg_left: "(- m) sdiv b = - (m sdiv (b :: int))"
  by (simp add: signed_divide_int_def)

lemma sdiv_neg_right: "m sdiv (- b) = - (m sdiv (b :: int))"
  by (simp add: signed_divide_int_def)

lemma sdiv_bound_neg:
  assumes "0 < b" "0 \<le> m"
  shows "(- m) sdiv b \<le> a \<longleftrightarrow> - m \<le> a * (b :: int)"
proof -
  have "(- m) sdiv b \<le> a \<longleftrightarrow> - a \<le> m sdiv b" by (auto simp: sdiv_neg_left)
  also have "\<dots> \<longleftrightarrow> (- a) * b \<le> m" by (rule sdiv_bound_pos[OF assms])
  finally show ?thesis by auto
qed

lemma i64_limits: "i64_min = - (i64_max + 1)" "0 \<le> i64_max"
  by (simp_all add: i64_min_def i64_max_def)

lemma safe_mul_exact:
  assumes "in_i64 a" "in_i64 b"
  shows "safe_mul a b = Inr c \<longleftrightarrow> c = a * b \<and> in_i64 c"
proof -
  consider "a > 0" "b > 0" | "a > 0" "b \<le> 0" | "a \<le> 0" "b > 0" | "a = 0" "b \<le> 0" | "a < 0" "b \<le> 0"
    by linarith
  then show ?thesis
  proof cases
    case 1
    then have "0 \<le> a * b" by simp
    then have "i64_min \<le> a * b" using i64_limits by linarith
    with 1 show ?thesis
      using sdiv_bound_pos[of b i64_max a] i64_limits(2)
      by (auto simp: safe_mul_def in_i64_def not_less)
  next
    case 2
    then have "a * b \<le> 0" by (simp add: mult_nonneg_nonpos)
    with 2 show ?thesis
      using sdiv_bound_neg[of a "i64_max + 1" b] i64_limits(2)
      by (auto simp: safe_mul_def in_i64_def i64_limits(1) not_less mult.commute)
  next
    case 3
    then have "a * b \<le> 0" by (simp add: mult_nonpos_nonneg)
    with 3 show ?thesis
      using sdiv_bound_neg[of b "i64_max + 1" a] i64_limits(2)
      by (auto simp: safe_mul_def in_i64_def i64_limits(1) not_less)
  next
    case 4
    then show ?thesis by (auto simp: safe_mul_def i64_defs)
  next
    case 5
    then have "0 \<le> a * b" by (simp add: mult_nonpos_nonpos)
    moreover have "i64_max sdiv a \<le> b \<longleftrightarrow> a * b \<le> i64_max"
      using sdiv_bound_pos[of "- a" i64_max "- b"] 5 sdiv_neg_right[of i64_max a]
      by (auto simp: i64_limits mult.commute)
    moreover have "i64_min \<le> 0" by (simp add: i64_min_def)
    ultimately show ?thesis using 5
      by (auto simp: safe_mul_def in_i64_def not_less)
  qed
qed

lemma safe_div_exact:
  assumes "in_i64 a" "in_i64 b"
  shows "safe_div a b = Inr c \<longleftrightarrow> b \<noteq> 0 \<and> c = a sdiv b \<and> in_i64 c"
proof -
  have "in_i64 (a sdiv b)" if "\<not> (a = i64_min \<and> b = -1)" "b \<noteq> 0"
  proof (cases "b = 1 \<or> b = -1")
    case True
    then show ?thesis using assms that by (auto simp: i64_defs sdiv_neg_right)
  next
    case False
    then have b2: "2 \<le> \<bar>b\<bar>" using that by linarith
    have a2: "\<bar>a\<bar> \<le> i64_max + 1" using assms by (auto simp: i64_defs)
    have "\<bar>a sdiv b\<bar> \<le> \<bar>a\<bar> div \<bar>b\<bar>"
      using b2 by (auto simp: signed_divide_int_def abs_mult sgn_if pos_imp_zdiv_nonneg_iff
          neg_imp_zdiv_nonneg_iff)
    also have "\<dots> \<le> \<bar>a\<bar> div 2" using b2 by (simp add: zdiv_mono2)
    also have "\<dots> \<le> i64_max" using a2 by (simp add: i64_max_def)
    finally show ?thesis by (auto simp: in_i64_def i64_limits)
  qed
  moreover have "\<not> in_i64 (a sdiv b)" if "a = i64_min" "b = -1"
    using that by (simp add: i64_defs sdiv_neg_right)
  ultimately show ?thesis by (auto simp: safe_div_def)
qed

text \<open>Sums of two share amounts within the maximal supply never overflow; these discharge the
  side conditions of the balance and market proofs.\<close>

lemma safe_add_Inr: "safe_add a b = Inr c \<Longrightarrow> c = a + b"
  by (auto simp: safe_add_def split: if_splits)

lemma safe_sub_Inr: "safe_sub a b = Inr c \<Longrightarrow> c = a - b"
  by (auto simp: safe_sub_def split: if_splits)

lemma safe_mul_Inr: "safe_mul a b = Inr c \<Longrightarrow> c = a * b"
  by (auto simp: safe_mul_def split: if_splits)

lemma safe_neg_Inr: "safe_neg a = Inr c \<Longrightarrow> c = - a"
  by (auto simp: safe_neg_def split: if_splits)

text \<open>C5: the checks of \<open>fc::safe<int64_t>\<close> are exact. On 64-bit operands \<open>+\<close>, \<open>-\<close>, \<open>*\<close> and \<open>/\<close> return
  a value precisely when the exact result (for \<open>/\<close>, the quotient truncated towards zero) is defined
  and fits in 64 bits, and then they return it: no wrap-around is let through and no representable
  result is refused.\<close>

theorem safe_arithmetic_exact:
  assumes "in_i64 a" and "in_i64 b"
  shows "(safe_add a b = Inr c \<longleftrightarrow> c = a + b \<and> in_i64 c) \<and>
    (safe_sub a b = Inr c \<longleftrightarrow> c = a - b \<and> in_i64 c) \<and>
    (safe_mul a b = Inr c \<longleftrightarrow> c = a * b \<and> in_i64 c) \<and>
    (safe_div a b = Inr c \<longleftrightarrow> b \<noteq> 0 \<and> c = a sdiv b \<and> in_i64 c)"
  using assms by (simp add: safe_add_exact safe_sub_exact safe_mul_exact safe_div_exact)

theorem safe_arithmetic_exact_witness:
  "\<forall>c. (safe_mul 3037000500 3037000500 = Inr c \<longleftrightarrow> c = 3037000500 * 3037000500 \<and> in_i64 c) \<and>
   safe_mul 3037000500 3037000500 = Inl Overflow \<and> safe_div i64_min (-1) = Inl Overflow"
  using safe_arithmetic_exact[of 3037000500 3037000500]
  by (simp add: i64_defs safe_mul_def safe_div_def signed_divide_int_def)

end
