(* ===== verification/Object_Ids.thy ===== *)
theory Object_Ids
  imports Prelude "HOL-Library.Word"
begin

unbundle bit_operations_syntax

text \<open>\<open>object_id_type\<close> of \<open>db/object_id.hpp\<close>: a 64-bit number made of an 8-bit space, an 8-bit type
  and a 48-bit instance. The lemmas show that packing and unpacking are inverse, that an id is
  determined by its three parts, and that incrementing an id (as \<open>primary_index::use_next_id\<close> does,
  without a check) stays inside the index as long as the instance is not the last one.\<close>

type_synonym object_id = "64 word"

definition MAX_INSTANCE_ID :: "64 word" where
  "MAX_INSTANCE_ID = drop_bit 16 (- 1)"

definition object_id_type :: "8 word \<Rightarrow> 8 word \<Rightarrow> 64 word \<Rightarrow> object_id res" where
  "object_id_type s t i =
    fc_assert (drop_bit 48 i = 0)
      (Inr (push_bit 56 (ucast s) OR push_bit 48 (ucast t) OR i))"

definition id_space :: "object_id \<Rightarrow> 8 word" where
  "id_space n = ucast (drop_bit 56 n)"

definition id_type :: "object_id \<Rightarrow> 8 word" where
  "id_type n = ucast (drop_bit 48 n AND 0xff)"

definition id_space_type :: "object_id \<Rightarrow> 16 word" where
  "id_space_type n = ucast (drop_bit 48 n)"

definition id_instance :: "object_id \<Rightarrow> 64 word" where
  "id_instance n = n AND MAX_INSTANCE_ID"

definition id_is :: "8 word \<Rightarrow> 8 word \<Rightarrow> object_id \<Rightarrow> bool" where
  "id_is s t n \<longleftrightarrow> drop_bit 48 n = push_bit 8 (ucast s) OR ucast t"

definition id_plus :: "object_id \<Rightarrow> 64 word \<Rightarrow> object_id res" where
  "id_plus a delta = object_id_type (id_space a) (id_type a) (id_instance a + delta)"

text \<open>The key under which \<open>undo_database::on_create\<close> files the next id of an index:
  the id with the same space and type and instance 0.\<close>

definition index_id :: "object_id \<Rightarrow> object_id" where
  "index_id n = push_bit 56 (ucast (id_space n)) OR push_bit 48 (ucast (id_type n))"

lemma MAX_INSTANCE_ID_mask: "MAX_INSTANCE_ID = mask 48"
  by (simp add: MAX_INSTANCE_ID_def mask_eq_exp_minus_1)

lemma index_id_constructor: "object_id_type (id_space n) (id_type n) 0 = Inr (index_id n)"
  by (simp add: object_id_type_def index_id_def)

lemma bit_id_space: "bit (id_space n) i \<longleftrightarrow> i < 8 \<and> bit n (56 + i)"
  by (auto simp: id_space_def bit_simps)

lemma bit_id_type: "bit (id_type n) i \<longleftrightarrow> i < 8 \<and> bit n (48 + i)"
proof -
  have m: "(0xff :: 64 word) = mask 8" by (simp add: mask_eq_exp_minus_1)
  show ?thesis unfolding id_type_def m by (auto simp: bit_simps)
qed

lemma bit_id_instance: "bit (id_instance n) i \<longleftrightarrow> i < 48 \<and> bit n i"
  by (auto simp: id_instance_def MAX_INSTANCE_ID_mask bit_simps)

lemma instance_small_bits:
  "drop_bit 48 (i :: 64 word) = 0 \<longleftrightarrow> (\<forall>j. bit i j \<longrightarrow> j < 48)"
proof
  assume h: "drop_bit 48 i = 0"
  show "\<forall>j. bit i j \<longrightarrow> j < 48"
  proof (intro allI impI, rule ccontr)
    fix j assume b: "bit i j" and "\<not> j < 48"
    then have "bit (drop_bit 48 i) (j - 48)" by (simp add: bit_simps)
    with h show False by simp
  qed
next
  assume h: "\<forall>j. bit i j \<longrightarrow> j < 48"
  show "drop_bit 48 i = 0" by (rule bit_eqI) (use h in \<open>auto simp: bit_simps\<close>)
qed

lemma pack_parts:
  assumes "object_id_type s t i = Inr n"
  shows "id_space n = s" "id_type n = t" "id_instance n = i"
proof -
  have n: "n = push_bit 56 (ucast s) OR push_bit 48 (ucast t) OR i"
    and i: "\<forall>j. bit i j \<longrightarrow> j < 48"
    using assms by (simp_all add: object_id_type_def instance_small_bits)
  have t: "bit t j \<Longrightarrow> j < 8" for j using bit_imp_le_length[of t j] by simp
  show "id_space n = s"
    by (rule bit_eqI) (use i t in \<open>fastforce simp: n bit_id_space bit_simps\<close>)
  show "id_type n = t"
    by (rule bit_eqI) (use i in \<open>auto simp: n bit_id_type bit_simps\<close>)
  show "id_instance n = i"
    by (rule bit_eqI) (use i in \<open>auto simp: n bit_id_instance bit_simps\<close>)
qed

lemma unpack_pack: "object_id_type (id_space n) (id_type n) (id_instance n) = Inr n"
proof -
  have "drop_bit 48 (id_instance n) = 0"
    by (simp add: instance_small_bits bit_id_instance)
  moreover have "push_bit 56 (ucast (id_space n)) OR push_bit 48 (ucast (id_type n)) OR id_instance n = n"
  proof (rule bit_eqI)
    fix j assume "possible_bit TYPE(64 word) j"
    then have "j < 64" by simp
    then consider "j < 48" | "48 \<le> j" "j < 56" | "56 \<le> j" "j < 64" by linarith
    then show "bit (push_bit 56 (ucast (id_space n)) OR push_bit 48 (ucast (id_type n)) OR id_instance n) j
        = bit n j"
      by cases (auto simp: bit_simps bit_id_space bit_id_type bit_id_instance)
  qed
  ultimately show ?thesis by (simp add: object_id_type_def)
qed

lemma id_split: "n = index_id n OR id_instance n" "index_id n AND id_instance n = 0"
proof -
  show "n = index_id n OR id_instance n"
    using unpack_pack[of n] by (simp add: object_id_type_def index_id_def or.assoc)
  show "index_id n AND id_instance n = 0"
    by (rule bit_eqI) (auto simp: index_id_def bit_id_instance bit_simps)
qed

lemma bit_index_id: "bit (index_id n) j \<longleftrightarrow> 48 \<le> j \<and> bit n j"
proof -
  have "bit n j \<Longrightarrow> j < 64" using bit_imp_le_length by fastforce
  then show ?thesis
    by (auto simp: index_id_def bit_simps bit_id_space bit_id_type)
qed

lemma index_id_shift: "index_id n = push_bit 48 (drop_bit 48 n)"
  by (rule bit_eqI) (auto simp: bit_index_id bit_simps)

lemma unat_index_id: "unat (index_id n) = unat n div 2 ^ 48 * 2 ^ 48"
proof -
  have "unat n div 2 ^ 48 * 2 ^ 48 \<le> unat n" by simp
  also have "unat n < 2 ^ 64" using unsigned_less[of n] by simp
  finally show ?thesis
    by (simp add: index_id_shift push_bit_eq_mult drop_bit_eq_div unat_mult_lem[THEN iffD1] unat_div)
qed

lemma unat_id_instance: "unat (id_instance n) = unat n mod 2 ^ 48"
  by (simp only: id_instance_def MAX_INSTANCE_ID_mask flip: take_bit_eq_mask)
    (simp only: unsigned_take_bit_eq, simp add: take_bit_eq_mod)

lemma index_id_idem [simp]: "index_id (index_id n) = index_id n"
  by (rule bit_eqI) (simp add: bit_index_id)

text \<open>Incrementing an id whose instance is not the last one keeps its index and grows the id.\<close>

lemma id_succ:
  assumes "id_instance n \<noteq> MAX_INSTANCE_ID"
  shows "index_id (n + 1) = index_id n" "n < n + 1"
proof -
  have "unat (MAX_INSTANCE_ID) = 2 ^ 48 - 1"
    using unat_id_instance[of "- 1"] by (simp add: id_instance_def unsigned_minus_1_eq_mask mask_eq_exp_minus_1)
  then have ne: "unat n mod 2 ^ 48 \<noteq> 2 ^ 48 - 1"
    using assms by (metis unat_id_instance word_unat_eq_iff)
  have lt: "unat n < 2 ^ 64" using unsigned_less[of n] by simp
  have "unat n \<noteq> 2 ^ 64 - 1" using ne by auto
  then have s: "unat (n + 1) = unat n + 1"
    using lt by (simp add: unat_add_lem[THEN iffD1])
  have d: "(unat n + 1) div 2 ^ 48 = unat n div 2 ^ 48" 
    using ne by (simp add: div_Suc mod_Suc)
  show "index_id (n + 1) = index_id n"
    using d by (simp add: word_unat_eq_iff unat_index_id s)
  show "n < n + 1" by (simp add: word_less_nat_alt s)
qed

end
