(* ===== verification/Undo_Database.thy ===== *)
theory Undo_Database
  imports Object_Ids
begin

text \<open>The object database and its undo history: \<open>db/object_database.*\<close>, \<open>db/index.hpp\<close>,
  \<open>db/generic_index.hpp\<close> and \<open>db/undo_database.*\<close>.

  State. \<open>objs\<close> holds every object of every index, keyed by object id (the payload of type \<open>'o\<close> is
  the object without its id, which no caller changes); \<open>next_ids\<close> holds \<open>_next_id\<close> of every
  registered index, keyed by the id with instance 0. \<open>undo_db\<close> is the \<open>undo_database\<close> record, its
  \<open>_stack\<close> listed from the back (newest state first).

  Parameters. \<open>ukeys v\<close> lists the keys under which an object with payload \<open>v\<close> is filed in the unique
  secondary indices of its \<open>multi_index_container\<close> (keys that contain the object's own id can never
  collide and are left out). \<open>enum\<close> is the iteration order of the unordered containers of an undo
  state, which the standard library leaves open.

  A throwing operation may leave a changed state behind, so operations return the exception, if any,
  together with the state (\<open>exec\<close>).\<close>

type_synonym 's exec = "err option \<times> 's"

definition ebind :: "'s exec \<Rightarrow> ('s \<Rightarrow> 's exec) \<Rightarrow> 's exec" where
  "ebind r k = (case r of (Some e, s) \<Rightarrow> (Some e, s) | (None, s) \<Rightarrow> k s)"

fun efold :: "('a \<Rightarrow> 's \<Rightarrow> 's exec) \<Rightarrow> 'a list \<Rightarrow> 's \<Rightarrow> 's exec" where
  "efold f [] s = (None, s)"
| "efold f (x # xs) s = ebind (f x s) (efold f xs)"

record 'o undo_state =
  old_values :: "(object_id, 'o) fmap"
  old_index_next_ids :: "(object_id, object_id) fmap"
  new_ids :: "object_id fset"
  removed :: "(object_id, 'o) fmap"

record 'o undo_database =
  active_sessions :: nat
  disabled :: bool
  stack :: "'o undo_state list"
  max_size :: nat

record 'o object_database =
  objs :: "(object_id, 'o) fmap"
  next_ids :: "(object_id, object_id) fmap"
  undo_db :: "'o undo_database"

definition empty_state :: "'o undo_state" where
  "empty_state = \<lparr>old_values = fmempty, old_index_next_ids = fmempty, new_ids = {||}, removed = fmempty\<rparr>"

definition init_db :: "object_id list \<Rightarrow> 'o object_database" where
  "init_db idxs = \<lparr>objs = fmempty, next_ids = fmap_of_list (map (\<lambda>i. (index_id i, index_id i)) idxs),
     undo_db = \<lparr>active_sessions = 0, disabled = False, stack = [], max_size = 256\<rparr>\<rparr>"

subsection \<open>The undo hooks\<close>

definition set_disabled :: "bool \<Rightarrow> 'o object_database \<Rightarrow> 'o object_database" where
  "set_disabled b db = db\<lparr>undo_db := (undo_db db)\<lparr>disabled := b\<rparr>\<rparr>"

definition upd_stack :: "('o undo_state list \<Rightarrow> 'o undo_state list) \<Rightarrow> 'o object_database \<Rightarrow> 'o object_database" where
  "upd_stack f db = db\<lparr>undo_db := (undo_db db)\<lparr>stack := f (stack (undo_db db))\<rparr>\<rparr>"

text \<open>\<open>if( _stack.empty() ) _stack.emplace_back(); auto& state = _stack.back();\<close> then the change.\<close>

definition on_back :: "('o undo_state \<Rightarrow> 'o undo_state) \<Rightarrow> 'o undo_state list \<Rightarrow> 'o undo_state list" where
  "on_back f st = (case st of [] \<Rightarrow> [f empty_state] | s # rest \<Rightarrow> f s # rest)"

definition state_create :: "object_id \<Rightarrow> 'o undo_state \<Rightarrow> 'o undo_state" where
  "state_create oid st =
    (let st' = (if fmlookup (old_index_next_ids st) (index_id oid) = None
                then st\<lparr>old_index_next_ids := fmupd (index_id oid) oid (old_index_next_ids st)\<rparr>
                else st)
     in st'\<lparr>new_ids := finsert oid (new_ids st')\<rparr>)"

definition state_modify :: "object_id \<Rightarrow> 'o \<Rightarrow> 'o undo_state \<Rightarrow> 'o undo_state" where
  "state_modify oid v st =
    (if oid |\<in>| new_ids st then st
     else if fmlookup (old_values st) oid \<noteq> None then st
     else st\<lparr>old_values := fmupd oid v (old_values st)\<rparr>)"

definition state_remove :: "object_id \<Rightarrow> 'o \<Rightarrow> 'o undo_state \<Rightarrow> 'o undo_state" where
  "state_remove oid v st =
    (if oid |\<in>| new_ids st then st\<lparr>new_ids := new_ids st |-| {|oid|}\<rparr>
     else case fmlookup (old_values st) oid of
       Some x \<Rightarrow> st\<lparr>removed := fmupd oid x (removed st), old_values := fmdrop oid (old_values st)\<rparr>
     | None \<Rightarrow> (if fmlookup (removed st) oid \<noteq> None then st
                else st\<lparr>removed := fmupd oid v (removed st)\<rparr>))"

definition on_create :: "object_id \<Rightarrow> 'o object_database \<Rightarrow> 'o object_database" where
  "on_create oid db =
    (if disabled (undo_db db) then db else upd_stack (on_back (state_create oid)) db)"

definition on_modify :: "object_id \<Rightarrow> 'o \<Rightarrow> 'o object_database \<Rightarrow> 'o object_database" where
  "on_modify oid v db =
    (if disabled (undo_db db) then db else upd_stack (on_back (state_modify oid v)) db)"

definition on_remove :: "object_id \<Rightarrow> 'o \<Rightarrow> 'o object_database \<Rightarrow> 'o object_database" where
  "on_remove oid v db =
    (if disabled (undo_db db) then db else upd_stack (on_back (state_remove oid v)) db)"

subsection \<open>Operations on the indices\<close>

text \<open>A payload clashes when another object of the same index already has one of its unique keys.\<close>

definition clash :: "('o \<Rightarrow> 'u list) \<Rightarrow> (object_id, 'o) fmap \<Rightarrow> object_id \<Rightarrow> 'o \<Rightarrow> bool" where
  "clash ukeys m oid v \<longleftrightarrow>
    (\<exists>j\<in>fmdom' m. j \<noteq> oid \<and> index_id j = index_id oid \<and>
       set (ukeys (the (fmlookup m j))) \<inter> set (ukeys v) \<noteq> {})"

text \<open>\<open>get_mutable_index\<close>: throws when no index is registered for the space and type.\<close>

definition has_index :: "'o object_database \<Rightarrow> object_id \<Rightarrow> bool" where
  "has_index db oid \<longleftrightarrow> fmlookup (next_ids db) (index_id oid) \<noteq> None"

definition get_object :: "'o object_database \<Rightarrow> object_id \<Rightarrow> 'o res" where
  "get_object db oid =
    fc_assert (has_index db oid) (from_option AssertFail (fmlookup (objs db) oid))"

definition insert_obj :: "('o \<Rightarrow> 'u list) \<Rightarrow> object_id \<Rightarrow> 'o \<Rightarrow> 'o object_database \<Rightarrow> 'o object_database exec" where
  "insert_obj ukeys oid v db =
    (if \<not> has_index db oid then (Some AssertFail, db)
     else if fmlookup (objs db) oid \<noteq> None \<or> clash ukeys (objs db) oid v then (Some AssertFail, db)
     else (None, db\<lparr>objs := fmupd oid v (objs db)\<rparr>))"

definition create :: "('o \<Rightarrow> 'u list) \<Rightarrow> object_id \<Rightarrow> 'o \<Rightarrow> 'o object_database \<Rightarrow> 'o object_database exec" where
  "create ukeys idx v db =
    (case fmlookup (next_ids db) (index_id idx) of
       None \<Rightarrow> (Some AssertFail, db)
     | Some oid \<Rightarrow>
         (if fmlookup (objs db) oid \<noteq> None \<or> clash ukeys (objs db) oid v then (Some AssertFail, db)
          else (None, on_create oid
                  (db\<lparr>objs := fmupd oid v (objs db),
                      next_ids := fmupd (index_id idx) (oid + 1) (next_ids db)\<rparr>))))"

text \<open>A \<open>multi_index_container::modify\<close> that collides erases the element before the index throws.\<close>

definition modify :: "('o \<Rightarrow> 'u list) \<Rightarrow> object_id \<Rightarrow> ('o \<Rightarrow> 'o) \<Rightarrow> 'o object_database \<Rightarrow> 'o object_database exec" where
  "modify ukeys oid f db =
    (if \<not> has_index db oid then (Some AssertFail, db)
     else case fmlookup (objs db) oid of
       None \<Rightarrow> (Some UB, db)
     | Some v \<Rightarrow>
         (let db1 = on_modify oid v db in
          if clash ukeys (objs db) oid (f v)
          then (Some AssertFail, db1\<lparr>objs := fmdrop oid (objs db1)\<rparr>)
          else (None, db1\<lparr>objs := fmupd oid (f v) (objs db1)\<rparr>)))"

definition remove :: "object_id \<Rightarrow> 'o object_database \<Rightarrow> 'o object_database exec" where
  "remove oid db =
    (if \<not> has_index db oid then (Some AssertFail, db)
     else case fmlookup (objs db) oid of
       None \<Rightarrow> (Some UB, db)
     | Some v \<Rightarrow>
         (let db1 = on_remove oid v db in (None, db1\<lparr>objs := fmdrop oid (objs db1)\<rparr>)))"

definition set_next_id :: "object_id \<Rightarrow> object_id \<Rightarrow> 'o object_database \<Rightarrow> 'o object_database exec" where
  "set_next_id idx n db =
    (if \<not> has_index db idx then (Some AssertFail, db)
     else (None, db\<lparr>next_ids := fmupd (index_id idx) n (next_ids db)\<rparr>))"

subsection \<open>Sessions\<close>

record session =
  apply_undo :: bool
  disable_on_exit :: bool

definition start_undo_session :: "bool \<Rightarrow> 'o object_database \<Rightarrow> session \<times> 'o object_database" where
  "start_undo_session force_enable db =
    (let u = undo_db db in
     if disabled u \<and> \<not> force_enable then (\<lparr>apply_undo = True, disable_on_exit = False\<rparr>, db)
     else
       (let doe = (disabled u \<and> force_enable);
            u1 = (if force_enable then u\<lparr>disabled := False\<rparr> else u);
            u2 = u1\<lparr>stack := empty_state # take (max_size u1) (stack u1),
                    active_sessions := active_sessions u1 + 1\<rparr>
        in (\<lparr>apply_undo = True, disable_on_exit = doe\<rparr>, db\<lparr>undo_db := u2\<rparr>)))"

text \<open>The restoring loops that \<open>undo\<close> and \<open>pop_commit\<close> share.\<close>

definition restore_value :: "('o \<Rightarrow> 'u list) \<Rightarrow> 'o undo_state \<Rightarrow> object_id \<Rightarrow> 'o object_database \<Rightarrow> 'o object_database exec" where
  "restore_value ukeys st oid db =
    (case get_object db oid of
       Inl e \<Rightarrow> (Some e, db)
     | Inr _ \<Rightarrow> modify ukeys oid (\<lambda>_. the (fmlookup (old_values st) oid)) db)"

definition remove_new :: "object_id \<Rightarrow> 'o object_database \<Rightarrow> 'o object_database exec" where
  "remove_new oid db =
    (case get_object db oid of Inl e \<Rightarrow> (Some e, db) | Inr _ \<Rightarrow> remove oid db)"

definition restore_next_id :: "'o undo_state \<Rightarrow> object_id \<Rightarrow> 'o object_database \<Rightarrow> 'o object_database exec" where
  "restore_next_id st idx db = set_next_id idx (the (fmlookup (old_index_next_ids st) idx)) db"

definition reinsert :: "('o \<Rightarrow> 'u list) \<Rightarrow> 'o undo_state \<Rightarrow> object_id \<Rightarrow> 'o object_database \<Rightarrow> 'o object_database exec" where
  "reinsert ukeys st oid db = insert_obj ukeys oid (the (fmlookup (removed st) oid)) db"

definition restore_state :: "('o \<Rightarrow> 'u list) \<Rightarrow> (object_id fset \<Rightarrow> object_id list) \<Rightarrow> 'o undo_state \<Rightarrow> 'o object_database \<Rightarrow> 'o object_database exec" where
  "restore_state ukeys enum st db =
    ebind (efold (restore_value ukeys st) (enum (fmdom (old_values st))) db) (\<lambda>db.
    ebind (efold remove_new (enum (new_ids st)) db) (\<lambda>db.
    ebind (efold (restore_next_id st) (enum (fmdom (old_index_next_ids st))) db) (\<lambda>db.
    efold (reinsert ukeys st) (enum (fmdom (removed st))) db)))"

definition undo :: "('o \<Rightarrow> 'u list) \<Rightarrow> (object_id fset \<Rightarrow> object_id list) \<Rightarrow> 'o object_database \<Rightarrow> 'o object_database exec" where
  "undo ukeys enum db =
    (if disabled (undo_db db) then (Some AssertFail, db)
     else if \<not> active_sessions (undo_db db) > 0 then (Some AssertFail, db)
     else
       (let db1 = set_disabled True db in
        case stack (undo_db db) of
          [] \<Rightarrow> (Some UB, db1)
        | st # _ \<Rightarrow>
            ebind (restore_state ukeys enum st db1) (\<lambda>db2.
              let db3 = upd_stack (\<lambda>s. if tl s = [] then [empty_state] else tl s) db2;
                  db4 = set_disabled False db3
              in (None, db4\<lparr>undo_db := (undo_db db4)\<lparr>active_sessions := active_sessions (undo_db db4) - 1\<rparr>\<rparr>))))"

definition merge_old :: "'o undo_state \<Rightarrow> object_id \<Rightarrow> 'o undo_state \<Rightarrow> 'o undo_state" where
  "merge_old st oid prev =
    (if oid |\<in>| new_ids prev then prev
     else if fmlookup (old_values prev) oid \<noteq> None then prev
     else prev\<lparr>old_values := fmupd oid (the (fmlookup (old_values st) oid)) (old_values prev)\<rparr>)"

definition merge_new :: "object_id \<Rightarrow> 'o undo_state \<Rightarrow> 'o undo_state" where
  "merge_new oid prev = prev\<lparr>new_ids := finsert oid (new_ids prev)\<rparr>"

definition merge_next_id :: "'o undo_state \<Rightarrow> object_id \<Rightarrow> 'o undo_state \<Rightarrow> 'o undo_state" where
  "merge_next_id st idx prev =
    (if fmlookup (old_index_next_ids prev) idx = None
     then prev\<lparr>old_index_next_ids := fmupd idx (the (fmlookup (old_index_next_ids st) idx)) (old_index_next_ids prev)\<rparr>
     else prev)"

definition merge_removed :: "'o undo_state \<Rightarrow> object_id \<Rightarrow> 'o undo_state \<Rightarrow> 'o undo_state" where
  "merge_removed st oid prev =
    (if oid |\<in>| new_ids prev then prev\<lparr>new_ids := new_ids prev |-| {|oid|}\<rparr>
     else case fmlookup (old_values prev) oid of
       Some x \<Rightarrow> prev\<lparr>removed := fmupd oid x (removed prev), old_values := fmdrop oid (old_values prev)\<rparr>
     | None \<Rightarrow> prev\<lparr>removed := fmupd oid (the (fmlookup (removed st) oid)) (removed prev)\<rparr>)"

definition merge_states :: "(object_id fset \<Rightarrow> object_id list) \<Rightarrow> 'o undo_state \<Rightarrow> 'o undo_state \<Rightarrow> 'o undo_state" where
  "merge_states enum st prev =
    (let p1 = fold (merge_old st) (enum (fmdom (old_values st))) prev;
         p2 = fold merge_new (enum (new_ids st)) p1;
         p3 = fold (merge_next_id st) (enum (fmdom (old_index_next_ids st))) p2
     in fold (merge_removed st) (enum (fmdom (removed st))) p3)"

definition merge :: "(object_id fset \<Rightarrow> object_id list) \<Rightarrow> 'o object_database \<Rightarrow> 'o object_database exec" where
  "merge enum db =
    (if \<not> active_sessions (undo_db db) > 0 then (Some AssertFail, db)
     else case stack (undo_db db) of
       st # prev # rest \<Rightarrow>
         (None, db\<lparr>undo_db := (undo_db db)\<lparr>stack := merge_states enum st prev # rest,
                     active_sessions := active_sessions (undo_db db) - 1\<rparr>\<rparr>)
     | _ \<Rightarrow> (Some AssertFail, db))"

definition commit :: "'o object_database \<Rightarrow> 'o object_database exec" where
  "commit db =
    (if \<not> active_sessions (undo_db db) > 0 then (Some AssertFail, db)
     else (None, db\<lparr>undo_db := (undo_db db)\<lparr>active_sessions := active_sessions (undo_db db) - 1\<rparr>\<rparr>))"

definition pop_commit :: "('o \<Rightarrow> 'u list) \<Rightarrow> (object_id fset \<Rightarrow> object_id list) \<Rightarrow> 'o object_database \<Rightarrow> 'o object_database exec" where
  "pop_commit ukeys enum db =
    (if active_sessions (undo_db db) \<noteq> 0 then (Some AssertFail, db)
     else case stack (undo_db db) of
       [] \<Rightarrow> (Some AssertFail, db)
     | st # _ \<Rightarrow>
         (case ebind (restore_state ukeys enum st (set_disabled True db)) (\<lambda>db. (None, upd_stack tl db)) of
            (e, db') \<Rightarrow> (e, set_disabled False db')))"

text \<open>The methods of \<open>undo_database::session\<close>; the session object is threaded beside the database.\<close>

definition session_commit :: "session \<times> 'o object_database \<Rightarrow> (session \<times> 'o object_database) exec" where
  "session_commit sd = (case commit (snd sd) of (e, db) \<Rightarrow> (e, (fst sd)\<lparr>apply_undo := False\<rparr>, db))"

definition session_undo :: "('o \<Rightarrow> 'u list) \<Rightarrow> (object_id fset \<Rightarrow> object_id list) \<Rightarrow> session \<times> 'o object_database \<Rightarrow> (session \<times> 'o object_database) exec" where
  "session_undo ukeys enum sd =
    (if apply_undo (fst sd) then
       (case undo ukeys enum (snd sd) of
          (Some e, db) \<Rightarrow> (Some e, fst sd, db)
        | (None, db) \<Rightarrow> (None, (fst sd)\<lparr>apply_undo := False\<rparr>, db))
     else (None, sd))"

definition session_merge :: "(object_id fset \<Rightarrow> object_id list) \<Rightarrow> session \<times> 'o object_database \<Rightarrow> (session \<times> 'o object_database) exec" where
  "session_merge enum sd =
    (if apply_undo (fst sd) then
       (case merge enum (snd sd) of
          (Some e, db) \<Rightarrow> (Some e, fst sd, db)
        | (None, db) \<Rightarrow> (None, (fst sd)\<lparr>apply_undo := False\<rparr>, db))
     else (None, sd))"

definition session_destroy :: "('o \<Rightarrow> 'u list) \<Rightarrow> (object_id fset \<Rightarrow> object_id list) \<Rightarrow> session \<times> 'o object_database \<Rightarrow> 'o object_database exec" where
  "session_destroy ukeys enum sd =
    ebind (if apply_undo (fst sd) then undo ukeys enum (snd sd) else (None, snd sd))
      (\<lambda>db. (None, if disable_on_exit (fst sd) then set_disabled True db else db))"

end
