(* ===== verification/Undo_Refinement.thy ===== *)
theory Undo_Refinement
  imports Undo_Database
begin

text \<open>The undo database implements a stack of snapshots.

  The abstract machine keeps the current content (objects and next ids) and, for every undo state of
  the stack, the complete content at the moment that state was opened. \<open>refines\<close> relates it to
  the concrete database, in which an undo state holds only the differences. The lemmas show for every
  operation that the relation is kept, so that \<open>undo\<close> and \<open>pop_commit\<close> bring back exactly the content
  of the moment the session was started, whatever was done in between, nested sessions included.\<close>

type_synonym 'o content = "(object_id, 'o) fmap \<times> (object_id, object_id) fmap"

definition content :: "'o object_database \<Rightarrow> 'o content" where
  "content db = (objs db, next_ids db)"

subsection \<open>What an undo state says about one object\<close>

definition obj_rel :: "'o undo_state \<Rightarrow> object_id \<Rightarrow> 'o option \<Rightarrow> 'o option \<Rightarrow> bool" where
  "obj_rel st oid cur snap \<longleftrightarrow>
    (if oid |\<in>| new_ids st then
       fmlookup (old_values st) oid = None \<and> fmlookup (removed st) oid = None \<and> cur \<noteq> None \<and> snap = None
     else case fmlookup (old_values st) oid of
       Some x \<Rightarrow> fmlookup (removed st) oid = None \<and> cur \<noteq> None \<and> snap = Some x
     | None \<Rightarrow> (case fmlookup (removed st) oid of
         Some x \<Rightarrow> cur = None \<and> snap = Some x
       | None \<Rightarrow> cur = snap))"

definition next_rel :: "'o undo_state \<Rightarrow> object_id \<Rightarrow> object_id option \<Rightarrow> object_id option \<Rightarrow> bool" where
  "next_rel st k cur snap \<longleftrightarrow>
    (case fmlookup (old_index_next_ids st) k of Some n \<Rightarrow> cur \<noteq> None \<and> snap = Some n | None \<Rightarrow> cur = snap)"

definition state_rel :: "'o undo_state \<Rightarrow> 'o content \<Rightarrow> 'o content \<Rightarrow> bool" where
  "state_rel st cur snap \<longleftrightarrow>
    (\<forall>oid. obj_rel st oid (fmlookup (fst cur) oid) (fmlookup (fst snap) oid)) \<and>
    (\<forall>k. next_rel st k (fmlookup (snd cur) k) (fmlookup (snd snap) k))"

lemma state_rel_empty [simp]: "state_rel empty_state c c"
  by (simp add: state_rel_def obj_rel_def next_rel_def empty_state_def)

lemma state_create_same:
  "obj_rel st oid None None \<Longrightarrow> obj_rel (state_create oid st) oid (Some v) None"
  by (auto simp: obj_rel_def state_create_def Let_def split: if_splits option.splits)

lemma state_create_other:
  "oid \<noteq> j \<Longrightarrow> obj_rel (state_create oid st) j c s = obj_rel st j c s"
  by (auto simp: obj_rel_def state_create_def Let_def split: if_splits option.splits)

lemma state_create_next:
  assumes "\<And>k. next_rel st k (fmlookup m k) (sn k)" and "fmlookup m (index_id oid) = Some oid"
  shows "next_rel (state_create oid st) k (fmlookup (fmupd (index_id oid) (oid + 1) m) k) (sn k)"
  using assms(1)[of k] assms(2)
  by (auto simp: next_rel_def state_create_def Let_def split: if_splits option.splits)

lemma state_modify_same:
  "obj_rel st oid (Some v) s \<Longrightarrow> obj_rel (state_modify oid v st) oid (Some w) s"
  by (auto simp: obj_rel_def state_modify_def split: if_splits option.splits)

lemma state_modify_other:
  "oid \<noteq> j \<Longrightarrow> obj_rel (state_modify oid v st) j c s = obj_rel st j c s"
  by (auto simp: obj_rel_def state_modify_def split: if_splits option.splits)

lemma state_modify_next [simp]: "next_rel (state_modify oid v st) k c s = next_rel st k c s"
  by (auto simp: next_rel_def state_modify_def)

lemma state_remove_same:
  "obj_rel st oid (Some v) s \<Longrightarrow> obj_rel (state_remove oid v st) oid None s"
  by (auto simp: obj_rel_def state_remove_def split: if_splits option.splits)

lemma state_remove_other:
  "oid \<noteq> j \<Longrightarrow> obj_rel (state_remove oid v st) j c s = obj_rel st j c s"
  by (auto simp: obj_rel_def state_remove_def split: if_splits option.splits)

lemma state_remove_next [simp]: "next_rel (state_remove oid v st) k c s = next_rel st k c s"
  by (auto simp: next_rel_def state_remove_def split: option.splits)

subsection \<open>Well-formed contents and how they evolve\<close>

text \<open>Every object belongs to a registered index and was created before the next id; unique keys are
  unique.\<close>

definition content_wf :: "('o \<Rightarrow> 'u list) \<Rightarrow> 'o content \<Rightarrow> bool" where
  "content_wf ukeys c \<longleftrightarrow>
    (\<forall>k n. fmlookup (snd c) k = Some n \<longrightarrow> index_id n = k) \<and>
    (\<forall>oid v. fmlookup (fst c) oid = Some v \<longrightarrow> (\<exists>n. fmlookup (snd c) (index_id oid) = Some n \<and> oid < n)) \<and>
    (\<forall>oid v. fmlookup (fst c) oid = Some v \<longrightarrow> \<not> clash ukeys (fst c) oid v)"

lemma content_wfI:
  assumes "\<And>k n. fmlookup ns k = Some n \<Longrightarrow> index_id n = k"
    and "\<And>oid v. fmlookup m oid = Some v \<Longrightarrow> \<exists>n. fmlookup ns (index_id oid) = Some n \<and> oid < n"
    and "\<And>oid v. fmlookup m oid = Some v \<Longrightarrow> \<not> clash ukeys m oid v"
  shows "content_wf ukeys (m, ns)"
  using assms unfolding content_wf_def fst_conv snd_conv by blast

lemma content_wf_index: "content_wf ukeys (m, ns) \<Longrightarrow> fmlookup ns k = Some n \<Longrightarrow> index_id n = k"
  unfolding content_wf_def snd_conv by blast

lemma content_wf_obj:
  assumes "content_wf ukeys (m, ns)" "fmlookup m oid = Some v"
  obtains n where "fmlookup ns (index_id oid) = Some n" "oid < n"
  using assms unfolding content_wf_def fst_conv snd_conv by blast

lemma content_wf_unique:
  "content_wf ukeys (m, ns) \<Longrightarrow> fmlookup m oid = Some v \<Longrightarrow> \<not> clash ukeys m oid v"
  unfolding content_wf_def fst_conv by blast

text \<open>The content a later one grew from: next ids only grow, ids are never used twice, and an object
  that lives on keeps its unique keys.\<close>

definition evolves :: "('o \<Rightarrow> 'u list) \<Rightarrow> 'o content \<Rightarrow> 'o content \<Rightarrow> bool" where
  "evolves ukeys c d \<longleftrightarrow>
    (\<forall>k n. fmlookup (snd c) k = Some n \<longrightarrow> (\<exists>m. fmlookup (snd d) k = Some m \<and> n \<le> m)) \<and>
    (\<forall>oid n. fmlookup (fst c) oid = None \<and> fmlookup (snd c) (index_id oid) = Some n \<and> oid < n
       \<longrightarrow> fmlookup (fst d) oid = None) \<and>
    (\<forall>oid v w. fmlookup (fst c) oid = Some v \<and> fmlookup (fst d) oid = Some w \<longrightarrow> ukeys v = ukeys w)"

lemma evolves_refl [simp]: "evolves ukeys c c"
  by (auto simp: evolves_def)

lemma evolves_no_resurrection:
  assumes "content_wf ukeys b" "evolves ukeys b c" "evolves ukeys c d"
    and "fmlookup (fst b) oid = Some v" "fmlookup (fst c) oid = None"
  shows "fmlookup (fst d) oid = None"
proof -
  obtain n where n: "fmlookup (snd b) (index_id oid) = Some n" "oid < n"
    using assms(1,4) unfolding content_wf_def by blast
  obtain m where "fmlookup (snd c) (index_id oid) = Some m" "n \<le> m"
    using n(1) assms(2) unfolding evolves_def by blast
  with n(2) assms(3,5) show ?thesis unfolding evolves_def by (meson order_less_le_trans)
qed

lemma evolves_trans:
  assumes wf: "content_wf ukeys b" and bc: "evolves ukeys b c" and cd: "evolves ukeys c d"
  shows "evolves ukeys b d"
  unfolding evolves_def
proof (intro conjI allI impI)
  fix k n assume "fmlookup (snd b) k = Some n"
  then show "\<exists>m. fmlookup (snd d) k = Some m \<and> n \<le> m"
    using bc cd unfolding evolves_def by (meson order_trans)
next
  fix oid n assume h: "fmlookup (fst b) oid = None \<and> fmlookup (snd b) (index_id oid) = Some n \<and> oid < n"
  then have "fmlookup (fst c) oid = None" using bc unfolding evolves_def by blast
  moreover obtain m where "fmlookup (snd c) (index_id oid) = Some m" "n \<le> m"
    using h bc unfolding evolves_def by blast
  ultimately show "fmlookup (fst d) oid = None"
    using h cd unfolding evolves_def by (meson order_less_le_trans)
next
  fix oid v w assume h: "fmlookup (fst b) oid = Some v \<and> fmlookup (fst d) oid = Some w"
  then obtain u where "fmlookup (fst c) oid = Some u"
    using evolves_no_resurrection[OF wf bc cd, of oid v] by fastforce
  with h show "ukeys v = ukeys w" using bc cd unfolding evolves_def by metis
qed

text \<open>The chain of contents: the current one, then the snapshots from the newest to the oldest.\<close>

fun chain :: "('o \<Rightarrow> 'u list) \<Rightarrow> 'o undo_state list \<Rightarrow> 'o content \<Rightarrow> 'o content list \<Rightarrow> bool" where
  "chain ukeys [] c [] = content_wf ukeys c"
| "chain ukeys (st # sts) c (s # ss) =
    (content_wf ukeys c \<and> evolves ukeys s c \<and> state_rel st c s \<and> chain ukeys sts s ss)"
| "chain ukeys _ _ _ = False"

lemma chain_wf: "chain ukeys sts c ss \<Longrightarrow> content_wf ukeys c"
  by (cases "(ukeys, sts, c, ss)" rule: chain.cases) auto

lemma chain_length: "chain ukeys sts c ss \<Longrightarrow> length sts = length ss"
  by (induction ukeys sts c ss rule: chain.induct) auto

lemma chain_take: "chain ukeys sts c ss \<Longrightarrow> chain ukeys (take n sts) c (take n ss)"
proof (induction ukeys sts c ss arbitrary: n rule: chain.induct)
  case (2 ukeys st sts c s ss)
  then show ?case by (cases n) auto
qed auto

definition refines :: "('o \<Rightarrow> 'u list) \<Rightarrow> 'o object_database \<Rightarrow> 'o content list \<Rightarrow> bool" where
  "refines ukeys db ss \<longleftrightarrow>
    chain ukeys (stack (undo_db db)) (content db) ss \<and> active_sessions (undo_db db) \<le> length ss"

subsection \<open>Changes of the content\<close>

definition opened :: "'o content \<Rightarrow> 'o content list \<Rightarrow> 'o content list" where
  "opened c ss = (if ss = [] then [c] else ss)"

lemma chain_on_back:
  assumes ch: "chain ukeys sts c ss" and wf: "content_wf ukeys c'" and ev: "evolves ukeys c c'"
    and hook: "\<And>st s. state_rel st c s \<Longrightarrow> evolves ukeys s c \<Longrightarrow> content_wf ukeys s \<Longrightarrow> state_rel (f st) c' s"
  shows "chain ukeys (on_back f sts) c' (opened c ss)"
proof (cases sts)
  case Nil
  then have "ss = []" using chain_length[OF ch] by simp
  with Nil show ?thesis
    using chain_wf[OF ch] wf ev hook[of empty_state c] by (simp add: on_back_def opened_def)
next
  case (Cons st sts')
  then obtain s ss' where ss: "ss = s # ss'" using chain_length[OF ch] by (cases ss) auto
  then have s: "evolves ukeys s c" "state_rel st c s" "chain ukeys sts' s ss'" "content_wf ukeys s"
    using ch Cons by (auto dest: chain_wf)
  then show ?thesis
    using Cons ss wf hook[of st s] evolves_trans[OF s(4,1) ev] by (simp add: on_back_def opened_def)
qed

lemma clash_fmupd_other:
  "j \<noteq> oid \<Longrightarrow> clash ukeys (fmupd oid v m) j w \<longleftrightarrow>
    clash ukeys (fmdrop oid m) j w \<or> (index_id oid = index_id j \<and> set (ukeys v) \<inter> set (ukeys w) \<noteq> {})"
  by (auto simp: clash_def)

lemma clashE:
  assumes "clash ukeys m oid x"
  obtains j w where "fmlookup m j = Some w" "j \<noteq> oid" "index_id j = index_id oid"
    "set (ukeys x) \<inter> set (ukeys w) \<noteq> {}"
proof -
  obtain j where j: "j \<in> fmdom' m" "j \<noteq> oid" "index_id j = index_id oid"
    "set (ukeys (the (fmlookup m j))) \<inter> set (ukeys x) \<noteq> {}"
    using assms unfolding clash_def by blast
  moreover obtain w where "fmlookup m j = Some w" using j(1) by (auto simp: fmlookup_dom'_iff)
  ultimately show thesis using that[of j w] by (simp add: Int_commute)
qed

lemma clash_fmdrop: "clash ukeys (fmdrop oid m) j w \<Longrightarrow> clash ukeys m j w"
  by (auto simp: clash_def)

lemma clash_self: "clash ukeys (fmupd oid v m) oid w \<longleftrightarrow> clash ukeys m oid w"
  by (auto simp: clash_def)

lemma clash_sym:
  assumes "fmlookup m j = Some w" "j \<noteq> oid" "\<not> clash ukeys m oid v" "index_id oid = index_id j"
  shows "set (ukeys v) \<inter> set (ukeys w) = {}"
  using assms by (force simp: clash_def fmdom'_iff)

text \<open>Putting a payload that does not clash in place of an entry keeps the keys unique.\<close>

lemma unique_upd:
  assumes u: "\<forall>j w. fmlookup m j = Some w \<longrightarrow> \<not> clash ukeys m j w" and n: "\<not> clash ukeys m oid v"
    and "fmlookup (fmupd oid v m) j = Some w"
  shows "\<not> clash ukeys (fmupd oid v m) j w"
proof (cases "j = oid")
  case True
  then show ?thesis using assms by (simp add: clash_self)
next
  case False
  then have jw: "fmlookup m j = Some w" using assms(3) by (simp split: if_splits)
  then show ?thesis
    using clash_fmupd_other[OF False] u clash_fmdrop clash_sym[OF jw False n] by fastforce
qed

lemma content_wf_create:
  assumes wf: "content_wf ukeys (m, ns)" and n: "fmlookup ns (index_id idx) = Some oid"
    and i: "id_instance oid \<noteq> MAX_INSTANCE_ID" and c: "\<not> clash ukeys m oid v"
  shows "content_wf ukeys (fmupd oid v m, fmupd (index_id idx) (oid + 1) ns)"
proof -
  have k: "index_id oid = index_id idx" using wf n by (auto simp: content_wf_def)
  show ?thesis
    unfolding content_wf_def fst_conv snd_conv
  proof (intro conjI allI impI)
    fix j w assume "fmlookup (fmupd oid v m) j = Some w"
    then show "\<not> clash ukeys (fmupd oid v m) j w"
      by (intro unique_upd) (use wf c in \<open>auto simp: content_wf_def\<close>)
  next
    fix j w assume a: "fmlookup (fmupd oid v m) j = Some w"
    show "\<exists>na. fmlookup (fmupd (index_id idx) (oid + 1) ns) (index_id j) = Some na \<and> j < na"
    proof (cases "j = oid")
      case True
      then show ?thesis using id_succ(2)[OF i] k by simp
    next
      case False
      then obtain na where na: "fmlookup ns (index_id j) = Some na" "j < na"
        using a wf unfolding content_wf_def by auto
      then show ?thesis using n order_less_trans[OF _ id_succ(2)[OF i]]
        by (cases "index_id j = index_id idx") auto
    qed
  qed (use wf id_succ(1)[OF i] k in \<open>auto simp: content_wf_def split: if_splits\<close>)
qed

lemma evolves_create:
  assumes wf: "content_wf ukeys (m, ns)" and n: "fmlookup ns (index_id idx) = Some oid"
    and i: "id_instance oid \<noteq> MAX_INSTANCE_ID" and none: "fmlookup m oid = None"
  shows "evolves ukeys (m, ns) (fmupd oid v m, fmupd (index_id idx) (oid + 1) ns)"
proof -
  have k: "index_id oid = index_id idx" using wf n by (auto simp: content_wf_def)
  have le: "oid \<le> oid + 1" using id_succ(2)[OF i] by simp
  show ?thesis
    unfolding evolves_def fst_conv snd_conv
  proof (intro conjI allI impI)
    fix j n' assume "fmlookup ns j = Some n'"
    then show "\<exists>a. fmlookup (fmupd (index_id idx) (oid + 1) ns) j = Some a \<and> n' \<le> a"
      using n le by (cases "j = index_id idx") auto
  qed (use n none k in \<open>auto split: if_splits\<close>)
qed

lemma state_rel_create:
  assumes r: "state_rel st (m, ns) s" and ev: "evolves ukeys s (m, ns)" and wf: "content_wf ukeys s"
    and n: "fmlookup ns (index_id idx) = Some oid" and none: "fmlookup m oid = None"
    and k: "index_id oid = index_id idx"
  shows "state_rel (state_create oid st) (fmupd oid v m, fmupd (index_id idx) (oid + 1) ns) s"
proof -
  have fresh: "fmlookup (fst s) oid = None"
  proof (rule ccontr)
    assume "fmlookup (fst s) oid \<noteq> None"
    then obtain x where "fmlookup (fst s) oid = Some x" by blast
    then obtain a where a: "fmlookup (snd s) (index_id oid) = Some a" "oid < a"
      using wf by (auto simp: content_wf_def)
    then obtain b where "fmlookup ns (index_id oid) = Some b" "a \<le> b"
      using ev unfolding evolves_def snd_conv by blast
    with a n k show False by simp
  qed
  have o: "obj_rel (state_create oid st) j (fmlookup (fmupd oid v m) j) (fmlookup (fst s) j)" for j
    using r fresh none state_create_same[of st oid v] state_create_other[of oid j st]
    by (cases "j = oid") (auto simp: state_rel_def dest: spec[of _ oid])
  have "next_rel (state_create oid st) j (fmlookup (fmupd (index_id oid) (oid + 1) ns) j) (fmlookup (snd s) j)" for j
    by (rule state_create_next) (use r n k in \<open>auto simp: state_rel_def\<close>)
  with o k show ?thesis by (simp add: state_rel_def)
qed

lemma refines_create:
  assumes r: "refines ukeys db ss" and en: "\<not> disabled (undo_db db)"
    and n: "fmlookup (next_ids db) (index_id idx) = Some oid"
    and i: "id_instance oid \<noteq> MAX_INSTANCE_ID"
    and ok: "create ukeys idx v db = (None, db')"
  shows "refines ukeys db' (opened (content db) ss)"
    and "content db' = (fmupd oid v (objs db), fmupd (index_id idx) (oid + 1) (next_ids db))"
proof -
  have wf: "content_wf ukeys (objs db, next_ids db)"
    using r by (auto simp: refines_def content_def dest: chain_wf)
  then have k: "index_id oid = index_id idx" using n by (auto simp: content_wf_def)
  have none: "fmlookup (objs db) oid = None" and nc: "\<not> clash ukeys (objs db) oid v"
    and db': "db' = on_create oid (db\<lparr>objs := fmupd oid v (objs db),
                      next_ids := fmupd (index_id idx) (oid + 1) (next_ids db)\<rparr>)"
    using ok n by (auto simp: create_def split: if_splits)
  show c: "content db' = (fmupd oid v (objs db), fmupd (index_id idx) (oid + 1) (next_ids db))"
    by (simp add: db' content_def on_create_def upd_stack_def en)
  have "chain ukeys (on_back (state_create oid) (stack (undo_db db))) (content db') (opened (content db) ss)"
    unfolding c
    by (rule chain_on_back)
      (use r content_wf_create[OF wf n i nc] evolves_create[OF wf n i none] n none k
        in \<open>auto simp: refines_def content_def intro!: state_rel_create\<close>)
  moreover have "stack (undo_db db') = on_back (state_create oid) (stack (undo_db db))"
    "active_sessions (undo_db db') = active_sessions (undo_db db)"
    by (simp_all add: db' on_create_def upd_stack_def en)
  ultimately show "refines ukeys db' (opened (content db) ss)"
    using r by (auto simp: refines_def opened_def)
qed

lemma clash_upd_self_keys:
  assumes "fmlookup m oid = Some v" "\<not> clash ukeys m oid v" "ukeys w = ukeys v"
  shows "\<not> clash ukeys m oid w"
  using assms by (simp add: clash_def)

lemma content_wf_modify:
  assumes wf: "content_wf ukeys (m, ns)" and v: "fmlookup m oid = Some v" and k: "ukeys w = ukeys v"
  shows "content_wf ukeys (fmupd oid w m, ns)"
proof (rule content_wfI)
  have nc: "\<not> clash ukeys m oid w"
    by (rule clash_upd_self_keys[OF v content_wf_unique[OF wf v] k])
  show "\<not> clash ukeys (fmupd oid w m) j x" if "fmlookup (fmupd oid w m) j = Some x" for j x
    by (rule unique_upd[OF _ nc that]) (blast dest: content_wf_unique[OF wf])
  show "\<exists>n. fmlookup ns (index_id j) = Some n \<and> j < n" if "fmlookup (fmupd oid w m) j = Some x" for j x
    using that v by (cases "j = oid") (auto elim: content_wf_obj[OF wf])
qed (rule content_wf_index[OF wf])

lemma evolves_modify:
  "fmlookup m oid = Some v \<Longrightarrow> ukeys w = ukeys v \<Longrightarrow> evolves ukeys (m, ns) (fmupd oid w m, ns)"
  by (auto simp: evolves_def)

lemma state_rel_modify:
  assumes "state_rel st (m, ns) s" "fmlookup m oid = Some v"
  shows "state_rel (state_modify oid v st) (fmupd oid w m, ns) s"
proof -
  have "obj_rel (state_modify oid v st) j (fmlookup (fmupd oid w m) j) (fmlookup (fst s) j)" for j
    using assms state_modify_same[of st oid v _ w] state_modify_other[of oid j v st]
    by (cases "j = oid") (auto simp: state_rel_def dest!: spec[of _ oid])
  then show ?thesis using assms(1) by (simp add: state_rel_def)
qed

lemma content_wf_remove:
  assumes wf: "content_wf ukeys (m, ns)"
  shows "content_wf ukeys (fmdrop oid m, ns)"
proof (rule content_wfI)
  fix j x assume "fmlookup (fmdrop oid m) j = Some x"
  then have x: "fmlookup m j = Some x" by (simp split: if_splits)
  show "\<not> clash ukeys (fmdrop oid m) j x" 
    using clash_fmdrop[of ukeys oid m j x] content_wf_unique[OF wf x] by auto
  show "\<exists>n. fmlookup ns (index_id j) = Some n \<and> j < n" using content_wf_obj[OF wf x] by blast
qed (rule content_wf_index[OF wf])

lemma evolves_remove: "evolves ukeys (m, ns) (fmdrop oid m, ns)"
  by (auto simp: evolves_def)

lemma state_rel_remove:
  assumes "state_rel st (m, ns) s" "fmlookup m oid = Some v"
  shows "state_rel (state_remove oid v st) (fmdrop oid m, ns) s"
proof -
  have "obj_rel (state_remove oid v st) j (fmlookup (fmdrop oid m) j) (fmlookup (fst s) j)" for j
    using assms state_remove_same[of st oid v] state_remove_other[of oid j v st]
    by (cases "j = oid") (auto simp: state_rel_def dest!: spec[of _ oid])
  then show ?thesis using assms(1) by (simp add: state_rel_def)
qed

text \<open>A modification that keeps the unique keys of a present object never fails.\<close>

lemma refines_modify:
  assumes r: "refines ukeys db ss" and en: "\<not> disabled (undo_db db)"
    and v: "fmlookup (objs db) oid = Some v" and k: "ukeys (f v) = ukeys v"
  obtains db' where "modify ukeys oid f db = (None, db')"
    and "refines ukeys db' (opened (content db) ss)"
    and "content db' = (fmupd oid (f v) (objs db), next_ids db)"
    and "disabled (undo_db db') = disabled (undo_db db)"
proof -
  have wf: "content_wf ukeys (objs db, next_ids db)"
    using r by (auto simp: refines_def content_def dest: chain_wf)
  have nc: "\<not> clash ukeys (objs db) oid (f v)"
    by (rule clash_upd_self_keys[OF v content_wf_unique[OF wf v] k])
  have idx: "has_index db oid" by (rule content_wf_obj[OF wf v]) (simp add: has_index_def)
  define db' where "db' = (on_modify oid v db)\<lparr>objs := fmupd oid (f v) (objs db)\<rparr>"
  have m: "modify ukeys oid f db = (None, db')"
    using nc idx v by (simp add: modify_def db'_def Let_def on_modify_def upd_stack_def)
  have c: "content db' = (fmupd oid (f v) (objs db), next_ids db)"
    by (simp add: db'_def content_def on_modify_def upd_stack_def en)
  have "chain ukeys (on_back (state_modify oid v) (stack (undo_db db))) (content db') (opened (content db) ss)"
    unfolding c
    by (rule chain_on_back)
      (use r content_wf_modify[OF wf v k] evolves_modify[OF v k] state_rel_modify[OF _ v]
        in \<open>auto simp: refines_def content_def\<close>)
  then have "refines ukeys db' (opened (content db) ss)"
    using r by (auto simp: refines_def opened_def db'_def on_modify_def upd_stack_def en)
  moreover have "disabled (undo_db db') = disabled (undo_db db)"
    by (simp add: db'_def on_modify_def upd_stack_def)
  ultimately show thesis using m c that by blast
qed

lemma refines_remove:
  assumes r: "refines ukeys db ss" and en: "\<not> disabled (undo_db db)"
    and v: "fmlookup (objs db) oid = Some v"
  obtains db' where "remove oid db = (None, db')"
    and "refines ukeys db' (opened (content db) ss)"
    and "content db' = (fmdrop oid (objs db), next_ids db)"
    and "disabled (undo_db db') = disabled (undo_db db)"
proof -
  have wf: "content_wf ukeys (objs db, next_ids db)"
    using r by (auto simp: refines_def content_def dest: chain_wf)
  have idx: "has_index db oid" by (rule content_wf_obj[OF wf v]) (simp add: has_index_def)
  define db' where "db' = (on_remove oid v db)\<lparr>objs := fmdrop oid (objs db)\<rparr>"
  have m: "remove oid db = (None, db')"
    using idx v by (simp add: remove_def db'_def Let_def on_remove_def upd_stack_def)
  have c: "content db' = (fmdrop oid (objs db), next_ids db)"
    by (simp add: db'_def content_def on_remove_def upd_stack_def en)
  have "chain ukeys (on_back (state_remove oid v) (stack (undo_db db))) (content db') (opened (content db) ss)"
    unfolding c
    by (rule chain_on_back)
      (use r content_wf_remove[OF wf] evolves_remove state_rel_remove[OF _ v]
        in \<open>auto simp: refines_def content_def\<close>)
  then have "refines ukeys db' (opened (content db) ss)"
    using r by (auto simp: refines_def opened_def db'_def on_remove_def upd_stack_def en)
  moreover have "disabled (undo_db db') = disabled (undo_db db)"
    by (simp add: db'_def on_remove_def upd_stack_def)
  ultimately show thesis using m c that by blast
qed

subsection \<open>Restoring an undo state\<close>

lemma ebind_simps [simp]: "ebind (None, s) k = k s" "ebind (Some e, s) k = (Some e, s)"
  by (simp_all add: ebind_def)

text \<open>The loop rule: each element is visited once, and the invariant speaks of the visited set.\<close>

lemma efold_rule:
  assumes "distinct xs" and "I {} s"
    and "\<And>x D s. x \<in> set xs \<Longrightarrow> x \<notin> D \<Longrightarrow> I D s \<Longrightarrow> \<exists>s'. f x s = (None, s') \<and> I (insert x D) s'"
  shows "\<exists>s'. efold f xs s = (None, s') \<and> I (set xs) s'"
proof -
  have "\<exists>s'. efold f xs s = (None, s') \<and> I (D \<union> set xs) s'" if "I D s" "D \<inter> set xs = {}" for D
    using assms(1,3) that
  proof (induction xs arbitrary: s D)
    case (Cons x xs)
    then obtain s1 where s1: "f x s = (None, s1)" "I (insert x D) s1"
      by (metis disjoint_iff list.set_intros(1))
    have "\<exists>s'. efold f xs s1 = (None, s') \<and> I (insert x D \<union> set xs) s'"
      by (rule Cons.IH) (use Cons.prems s1 in auto)
    with s1 show ?case by simp
  qed simp
  from this[of "{}"] assms(2) show ?thesis by simp
qed

lemma next_ids_objs_commute: "db\<lparr>next_ids := ns, objs := m\<rparr> = db\<lparr>objs := m, next_ids := ns\<rparr>"
  by (cases db) simp

text \<open>An interface: the iteration order of an unordered container visits every element once.\<close>

locale hash_order =
  fixes enum :: "object_id fset \<Rightarrow> object_id list"
  assumes enum_set: "set (enum S) = fset S"
    and enum_distinct: "distinct (enum S)"
begin

lemma restore_values:
  fixes ukeys :: "'o \<Rightarrow> 'u list"
  assumes wf: "content_wf ukeys (content db)" and wfs: "content_wf ukeys s"
    and ev: "evolves ukeys s (content db)" and r: "state_rel st (content db) s"
    and dis: "disabled (undo_db db)"
  shows "\<exists>db'. efold (restore_value ukeys st) (enum (fmdom (old_values st))) db = (None, db') \<and>
     (\<exists>m. db' = db\<lparr>objs := m\<rparr> \<and>
       (\<forall>j. fmlookup m j = (if j \<in> fmdom' (old_values st) then fmlookup (fst s) j else fmlookup (objs db) j)))"
    (is "\<exists>db'. _ \<and> ?I (fmdom' (old_values st)) db'")
proof -
  let ?val = "\<lambda>D j. if j \<in> D then fmlookup (fst s) j else fmlookup (objs db) j"
  let ?J = "\<lambda>D db'. D \<subseteq> fmdom' (old_values st) \<and> (\<exists>m. db' = db\<lparr>objs := m\<rparr> \<and> (\<forall>j. fmlookup m j = ?val D j))"
  have "\<exists>db'. efold (restore_value ukeys st) (enum (fmdom (old_values st))) db = (None, db') \<and>
      ?J (set (enum (fmdom (old_values st)))) db'"
  proof (rule efold_rule[OF enum_distinct])
    show "?J {} db" by (auto intro: exI[of _ "objs db"])
  next
    fix oid D db1
    assume oid: "oid \<in> set (enum (fmdom (old_values st)))" "oid \<notin> D" and J: "?J D db1"
    obtain m where m: "db1 = db\<lparr>objs := m\<rparr>" "\<And>j. fmlookup m j = ?val D j" using J by blast
    obtain x where x: "fmlookup (old_values st) oid = Some x"
      using oid by (auto simp: enum_set fmdom'_alt_def[symmetric] fmlookup_dom'_iff)
    have "obj_rel st oid (fmlookup (objs db) oid) (fmlookup (fst s) oid)"
      using r by (simp add: state_rel_def content_def)
    with x obtain v where v: "fmlookup (objs db) oid = Some v" and sx: "fmlookup (fst s) oid = Some x"
      by (auto simp: obj_rel_def split: if_splits)
    have keys: "ukeys x = ukeys v"
      using ev sx v unfolding evolves_def by (auto simp: content_def)
    have ndb: "\<not> clash ukeys (objs db) oid x"
      using clash_upd_self_keys[OF v _ keys] content_wf_unique wf v by (metis content_def)
    have ns: "\<not> clash ukeys (fst s) oid x"
      using content_wf_unique[of ukeys "fst s" "snd s"] wfs sx by simp
    have nc: "\<not> clash ukeys m oid x"
    proof
      assume "clash ukeys m oid x"
      then obtain j w where j: "fmlookup m j = Some w" "j \<noteq> oid" "index_id oid = index_id j"
          "set (ukeys x) \<inter> set (ukeys w) \<noteq> {}" by (rule clashE) simp
      show False
      proof (cases "j \<in> D")
        case True
        with j m(2)[of j] show False using clash_sym[OF _ j(2) ns j(3)] by auto
      next
        case False
        with j m(2)[of j] show False using clash_sym[OF _ j(2) ndb j(3)] by auto
      qed
    qed
    have idx: "has_index db oid"
      using content_wf_obj[of ukeys "objs db" "next_ids db" oid v] wf v
      by (auto simp: content_def has_index_def)
    have "restore_value ukeys st oid db1 = (None, db\<lparr>objs := fmupd oid x m\<rparr>)"
      using idx m(2)[of oid] oid v nc x dis
      by (simp add: restore_value_def get_object_def modify_def m(1) has_index_def on_modify_def Let_def)
    moreover have "?J (insert oid D) (db\<lparr>objs := fmupd oid x m\<rparr>)"
      using J oid sx m(2) by (auto simp: enum_set fmdom'_alt_def[symmetric] intro!: exI[of _ "fmupd oid x m"])
    ultimately show "\<exists>db'. restore_value ukeys st oid db1 = (None, db') \<and> ?J (insert oid D) db'" by blast
  qed
  then show ?thesis by (auto simp: enum_set fmdom'_alt_def[symmetric])
qed

lemma remove_news:
  fixes ukeys :: "'o \<Rightarrow> 'u list"
  assumes m0: "\<forall>j\<in>fset (new_ids st). fmlookup m0 j \<noteq> None \<and> fmlookup (next_ids db) (index_id j) \<noteq> None"
    and dis: "disabled (undo_db db)"
  shows "\<exists>db'. efold remove_new (enum (new_ids st)) (db\<lparr>objs := m0\<rparr>) = (None, db') \<and>
     (\<exists>m. db' = db\<lparr>objs := m\<rparr> \<and>
       (\<forall>j. fmlookup m j = (if j \<in> fset (new_ids st) then None else fmlookup m0 j)))"
proof -
  let ?J = "\<lambda>D db'. \<exists>m. db' = db\<lparr>objs := m\<rparr> \<and> (\<forall>j. fmlookup m j = (if j \<in> D then None else fmlookup m0 j))"
  have "\<exists>db'. efold remove_new (enum (new_ids st)) (db\<lparr>objs := m0\<rparr>) = (None, db') \<and> ?J (set (enum (new_ids st))) db'"
  proof (rule efold_rule[OF enum_distinct])
    show "?J {} (db\<lparr>objs := m0\<rparr>)" by auto
  next
    fix oid D db1
    assume oid: "oid \<in> set (enum (new_ids st))" "oid \<notin> D" and "?J D db1"
    then obtain m where m: "db1 = db\<lparr>objs := m\<rparr>" "\<And>j. fmlookup m j = (if j \<in> D then None else fmlookup m0 j)"
      by blast
    obtain v where v: "fmlookup m oid = Some v" using oid m0 m(2)[of oid] by (auto simp: enum_set)
    have "has_index db oid" using oid m0 by (auto simp: enum_set has_index_def)
    then have "remove_new oid db1 = (None, db\<lparr>objs := fmdrop oid m\<rparr>)"
      using v dis by (simp add: remove_new_def get_object_def remove_def m(1) has_index_def on_remove_def Let_def)
    moreover have "?J (insert oid D) (db\<lparr>objs := fmdrop oid m\<rparr>)"
      using m(2) by (auto intro!: exI[of _ "fmdrop oid m"])
    ultimately show "\<exists>db'. remove_new oid db1 = (None, db') \<and> ?J (insert oid D) db'" by blast
  qed
  then show ?thesis by (simp add: enum_set)
qed

lemma restore_next_ids:
  assumes n0: "\<forall>k\<in>fmdom' (old_index_next_ids st). fmlookup (next_ids db) k \<noteq> None \<and> index_id k = k"
  shows "\<exists>db'. efold (restore_next_id st) (enum (fmdom (old_index_next_ids st))) db = (None, db') \<and>
     (\<exists>ns. db' = db\<lparr>next_ids := ns\<rparr> \<and>
       (\<forall>k. fmlookup ns k = (if k \<in> fmdom' (old_index_next_ids st) then fmlookup (old_index_next_ids st) k
                             else fmlookup (next_ids db) k)))"
proof -
  let ?J = "\<lambda>D db'. \<exists>ns. db' = db\<lparr>next_ids := ns\<rparr> \<and>
    (\<forall>k. fmlookup ns k = (if k \<in> D then fmlookup (old_index_next_ids st) k else fmlookup (next_ids db) k))"
  have "\<exists>db'. efold (restore_next_id st) (enum (fmdom (old_index_next_ids st))) db = (None, db') \<and>
      ?J (set (enum (fmdom (old_index_next_ids st)))) db'"
  proof (rule efold_rule[OF enum_distinct])
    show "?J {} db" by (auto intro: exI[of _ "next_ids db"])
  next
    fix k D db1
    assume k: "k \<in> set (enum (fmdom (old_index_next_ids st)))" "k \<notin> D" and "?J D db1"
    then obtain ns where ns: "db1 = db\<lparr>next_ids := ns\<rparr>"
      "\<And>j. fmlookup ns j = (if j \<in> D then fmlookup (old_index_next_ids st) j else fmlookup (next_ids db) j)"
      by blast
    obtain n where n: "fmlookup (old_index_next_ids st) k = Some n"
      using k by (auto simp: enum_set fmdom'_alt_def[symmetric] fmlookup_dom'_iff)
    then have kk: "index_id k = k" "fmlookup (next_ids db) k \<noteq> None" using n0 by (auto simp: fmdom'_iff)
    then have "restore_next_id st k db1 = (None, db\<lparr>next_ids := fmupd k n ns\<rparr>)"
      using n ns(2)[of k] k by (simp add: restore_next_id_def set_next_id_def has_index_def ns(1))
    moreover have "?J (insert k D) (db\<lparr>next_ids := fmupd k n ns\<rparr>)"
      using ns(2) n by (auto intro!: exI[of _ "fmupd k n ns"])
    ultimately show "\<exists>db'. restore_next_id st k db1 = (None, db') \<and> ?J (insert k D) db'" by blast
  qed
  then show ?thesis by (simp add: enum_set fmdom'_alt_def[symmetric])
qed

lemma reinsert_removed:
  fixes ukeys :: "'o \<Rightarrow> 'u list"
  assumes wfs: "content_wf ukeys s"
    and m0: "\<And>j. fmlookup m0 j = (if j \<in> fmdom' (removed st) then None else fmlookup (fst s) j)"
    and rem: "\<And>j x. fmlookup (removed st) j = Some x \<Longrightarrow> fmlookup (fst s) j = Some x"
    and idx: "\<And>k. fmlookup (snd s) k \<noteq> None \<Longrightarrow> fmlookup (next_ids db) k \<noteq> None"
  shows "\<exists>db'. efold (reinsert ukeys st) (enum (fmdom (removed st))) (db\<lparr>objs := m0\<rparr>) = (None, db') \<and>
     db' = db\<lparr>objs := fst s\<rparr>"
proof -
  let ?val = "\<lambda>D j. if j \<in> fmdom' (removed st) \<and> j \<notin> D then None else fmlookup (fst s) j"
  let ?J = "\<lambda>D db'. \<exists>m. db' = db\<lparr>objs := m\<rparr> \<and> (\<forall>j. fmlookup m j = ?val D j)"
  have "\<exists>db'. efold (reinsert ukeys st) (enum (fmdom (removed st))) (db\<lparr>objs := m0\<rparr>) = (None, db') \<and>
     ?J (set (enum (fmdom (removed st)))) db'"
  proof (rule efold_rule[OF enum_distinct])
    show "?J {} (db\<lparr>objs := m0\<rparr>)" using m0 by auto
  next
    fix oid D db1
    assume oid: "oid \<in> set (enum (fmdom (removed st)))" "oid \<notin> D" and "?J D db1"
    then obtain m where m: "db1 = db\<lparr>objs := m\<rparr>" "\<And>j. fmlookup m j = ?val D j" by blast
    have dom: "oid \<in> fmdom' (removed st)" using oid by (simp add: enum_set fmdom'_alt_def[symmetric])
    then obtain x where x: "fmlookup (removed st) oid = Some x" by (auto simp: fmlookup_dom'_iff)
    have sx: "fmlookup (fst s) oid = Some x" by (rule rem[OF x])
    have ns: "\<not> clash ukeys (fst s) oid x"
      using content_wf_unique[of ukeys "fst s" "snd s"] wfs sx by simp
    have nc: "\<not> clash ukeys m oid x"
    proof
      assume "clash ukeys m oid x"
      then obtain j w where j: "fmlookup m j = Some w" "j \<noteq> oid" "index_id oid = index_id j"
          "set (ukeys x) \<inter> set (ukeys w) \<noteq> {}" by (rule clashE) simp
      then show False using m(2)[of j] clash_sym[OF _ j(2) ns j(3)] by (auto split: if_splits)
    qed
    have "has_index db oid"
      using content_wf_obj[of ukeys "fst s" "snd s" oid x] wfs sx idx by (auto simp: has_index_def)
    then have "reinsert ukeys st oid db1 = (None, db\<lparr>objs := fmupd oid x m\<rparr>)"
      using m(2)[of oid] dom oid nc x by (simp add: reinsert_def insert_obj_def m(1) has_index_def)
    moreover have "?J (insert oid D) (db\<lparr>objs := fmupd oid x m\<rparr>)"
      using m(2) sx by (auto intro!: exI[of _ "fmupd oid x m"])
    ultimately show "\<exists>db'. reinsert ukeys st oid db1 = (None, db') \<and> ?J (insert oid D) db'" by blast
  qed
  then obtain db' m where "efold (reinsert ukeys st) (enum (fmdom (removed st))) (db\<lparr>objs := m0\<rparr>) = (None, db')"
    "db' = db\<lparr>objs := m\<rparr>" "\<forall>j. fmlookup m j = fmlookup (fst s) j"
    by (auto simp: enum_set fmdom'_alt_def[symmetric])
  moreover from this(3) have "m = fst s" by (intro fmap_ext) simp
  ultimately show ?thesis by simp
qed

text \<open>The four loops together bring back the snapshot, in every iteration order.\<close>

lemma restore_state_exact:
  fixes ukeys :: "'o \<Rightarrow> 'u list"
  assumes wf: "content_wf ukeys (content db)" and wfs: "content_wf ukeys s"
    and ev: "evolves ukeys s (content db)" and r: "state_rel st (content db) s"
    and dis: "disabled (undo_db db)"
  shows "restore_state ukeys enum st db = (None, db\<lparr>objs := fst s, next_ids := snd s\<rparr>)"
proof -
  have o: "obj_rel st j (fmlookup (objs db) j) (fmlookup (fst s) j)" for j
    using r by (simp add: state_rel_def content_def)
  have n: "next_rel st k (fmlookup (next_ids db) k) (fmlookup (snd s) k)" for k
    using r by (simp add: state_rel_def content_def)
  have wf': "content_wf ukeys (objs db, next_ids db)" using wf by (simp add: content_def)
  have wfs': "content_wf ukeys (fst s, snd s)" using wfs by simp
  obtain m1 where 1: "efold (restore_value ukeys st) (enum (fmdom (old_values st))) db = (None, db\<lparr>objs := m1\<rparr>)"
    and m1: "\<And>j. fmlookup m1 j = (if j \<in> fmdom' (old_values st) then fmlookup (fst s) j else fmlookup (objs db) j)"
    using restore_values[OF wf wfs ev r dis] by auto
  have new: "fmlookup m1 j \<noteq> None \<and> fmlookup (next_ids db) (index_id j) \<noteq> None" if a: "j \<in> fset (new_ids st)" for j
  proof -
    obtain v where "fmlookup (objs db) j = Some v" "fmlookup (old_values st) j = None"
      using o[of j] a by (auto simp: obj_rel_def)
    then show ?thesis using m1[of j] by (auto simp: fmdom'_iff elim: content_wf_obj[OF wf'])
  qed
  obtain m2 where 2: "efold remove_new (enum (new_ids st)) (db\<lparr>objs := m1\<rparr>) = (None, db\<lparr>objs := m2\<rparr>)"
    and m2: "\<And>j. fmlookup m2 j = (if j \<in> fset (new_ids st) then None else fmlookup m1 j)"
    using remove_news[of st m1 db] new dis by auto
  have idx: "fmlookup (next_ids db) k \<noteq> None \<and> index_id k = k" if "k \<in> fmdom' (old_index_next_ids st)" for k
    using n[of k] that content_wf_index[OF wfs', of k]
    by (auto simp: next_rel_def fmlookup_dom'_iff)
  obtain ns where 3: "efold (restore_next_id st) (enum (fmdom (old_index_next_ids st))) (db\<lparr>objs := m2\<rparr>)
      = (None, db\<lparr>objs := m2, next_ids := ns\<rparr>)"
    and ns: "\<And>k. fmlookup ns k = (if k \<in> fmdom' (old_index_next_ids st) then fmlookup (old_index_next_ids st) k
        else fmlookup (next_ids db) k)"
    using restore_next_ids[of st "db\<lparr>objs := m2\<rparr>"] idx by auto
  have "fmlookup ns k = fmlookup (snd s) k" for k
    using n[of k] ns[of k] by (auto simp: next_rel_def fmdom'_iff split: option.splits)
  then have ns': "ns = snd s" by (intro fmap_ext)
  have m2': "fmlookup m2 j = (if j \<in> fmdom' (removed st) then None else fmlookup (fst s) j)" for j
    using o[of j] m1[of j] m2[of j] by (auto simp: obj_rel_def fmdom'_iff split: if_splits option.splits)
  have rem: "fmlookup (fst s) j = Some x" if "fmlookup (removed st) j = Some x" for j x
    using o[of j] that by (auto simp: obj_rel_def split: if_splits option.splits)
  have "efold (reinsert ukeys st) (enum (fmdom (removed st))) (db\<lparr>next_ids := ns, objs := m2\<rparr>)
      = (None, db\<lparr>next_ids := ns, objs := fst s\<rparr>)"
    using reinsert_removed[OF wfs m2' rem, of "db\<lparr>next_ids := ns\<rparr>"] ns' by simp
  then have 4: "efold (reinsert ukeys st) (enum (fmdom (removed st))) (db\<lparr>objs := m2, next_ids := ns\<rparr>)
      = (None, db\<lparr>objs := fst s, next_ids := ns\<rparr>)"
    by (simp only: next_ids_objs_commute)
  show ?thesis by (simp add: restore_state_def 1 2 3[unfolded ns'] 4[unfolded ns'])
qed

lemma refines_undo:
  fixes ukeys :: "'o \<Rightarrow> 'u list"
  assumes r: "refines ukeys db (s # ss)" and en: "\<not> disabled (undo_db db)"
    and act: "active_sessions (undo_db db) > 0"
  obtains db' where "undo ukeys enum db = (None, db')"
    and "refines ukeys db' (opened s ss)" and "content db' = s"
    and "\<not> disabled (undo_db db')" and "active_sessions (undo_db db') = active_sessions (undo_db db) - 1"
    and "max_size (undo_db db') = max_size (undo_db db)"
proof -
  obtain st sts where st: "stack (undo_db db) = st # sts"
    using r by (cases "stack (undo_db db)") (auto simp: refines_def)
  have ch: "content_wf ukeys (content db)" "evolves ukeys s (content db)" "state_rel st (content db) s"
    "chain ukeys sts s ss" and a: "active_sessions (undo_db db) \<le> Suc (length ss)"
    using r st by (auto simp: refines_def)
  let ?d = "set_disabled True db"
  have c: "content ?d = content db" by (simp add: content_def set_disabled_def)
  have rs: "restore_state ukeys enum st ?d = (None, ?d\<lparr>objs := fst s, next_ids := snd s\<rparr>)"
    by (rule restore_state_exact) (use ch c chain_wf[OF ch(4)] in \<open>auto simp: set_disabled_def\<close>)
  define db' where "db' = db\<lparr>objs := fst s, next_ids := snd s,
      undo_db := (undo_db db)\<lparr>stack := (if sts = [] then [empty_state] else sts),
        active_sessions := active_sessions (undo_db db) - 1, disabled := False\<rparr>\<rparr>"
  have u: "undo ukeys enum db = (None, db')"
    using en act st rs
    by (cases db) (simp add: undo_def Let_def set_disabled_def upd_stack_def db'_def)
  have len: "length sts = length ss" by (rule chain_length[OF ch(4)])
  have "chain ukeys (if sts = [] then [empty_state] else sts) s (opened s ss)"
    using ch(4) len chain_wf[OF ch(4)] by (cases "sts = []") (auto simp: opened_def)
  then have "refines ukeys db' (opened s ss)"
    using a len by (auto simp: refines_def db'_def content_def opened_def)
  with u show thesis
    by (rule that) (simp_all add: db'_def content_def)
qed

lemma refines_pop_commit:
  fixes ukeys :: "'o \<Rightarrow> 'u list"
  assumes r: "refines ukeys db (s # ss)" and act: "active_sessions (undo_db db) = 0"
  obtains db' where "pop_commit ukeys enum db = (None, db')"
    and "refines ukeys db' ss" and "content db' = s"
    and "\<not> disabled (undo_db db')" and "active_sessions (undo_db db') = 0"
    and "max_size (undo_db db') = max_size (undo_db db)"
proof -
  obtain st sts where st: "stack (undo_db db) = st # sts"
    using r by (cases "stack (undo_db db)") (auto simp: refines_def)
  have ch: "content_wf ukeys (content db)" "evolves ukeys s (content db)" "state_rel st (content db) s"
    "chain ukeys sts s ss"
    using r st by (auto simp: refines_def)
  let ?d = "set_disabled True db"
  have c: "content ?d = content db" by (simp add: content_def set_disabled_def)
  have rs: "restore_state ukeys enum st ?d = (None, ?d\<lparr>objs := fst s, next_ids := snd s\<rparr>)"
    by (rule restore_state_exact) (use ch c chain_wf[OF ch(4)] in \<open>auto simp: set_disabled_def\<close>)
  define db' where "db' = db\<lparr>objs := fst s, next_ids := snd s,
      undo_db := (undo_db db)\<lparr>stack := sts, disabled := False\<rparr>\<rparr>"
  have u: "pop_commit ukeys enum db = (None, db')"
    using act st rs
    by (cases db) (simp add: pop_commit_def Let_def set_disabled_def upd_stack_def db'_def)
  have "refines ukeys db' ss"
    using ch(4) act by (auto simp: refines_def db'_def content_def)
  with u show thesis
    by (rule that) (simp_all add: db'_def content_def act)
qed

end

subsection \<open>Starting, committing and merging sessions\<close>

lemma refines_start:
  assumes r: "refines ukeys db ss" and en: "\<not> disabled (undo_db db) \<or> force"
    and act: "active_sessions (undo_db db) \<le> max_size (undo_db db)"
    and s: "start_undo_session force db = (se, db')"
  shows "refines ukeys db' (content db # take (max_size (undo_db db)) ss)"
    and "content db' = content db" and "\<not> disabled (undo_db db')"
    and "active_sessions (undo_db db') = active_sessions (undo_db db) + 1"
    and "apply_undo se" and "disable_on_exit se = disabled (undo_db db)"
    and "max_size (undo_db db') = max_size (undo_db db)"
proof -
  have ch: "chain ukeys (take (max_size (undo_db db)) (stack (undo_db db))) (content db)
      (take (max_size (undo_db db)) ss)"
    using r by (auto simp: refines_def intro: chain_take)
  show c: "content db' = content db"
    using s en by (auto simp: start_undo_session_def Let_def content_def split: if_splits)
  show "refines ukeys db' (content db # take (max_size (undo_db db)) ss)"
    using s en ch r act chain_wf[OF ch] unfolding refines_def c
    by (auto simp: start_undo_session_def Let_def split: if_splits)
  show "\<not> disabled (undo_db db')" "active_sessions (undo_db db') = active_sessions (undo_db db) + 1"
    "apply_undo se" "disable_on_exit se = disabled (undo_db db)"
    "max_size (undo_db db') = max_size (undo_db db)"
    using s en by (auto simp: start_undo_session_def Let_def split: if_splits)
qed

lemma refines_commit:
  assumes r: "refines ukeys db ss" and act: "active_sessions (undo_db db) > 0"
  obtains db' where "commit db = (None, db')" and "refines ukeys db' ss" and "content db' = content db"
    and "disabled (undo_db db') = disabled (undo_db db)"
    and "active_sessions (undo_db db') = active_sessions (undo_db db) - 1"
    and "max_size (undo_db db') = max_size (undo_db db)"
proof -
  have "commit db = (None, db\<lparr>undo_db := (undo_db db)\<lparr>active_sessions := active_sessions (undo_db db) - 1\<rparr>\<rparr>)"
    using act by (simp add: commit_def)
  then show thesis by (rule that) (use r in \<open>auto simp: refines_def content_def\<close>)
qed

text \<open>The part of an undo state that concerns one object: new, old value, removed value.\<close>

type_synonym 'o entry = "bool \<times> 'o option \<times> 'o option"

definition entry :: "'o undo_state \<Rightarrow> object_id \<Rightarrow> 'o entry" where
  "entry st oid = (oid |\<in>| new_ids st, fmlookup (old_values st) oid, fmlookup (removed st) oid)"

fun entry_rel :: "'o entry \<Rightarrow> 'o option \<Rightarrow> 'o option \<Rightarrow> bool" where
  "entry_rel (True, None, None) cur snap = (cur \<noteq> None \<and> snap = None)"
| "entry_rel (False, Some x, None) cur snap = (cur \<noteq> None \<and> snap = Some x)"
| "entry_rel (False, None, Some x) cur snap = (cur = None \<and> snap = Some x)"
| "entry_rel (False, None, None) cur snap = (cur = snap)"
| "entry_rel _ cur snap = False"

lemma obj_rel_entry: "obj_rel st oid c s = entry_rel (entry st oid) c s"
  by (auto simp: obj_rel_def entry_def split: option.splits)

text \<open>The four by four table in the comment of \<open>merge\<close>: the composition of two entries.\<close>

fun compose_entry :: "'o entry \<Rightarrow> 'o entry \<Rightarrow> 'o entry" where
  "compose_entry a (False, None, None) = a"
| "compose_entry (False, None, None) b = b"
| "compose_entry (True, None, None) (False, Some y, None) = (True, None, None)"
| "compose_entry (True, None, None) (False, None, Some y) = (False, None, None)"
| "compose_entry (False, Some x, None) (False, Some y, None) = (False, Some x, None)"
| "compose_entry (False, Some x, None) (False, None, Some y) = (False, None, Some x)"
| "compose_entry a b = a"

lemma compose_entry_rel:
  assumes "entry_rel a s0 s1" "entry_rel b c s0" "s1 \<noteq> None \<Longrightarrow> s0 = None \<Longrightarrow> c = None"
  shows "entry_rel (compose_entry a b) c s1"
  using assms
  by (cases "(a, b)" rule: compose_entry.cases; cases "(a, s0, s1)" rule: entry_rel.cases;
      cases "(b, c, s0)" rule: entry_rel.cases) auto

context hash_order
begin

lemma fold_enum_entry:
  assumes "\<And>x y p. x \<noteq> y \<Longrightarrow> E (f x p) y = E p y" "\<And>x p. E (f x p) x = g x (E p x)"
  shows "E (fold f (enum S) p) y = (if y |\<in>| S then g y (E p y) else E p y)"
  using fold_pointwise[of E f g, OF assms enum_distinct] by (simp add: enum_set)

lemma merge_old_entry:
  "entry (fold (merge_old st) (enum (fmdom (old_values st))) p) y =
    (if y |\<in>| fmdom (old_values st) \<and> \<not> fst (entry p y) \<and> fst (snd (entry p y)) = None
     then (False, Some (the (fmlookup (old_values st) y)), snd (snd (entry p y))) else entry p y)"
  by (subst fold_enum_entry[of entry "merge_old st"
        "\<lambda>y e. if \<not> fst e \<and> fst (snd e) = None then (False, Some (the (fmlookup (old_values st) y)), snd (snd e)) else e"])
    (auto simp: entry_def merge_old_def)

lemma merge_new_entry:
  "entry (fold merge_new (enum S) p) y = (fst (entry p y) \<or> y |\<in>| S, snd (entry p y))"
  by (subst fold_enum_entry[of entry merge_new "\<lambda>y e. (True, snd e)"]) (auto simp: entry_def merge_new_def)

lemma merge_next_entry: "entry (fold (merge_next_id st) (enum S) p) y = entry p y"
  by (subst fold_enum_entry[of entry "merge_next_id st" "\<lambda>y e. e"]) (auto simp: entry_def merge_next_id_def)

lemma merge_removed_entry:
  "entry (fold (merge_removed st) (enum (fmdom (removed st))) p) y =
    (if y |\<in>| fmdom (removed st)
     then (if fst (entry p y) then (False, snd (entry p y))
           else case fst (snd (entry p y)) of
              Some x \<Rightarrow> (False, None, Some x)
            | None \<Rightarrow> (False, None, Some (the (fmlookup (removed st) y))))
     else entry p y)"
  by (subst fold_enum_entry[of entry "merge_removed st"
        "\<lambda>y e. if fst e then (False, snd e)
           else case fst (snd e) of Some x \<Rightarrow> (False, None, Some x)
             | None \<Rightarrow> (False, None, Some (the (fmlookup (removed st) y)))"])
    (auto simp: entry_def merge_removed_def split: option.splits)

text \<open>On states that are related to contents, the code computes the table.\<close>

lemma merge_states_entry:
  assumes "entry_rel (entry st y) c s0" "entry_rel (entry prev y) s0 s1"
    and "s1 \<noteq> None \<Longrightarrow> s0 = None \<Longrightarrow> c = None"
  shows "entry (merge_states enum st prev) y = compose_entry (entry prev y) (entry st y)"
proof -
  have d: "y |\<in>| fmdom m \<longleftrightarrow> fmlookup m y \<noteq> None" for m :: "(object_id, 'b) fmap"
    by (auto simp: fmlookup_dom_iff)
  obtain n ov rm where e: "entry st y = (n, ov, rm)" by (cases "entry st y")
  then have s: "y |\<in>| new_ids st = n" "fmlookup (old_values st) y = ov" "fmlookup (removed st) y = rm"
    by (simp_all add: entry_def)
  obtain pn po pr where p: "entry prev y = (pn, po, pr)" by (cases "entry prev y")
  show ?thesis
    using assms unfolding merge_states_def Let_def e p
    by (cases "((n, ov, rm), c, s0)" rule: entry_rel.cases; cases "((pn, po, pr), s0, s1)" rule: entry_rel.cases)
      (auto simp: merge_removed_entry merge_next_entry merge_new_entry merge_old_entry d s p)
qed

lemma merge_states_obj:
  assumes "obj_rel st y c s0" "obj_rel prev y s0 s1" "s1 \<noteq> None \<Longrightarrow> s0 = None \<Longrightarrow> c = None"
  shows "obj_rel (merge_states enum st prev) y c s1"
  using assms merge_states_entry[of st y c s0 prev s1] compose_entry_rel[of "entry prev y" s0 s1]
  by (simp add: obj_rel_entry)

lemma merge_states_next:
  assumes "next_rel st k c s0" "next_rel prev k s0 s1"
  shows "next_rel (merge_states enum st prev) k c s1"
proof -
  let ?N = "\<lambda>p. fmlookup (old_index_next_ids p)"
  have o: "?N (fold (merge_old st) xs p) = ?N p" for xs p
    by (induction xs arbitrary: p) (auto simp: merge_old_def)
  have w: "?N (fold merge_new xs p) = ?N p" for xs and p :: "'o undo_state"
    by (induction xs arbitrary: p) (auto simp: merge_new_def)
  have r: "?N (fold (merge_removed st) xs p) = ?N p" for xs p
    by (induction xs arbitrary: p) (auto simp: merge_removed_def split: option.splits)
  have n: "?N (fold (merge_next_id st) (enum S) p) k =
      (if k |\<in>| S \<and> ?N p k = None then Some (the (?N st k)) else ?N p k)" for S p
    by (subst fold_enum_entry[of ?N "merge_next_id st" "\<lambda>y e. if e = None then Some (the (?N st y)) else e"])
      (auto simp: merge_next_id_def)
  show ?thesis
    using assms
    by (auto simp: next_rel_def merge_states_def Let_def o w r n fmlookup_dom_iff split: option.splits)
qed

lemma refines_merge:
  fixes ukeys :: "'o \<Rightarrow> 'u list"
  assumes r: "refines ukeys db (s0 # s1 # ss)" and act: "active_sessions (undo_db db) > 0"
  obtains db' where "merge enum db = (None, db')" and "refines ukeys db' (s1 # ss)"
    and "content db' = content db" and "disabled (undo_db db') = disabled (undo_db db)"
    and "active_sessions (undo_db db') = active_sessions (undo_db db) - 1"
    and "max_size (undo_db db') = max_size (undo_db db)"
proof -
  obtain st prev rest where st: "stack (undo_db db) = st # prev # rest"
    using r by (auto simp: refines_def dest!: chain_length simp: length_Suc_conv)
  have ch: "content_wf ukeys (content db)" "evolves ukeys s0 (content db)" "state_rel st (content db) s0"
    "evolves ukeys s1 s0" "state_rel prev s0 s1" "chain ukeys rest s1 ss"
    and a: "active_sessions (undo_db db) \<le> Suc (Suc (length ss))"
    using r st by (auto simp: refines_def)
  have wf1: "content_wf ukeys s1" by (rule chain_wf[OF ch(6)])
  have "obj_rel (merge_states enum st prev) j (fmlookup (fst (content db)) j) (fmlookup (fst s1) j)" for j
    by (rule merge_states_obj[of st j _ "fmlookup (fst s0) j"])
      (use ch(3,5) evolves_no_resurrection[OF wf1 ch(4,2), of j] in \<open>auto simp: state_rel_def\<close>)
  moreover have "next_rel (merge_states enum st prev) k (fmlookup (snd (content db)) k) (fmlookup (snd s1) k)" for k
    by (rule merge_states_next) (use ch(3,5) in \<open>auto simp: state_rel_def\<close>)
  ultimately have rel: "state_rel (merge_states enum st prev) (content db) s1" by (simp add: state_rel_def)
  define db' where "db' = db\<lparr>undo_db := (undo_db db)\<lparr>stack := merge_states enum st prev # rest,
                     active_sessions := active_sessions (undo_db db) - 1\<rparr>\<rparr>"
  have "merge enum db = (None, db')" using act st by (simp add: merge_def db'_def)
  moreover have "refines ukeys db' (s1 # ss)"
    using ch rel a evolves_trans[OF wf1 ch(4,2)] by (auto simp: refines_def db'_def content_def)
  ultimately show thesis by (rule that) (simp_all add: db'_def content_def)
qed

end

interpretation sorted_order: hash_order "sorted_list_of_fset"
  by unfold_locales (simp_all add: sorted_list_of_fset.rep_eq)

end
