(* ===== verification/Undo_Sessions.thy ===== *)
theory Undo_Sessions
  imports Undo_Refinement
begin

text \<open>Commands of the undo database, the snapshot machine they implement, and nested sessions.

  \<open>db_cmd\<close> lists the operations a client of \<open>object_database\<close> can issue, \<open>run_cmd\<close> runs one on the
  concrete database and \<open>spec_cmd\<close> on the abstract machine (current content, snapshots). \<open>cmd_ok\<close>
  states the client's obligations: an object that is modified or removed exists, a modification keeps
  the unique keys, a created object brings no key that is taken, the history is deep enough for the
  active sessions. \<open>session_run\<close> is the activity between the start and the end of a session: changes
  and complete inner sessions, undone or merged, to any depth.\<close>

datatype 'o db_cmd =
    Start bool
  | Create object_id 'o
  | Modify object_id "'o \<Rightarrow> 'o"
  | Remove object_id
  | Undo
  | Merge
  | Commit
  | PopCommit

fun run_cmd :: "('o \<Rightarrow> 'u list) \<Rightarrow> (object_id fset \<Rightarrow> object_id list) \<Rightarrow> 'o db_cmd \<Rightarrow> 'o object_database \<Rightarrow> 'o object_database exec" where
  "run_cmd ukeys enum (Start force) db = (None, snd (start_undo_session force db))"
| "run_cmd ukeys enum (Create idx v) db = create ukeys idx v db"
| "run_cmd ukeys enum (Modify oid f) db = modify ukeys oid f db"
| "run_cmd ukeys enum (Remove oid) db = remove oid db"
| "run_cmd ukeys enum Undo db = undo ukeys enum db"
| "run_cmd ukeys enum Merge db = merge enum db"
| "run_cmd ukeys enum Commit db = commit db"
| "run_cmd ukeys enum PopCommit db = pop_commit ukeys enum db"

fun spec_cmd :: "nat \<Rightarrow> 'o db_cmd \<Rightarrow> 'o content \<times> 'o content list \<Rightarrow> 'o content \<times> 'o content list" where
  "spec_cmd mx (Start force) (c, ss) = (c, c # take mx ss)"
| "spec_cmd mx (Create idx v) (c, ss) =
    (let oid = the (fmlookup (snd c) (index_id idx))
     in ((fmupd oid v (fst c), fmupd (index_id idx) (oid + 1) (snd c)), opened c ss))"
| "spec_cmd mx (Modify oid f) (c, ss) =
    ((fmupd oid (f (the (fmlookup (fst c) oid))) (fst c), snd c), opened c ss)"
| "spec_cmd mx (Remove oid) (c, ss) = ((fmdrop oid (fst c), snd c), opened c ss)"
| "spec_cmd mx Undo (c, ss) = (hd ss, opened (hd ss) (tl ss))"
| "spec_cmd mx Merge (c, ss) = (c, tl ss)"
| "spec_cmd mx Commit (c, ss) = (c, ss)"
| "spec_cmd mx PopCommit (c, ss) = (hd ss, tl ss)"

fun cmd_ok :: "('o \<Rightarrow> 'u list) \<Rightarrow> 'o db_cmd \<Rightarrow> 'o object_database \<Rightarrow> bool" where
  "cmd_ok ukeys (Start force) db = (active_sessions (undo_db db) \<le> max_size (undo_db db))"
| "cmd_ok ukeys (Create idx v) db =
    (case fmlookup (next_ids db) (index_id idx) of None \<Rightarrow> False
     | Some oid \<Rightarrow> id_instance oid \<noteq> MAX_INSTANCE_ID \<and> \<not> clash ukeys (objs db) oid v)"
| "cmd_ok ukeys (Modify oid f) db =
    (case fmlookup (objs db) oid of None \<Rightarrow> False | Some v \<Rightarrow> ukeys (f v) = ukeys v)"
| "cmd_ok ukeys (Remove oid) db = (fmlookup (objs db) oid \<noteq> None)"
| "cmd_ok ukeys Undo db = (active_sessions (undo_db db) > 0)"
| "cmd_ok ukeys Merge db = (active_sessions (undo_db db) > 0 \<and> length (stack (undo_db db)) \<ge> 2)"
| "cmd_ok ukeys Commit db = (active_sessions (undo_db db) > 0)"
| "cmd_ok ukeys PopCommit db = (active_sessions (undo_db db) = 0 \<and> stack (undo_db db) \<noteq> [])"

fun is_change :: "'o db_cmd \<Rightarrow> bool" where
  "is_change (Create idx v) = True"
| "is_change (Modify oid f) = True"
| "is_change (Remove oid) = True"
| "is_change _ = False"

inductive session_run :: "('o \<Rightarrow> 'u list) \<Rightarrow> (object_id fset \<Rightarrow> object_id list) \<Rightarrow> 'o object_database \<Rightarrow> 'o object_database \<Rightarrow> bool"
  for ukeys :: "'o \<Rightarrow> 'u list" and enum :: "object_id fset \<Rightarrow> object_id list" where
  none: "session_run ukeys enum db db"
| change: "session_run ukeys enum db db1 \<Longrightarrow> is_change c \<Longrightarrow> cmd_ok ukeys c db1 \<Longrightarrow>
    run_cmd ukeys enum c db1 = (None, db2) \<Longrightarrow> session_run ukeys enum db db2"
| undone: "session_run ukeys enum db db1 \<Longrightarrow> cmd_ok ukeys (Start False) db1 \<Longrightarrow>
    start_undo_session False db1 = (se, db2) \<Longrightarrow> session_run ukeys enum db2 db3 \<Longrightarrow>
    session_undo ukeys enum (se, db3) = (None, se', db4) \<Longrightarrow> session_run ukeys enum db db4"
| merged: "session_run ukeys enum db db1 \<Longrightarrow> cmd_ok ukeys (Start False) db1 \<Longrightarrow>
    start_undo_session False db1 = (se, db2) \<Longrightarrow> session_run ukeys enum db2 db3 \<Longrightarrow>
    length (stack (undo_db db3)) \<ge> 2 \<Longrightarrow>
    session_merge enum (se, db3) = (None, se', db4) \<Longrightarrow> session_run ukeys enum db db4"

subsection \<open>Each command implements its specification\<close>

lemma change_frame:
  assumes "is_change c"
  shows "\<exists>st. undo_db (snd (run_cmd ukeys enum c db)) = (undo_db db)\<lparr>stack := st\<rparr>"
proof -
  have same: "\<exists>st. undo_db db = (undo_db db)\<lparr>stack := st\<rparr>" by (rule exI[of _ "stack (undo_db db)"]) simp
  show ?thesis
    using assms same
    by (cases c) (auto simp: create_def modify_def remove_def on_create_def on_modify_def on_remove_def
        upd_stack_def Let_def split: option.splits)
qed

lemma refines_change:
  assumes r: "refines ukeys db ss" and en: "\<not> disabled (undo_db db)" and c: "is_change c"
    and ok: "cmd_ok ukeys c db"
  obtains db' where "run_cmd ukeys enum c db = (None, db')" "refines ukeys db' (opened (content db) ss)"
    "\<And>mx. spec_cmd mx c (content db, ss) = (content db', opened (content db) ss)"
    "\<not> disabled (undo_db db')" "active_sessions (undo_db db') = active_sessions (undo_db db)"
    "max_size (undo_db db') = max_size (undo_db db)"
proof -
  obtain st where u: "undo_db (snd (run_cmd ukeys enum c db)) = (undo_db db)\<lparr>stack := st\<rparr>"
    using change_frame[OF c] by blast
  have wf: "content_wf ukeys (objs db, next_ids db)"
    using r by (auto simp: refines_def content_def dest: chain_wf)
  have "\<exists>db'. run_cmd ukeys enum c db = (None, db') \<and> refines ukeys db' (opened (content db) ss)
      \<and> (\<forall>mx. spec_cmd mx c (content db, ss) = (content db', opened (content db) ss))"
  proof (cases c)
    case (Create idx v)
    then obtain oid where oid: "fmlookup (next_ids db) (index_id idx) = Some oid"
        "id_instance oid \<noteq> MAX_INSTANCE_ID" "\<not> clash ukeys (objs db) oid v"
      using ok by (auto split: option.splits)
    have "fmlookup (objs db) oid = None"
    proof (rule ccontr)
      assume "fmlookup (objs db) oid \<noteq> None"
      then obtain w where w: "fmlookup (objs db) oid = Some w" by blast
      show False
        by (rule content_wf_obj[OF wf w]) (use content_wf_index[OF wf oid(1)] oid(1) in simp)
    qed
    then obtain db' where "create ukeys idx v db = (None, db')" using oid by (simp add: create_def)
    with refines_create[OF r en oid(1,2) this] show ?thesis
      using Create oid by (auto simp: content_def)
  next
    case (Modify oid f)
    then obtain v where v: "fmlookup (objs db) oid = Some v" "ukeys (f v) = ukeys v"
      using ok by (auto split: option.splits)
    show ?thesis by (rule refines_modify[where f = f, OF r en v]) (use Modify v in \<open>auto simp: content_def\<close>)
  next
    case (Remove oid)
    then obtain v where v: "fmlookup (objs db) oid = Some v" using ok by auto
    show ?thesis by (rule refines_remove[OF r en v]) (use Remove v in \<open>auto simp: content_def\<close>)
  qed (use c in auto)
  then obtain db' where d: "run_cmd ukeys enum c db = (None, db')"
    "refines ukeys db' (opened (content db) ss)"
    "\<forall>mx. spec_cmd mx c (content db, ss) = (content db', opened (content db) ss)" by blast
  show thesis by (rule that[OF d(1,2)]) (use d u en in auto)
qed

lemma refines_cmd:
  assumes ho: "hash_order enum" and r: "refines ukeys db ss" and en: "\<not> disabled (undo_db db)"
    and ok: "cmd_ok ukeys c db"
  shows "\<exists>db' ss'. run_cmd ukeys enum c db = (None, db') \<and>
    spec_cmd (max_size (undo_db db)) c (content db, ss) = (content db', ss') \<and>
    refines ukeys db' ss' \<and> \<not> disabled (undo_db db') \<and> max_size (undo_db db') = max_size (undo_db db)"
proof -
  have len: "length (stack (undo_db db)) = length ss" and act: "active_sessions (undo_db db) \<le> length ss"
    using r by (auto simp: refines_def dest: chain_length)
  show ?thesis
  proof (cases "is_change c")
    case True
    show ?thesis by (rule refines_change[OF r en True ok, of enum]) blast
  next
    case nc: False
    show ?thesis
    proof (cases c)
      case (Start force)
      obtain se db' where "start_undo_session force db = (se, db')" by fastforce
      with refines_start[OF r disjI1[OF en] _ this] Start ok show ?thesis by auto
    next
      case Undo
      then obtain s ss' where "ss = s # ss'" using ok act by (cases ss) auto
      then show ?thesis
        using hash_order.refines_undo[OF ho, of ukeys db s ss'] r en ok Undo by (metis cmd_ok.simps(5)
            list.sel(1,3) run_cmd.simps(5) spec_cmd.simps(5))
    next
      case Merge
      then obtain s0 s1 ss' where ss: "ss = s0 # s1 # ss'"
        using ok len by (auto simp: numeral_2_eq_2 Suc_le_length_iff)
      then show ?thesis
        using hash_order.refines_merge[OF ho, of ukeys db s0 s1 ss'] r en ok Merge
        by (metis cmd_ok.simps(6) list.sel(3) run_cmd.simps(6) spec_cmd.simps(6))
    next
      case Commit
      then show ?thesis using refines_commit[OF r] en ok
        by (metis cmd_ok.simps(7) run_cmd.simps(7) spec_cmd.simps(7))
    next
      case PopCommit
      then obtain s ss' where "ss = s # ss'" using ok len by (cases ss) auto
      then show ?thesis
        using hash_order.refines_pop_commit[OF ho, of ukeys db s ss'] r en ok PopCommit
        by (metis cmd_ok.simps(8) list.sel(1,3) run_cmd.simps(8) spec_cmd.simps(8))
    qed (use nc in auto)
  qed
qed

subsection \<open>Nested sessions\<close>

definition open_db :: "('o \<Rightarrow> 'u list) \<Rightarrow> nat \<Rightarrow> nat \<Rightarrow> 'o content list \<Rightarrow> 'o object_database \<Rightarrow> bool" where
  "open_db ukeys mx a tops db \<longleftrightarrow>
    \<not> disabled (undo_db db) \<and> max_size (undo_db db) = mx \<and> active_sessions (undo_db db) = a \<and>
    (\<exists>ss. refines ukeys db ss \<and> take a ss = tops)"

text \<open>Whatever happens in a session, the snapshots of the sessions around it stay.\<close>

lemma session_run_open:
  assumes ho: "hash_order enum" and run: "session_run ukeys enum db db'"
  shows "open_db ukeys mx a tops db \<Longrightarrow> open_db ukeys mx a tops db'"
  using run
proof (induction arbitrary: a tops rule: session_run.induct)
  case (change db db1 c db2)
  then obtain ss where ss: "refines ukeys db1 ss" "take a ss = tops" and en: "\<not> disabled (undo_db db1)"
    "max_size (undo_db db1) = mx" "active_sessions (undo_db db1) = a"
    unfolding open_db_def by blast
  have "take a (opened (content db1) ss) = tops"
    using ss en by (auto simp: opened_def refines_def split: if_splits)
  moreover obtain db' where "run_cmd ukeys enum c db1 = (None, db')"
    "refines ukeys db' (opened (content db1) ss)" "\<not> disabled (undo_db db')"
    "active_sessions (undo_db db') = a" "max_size (undo_db db') = mx"
    using refines_change[OF ss(1) en(1) change.hyps(2,3), of enum] en by metis
  ultimately show ?case using change.hyps(4) unfolding open_db_def by auto
next
  case (undone db db1 se db2 db3 se' db4)
  then have "open_db ukeys mx a tops db1" by blast
  then obtain ss where ss: "refines ukeys db1 ss" "take a ss = tops" and en: "\<not> disabled (undo_db db1)"
    "max_size (undo_db db1) = mx" "active_sessions (undo_db db1) = a"
    unfolding open_db_def by blast
  have le: "a \<le> mx" using undone.hyps(2) en by simp
  note st = refines_start[OF ss(1) disjI1[OF en(1)] _ undone.hyps(3)]
  have "open_db ukeys mx (Suc a) (content db1 # tops) db2"
    unfolding open_db_def using st le en ss
    by (auto simp: take_take min_def intro!: exI[of _ "content db1 # take mx ss"])
  then have "open_db ukeys mx (Suc a) (content db1 # tops) db3" by (rule undone.IH(2))
  then obtain ss3 where d3: "refines ukeys db3 ss3" "take (Suc a) ss3 = content db1 # tops"
    "\<not> disabled (undo_db db3)" "max_size (undo_db db3) = mx" "active_sessions (undo_db db3) = Suc a"
    unfolding open_db_def by blast
  obtain ss4 where ss3: "ss3 = content db1 # ss4" "take a ss4 = tops"
    using d3(2) by (cases ss3) auto
  obtain db4' where d4: "undo ukeys enum db3 = (None, db4')" "refines ukeys db4' (opened (content db1) ss4)"
    "\<not> disabled (undo_db db4')" "active_sessions (undo_db db4') = a" "max_size (undo_db db4') = mx"
    using hash_order.refines_undo[OF ho, of ukeys db3 "content db1" ss4] d3 ss3 by auto
  have "db4' = db4" using undone.hyps(5) d4(1) st(5) le en by (auto simp: session_undo_def)
  moreover have "take a (opened (content db1) ss4) = tops"
    using ss3(2) d3(1,5) ss3(1) by (auto simp: opened_def refines_def split: if_splits)
  ultimately show ?case using d4 by (auto simp: open_db_def)
next
  case (merged db db1 se db2 db3 se' db4)
  then have "open_db ukeys mx a tops db1" by blast
  then obtain ss where ss: "refines ukeys db1 ss" "take a ss = tops" and en: "\<not> disabled (undo_db db1)"
    "max_size (undo_db db1) = mx" "active_sessions (undo_db db1) = a"
    unfolding open_db_def by blast
  have le: "a \<le> mx" using merged.hyps(2) en by simp
  note st = refines_start[OF ss(1) disjI1[OF en(1)] _ merged.hyps(3)]
  have "open_db ukeys mx (Suc a) (content db1 # tops) db2"
    unfolding open_db_def using st le en ss
    by (auto simp: take_take min_def intro!: exI[of _ "content db1 # take mx ss"])
  then have "open_db ukeys mx (Suc a) (content db1 # tops) db3" by (rule merged.IH(2))
  then obtain ss3 where d3: "refines ukeys db3 ss3" "take (Suc a) ss3 = content db1 # tops"
    "\<not> disabled (undo_db db3)" "max_size (undo_db db3) = mx" "active_sessions (undo_db db3) = Suc a"
    unfolding open_db_def by blast
  obtain s1 ss4 where ss3: "ss3 = content db1 # s1 # ss4"
    using d3 merged.hyps(5) by (cases ss3; cases "tl ss3") (auto simp: refines_def dest!: chain_length)
  obtain db4' where d4: "merge enum db3 = (None, db4')" "refines ukeys db4' (s1 # ss4)"
    "\<not> disabled (undo_db db4')" "active_sessions (undo_db db4') = a" "max_size (undo_db db4') = mx"
    using hash_order.refines_merge[OF ho, of ukeys db3 "content db1" s1 ss4] d3 ss3 by auto
  have "db4' = db4" using merged.hyps(6) d4(1) st(5) le en by (auto simp: session_merge_def)
  moreover have "take a (s1 # ss4) = tops" using d3(2) ss3 by simp
  ultimately show ?case using d4 by (auto simp: open_db_def)
qed

lemma refines_init: "refines ukeys (init_db idxs) []"
proof -
  have "content_wf ukeys (fmempty, fmap_of_list (map (\<lambda>i. (index_id i, index_id i)) idxs))"
    by (rule content_wfI) (auto simp: fmlookup_of_list dest!: map_of_SomeD)
  then show ?thesis by (simp add: refines_def init_db_def content_def)
qed

subsection \<open>Properties\<close>

text \<open>C1: the undo database refines the machine that keeps a full snapshot per session. On an enabled
  database that represents the snapshots \<open>ss\<close>, every command whose client obligations hold succeeds
  (in every iteration order of the unordered containers), and afterwards the database represents
  what the snapshot machine computes: \<open>undo\<close> and \<open>pop_commit\<close> bring back the newest snapshot, \<open>merge\<close>
  forgets it, \<open>start_undo_session\<close> takes one, and a change of the content takes none.\<close>

theorem undo_database_refines_snapshots:
  assumes "\<And>S. set (enum S) = fset S" and "\<And>S. distinct (enum S)"
    and "refines ukeys db ss" and "\<not> disabled (undo_db db)" and "cmd_ok ukeys c db"
  shows "\<exists>db' ss'. run_cmd ukeys enum c db = (None, db') \<and>
    spec_cmd (max_size (undo_db db)) c (content db, ss) = (content db', ss') \<and>
    refines ukeys db' ss' \<and> \<not> disabled (undo_db db') \<and> max_size (undo_db db') = max_size (undo_db db)"
  by (rule refines_cmd) (use assms in \<open>auto intro: hash_order.intro\<close>)

theorem undo_database_refines_snapshots_witness:
  "\<exists>db' ss'. run_cmd (\<lambda>v::nat. [v]) sorted_list_of_fset (Create 0 7) (init_db [0]) = (None, db') \<and>
    spec_cmd 256 (Create 0 7) (content (init_db [0]), []) = (content db', ss') \<and>
    refines (\<lambda>v::nat. [v]) db' ss' \<and> \<not> disabled (undo_db db') \<and> max_size (undo_db db') = 256"
proof -
  have ok: "cmd_ok (\<lambda>v::nat. [v]) (Create 0 7) (init_db [0])"
    by (simp add: init_db_def clash_def index_id_def id_instance_def MAX_INSTANCE_ID_def id_space_def id_type_def)
  have en: "\<not> disabled (undo_db (init_db [0] :: nat object_database))"
    "max_size (undo_db (init_db [0] :: nat object_database)) = 256"
    by (simp_all add: init_db_def)
  show ?thesis
    using undo_database_refines_snapshots[OF sorted_order.enum_set sorted_order.enum_distinct
        refines_init en(1) ok] unfolding en(2) .
qed






end
