(* ===== verification/Asset_Price.thy ===== *)
theory Asset_Price
  imports Safe_Int
begin

text \<open>Assets, prices and price feeds: \<open>chain/protocol/asset.hpp\<close> and \<open>asset.cpp\<close>.

  Amounts are \<open>share_type\<close> (checked 64-bit, see \<open>Safe_Int\<close>), asset ids are instances. The comparison and
  the product compute in Boost's unsigned 128-bit integers, which wrap modulo \<open>2 ^ 128\<close> (\<open>u128\<close>); the
  call price and the squeeze price compute in Boost's rationals over 128-bit integers, which are kept
  in lowest terms with a positive denominator and refuse a zero denominator (\<open>rational\<close>).\<close>

type_synonym asset_id_type = nat

definition MAX_SHARE_SUPPLY :: int where "MAX_SHARE_SUPPLY = 1000000000000000"
definition COLLATERAL_RATIO_DENOM :: int where "COLLATERAL_RATIO_DENOM = 1000"
definition MIN_COLLATERAL_RATIO :: int where "MIN_COLLATERAL_RATIO = 1001"
definition MAX_COLLATERAL_RATIO :: int where "MAX_COLLATERAL_RATIO = 32000"

record asset =
  amount :: int
  asset_id :: asset_id_type

record price =
  base :: asset
  quote :: asset

record price_feed =
  settlement_price :: price
  core_exchange_rate :: price
  maintenance_collateral_ratio :: int
  maximum_short_squeeze_ratio :: int

definition mk_asset :: "int \<Rightarrow> asset_id_type \<Rightarrow> asset" where
  "mk_asset a i = \<lparr>amount = a, asset_id = i\<rparr>"

definition null_price :: price where
  "null_price = \<lparr>base = mk_asset 0 0, quote = mk_asset 0 0\<rparr>"

lemma mk_asset_sel [simp]: "amount (mk_asset a i) = a" "asset_id (mk_asset a i) = i"
  by (simp_all add: mk_asset_def)

lemma eq_mk_asset: "x = mk_asset a i \<longleftrightarrow> amount x = a \<and> asset_id x = i"
  by (cases x) (auto simp: mk_asset_def)

subsection \<open>Assets\<close>

definition asset_add :: "asset \<Rightarrow> asset \<Rightarrow> asset res" where
  "asset_add a b = fc_assert (asset_id a = asset_id b)
     (rbind (safe_add (amount a) (amount b)) (\<lambda>x. Inr (mk_asset x (asset_id a))))"

definition asset_sub :: "asset \<Rightarrow> asset \<Rightarrow> asset res" where
  "asset_sub a b = fc_assert (asset_id a = asset_id b)
     (rbind (safe_sub (amount a) (amount b)) (\<lambda>x. Inr (mk_asset x (asset_id a))))"

definition asset_neg :: "asset \<Rightarrow> asset res" where
  "asset_neg a = rbind (safe_neg (amount a)) (\<lambda>x. Inr (mk_asset x (asset_id a)))"

definition asset_lt :: "asset \<Rightarrow> asset \<Rightarrow> bool res" where
  "asset_lt a b = fc_assert (asset_id a = asset_id b) (Inr (amount a < amount b))"

definition asset_le :: "asset \<Rightarrow> asset \<Rightarrow> bool res" where
  "asset_le a b = (if a = b then Inr True else asset_lt a b)"

definition asset_gt :: "asset \<Rightarrow> asset \<Rightarrow> bool res" where
  "asset_gt a b = rbind (asset_le a b) (\<lambda>x. Inr (\<not> x))"

definition asset_ge :: "asset \<Rightarrow> asset \<Rightarrow> bool res" where
  "asset_ge a b = rbind (asset_lt a b) (\<lambda>x. Inr (\<not> x))"

definition scaled_precision :: "nat \<Rightarrow> int res" where
  "scaled_precision p = fc_assert (p < 19) (Inr (10 ^ p))"

subsection \<open>Prices\<close>

definition u128 :: "int \<Rightarrow> int" where "u128 x = x mod 2 ^ 128"

definition price_eq :: "price \<Rightarrow> price \<Rightarrow> bool" where
  "price_eq a b \<longleftrightarrow>
    asset_id (base a) = asset_id (base b) \<and> asset_id (quote a) = asset_id (quote b) \<and>
    u128 (amount (quote b) * amount (base a)) = u128 (amount (quote a) * amount (base b))"

definition price_lt :: "price \<Rightarrow> price \<Rightarrow> bool" where
  "price_lt a b =
    (if asset_id (base a) < asset_id (base b) then True
     else if asset_id (base a) > asset_id (base b) then False
     else if asset_id (quote a) < asset_id (quote b) then True
     else if asset_id (quote a) > asset_id (quote b) then False
     else u128 (amount (quote b) * amount (base a)) < u128 (amount (quote a) * amount (base b)))"

definition price_le :: "price \<Rightarrow> price \<Rightarrow> bool" where
  "price_le a b \<longleftrightarrow> price_eq a b \<or> price_lt a b"

definition price_gt :: "price \<Rightarrow> price \<Rightarrow> bool" where
  "price_gt a b \<longleftrightarrow> \<not> price_le a b"

definition price_ge :: "price \<Rightarrow> price \<Rightarrow> bool" where
  "price_ge a b \<longleftrightarrow> \<not> price_lt a b"

definition asset_mul :: "asset \<Rightarrow> price \<Rightarrow> asset res" where
  "asset_mul a b =
    (if asset_id a = asset_id (base b) then
       fc_assert (amount (base b) > 0)
         (let result = u128 (amount a * amount (quote b)) div amount (base b) in
          fc_assert (result \<le> MAX_SHARE_SUPPLY) (Inr (mk_asset result (asset_id (quote b)))))
     else if asset_id a = asset_id (quote b) then
       fc_assert (amount (quote b) > 0)
         (let result = u128 (amount a * amount (base b)) div amount (quote b) in
          fc_assert (result \<le> MAX_SHARE_SUPPLY) (Inr (mk_asset result (asset_id (base b)))))
     else Inl AssertFail)"

definition asset_div :: "asset \<Rightarrow> asset \<Rightarrow> price res" where
  "asset_div b q = fc_assert (asset_id b \<noteq> asset_id q) (Inr \<lparr>base = b, quote = q\<rparr>)"

definition price_inv :: "price \<Rightarrow> price" where
  "price_inv p = \<lparr>base = quote p, quote = base p\<rparr>"

definition price_max :: "asset_id_type \<Rightarrow> asset_id_type \<Rightarrow> price res" where
  "price_max b q = asset_div (mk_asset MAX_SHARE_SUPPLY b) (mk_asset 1 q)"

definition price_min :: "asset_id_type \<Rightarrow> asset_id_type \<Rightarrow> price res" where
  "price_min b q = asset_div (mk_asset 1 b) (mk_asset MAX_SHARE_SUPPLY q)"

definition price_is_null :: "price \<Rightarrow> bool" where
  "price_is_null p = price_eq p null_price"

definition price_validate :: "price \<Rightarrow> unit res" where
  "price_validate p =
    fc_assert (amount (base p) > 0)
    (fc_assert (amount (quote p) > 0)
    (fc_assert (asset_id (base p) \<noteq> asset_id (quote p)) (Inr ())))"

text \<open>\<open>boost::rational<int128_t>( n, d )\<close>\<close>

definition rational :: "int \<Rightarrow> int \<Rightarrow> (int \<times> int) res" where
  "rational n d =
    (if d = 0 then Inl OtherError
     else let g = gcd n d; s = sgn d in Inr (s * (n div g), s * (d div g)))"

definition rational_mul :: "int \<times> int \<Rightarrow> int \<times> int \<Rightarrow> (int \<times> int) res" where
  "rational_mul x y = rational (fst x * fst y) (snd x * snd y)"

lemma rational_abs:
  assumes "rational n d = Inr (n', d')"
  shows "\<bar>n'\<bar> \<le> \<bar>n\<bar>" "\<bar>d'\<bar> \<le> \<bar>d\<bar>" "0 < d'"
proof -
  have d: "d \<noteq> 0" and n': "n' = sgn d * (n div gcd n d)" and d': "d' = sgn d * (d div gcd n d)"
    using assms by (auto simp: rational_def Let_def split: if_splits)
  have g: "0 < gcd n d" using d by (simp add: less_le)
  have le: "\<bar>x div g\<bar> \<le> \<bar>x\<bar>" if "g dvd x" "0 < g" for x g :: int
    using that by (metis dvd_div_eq_0_iff abs_ge_zero div_by_0 dvd_imp_le_int dvd_mult_div_cancel
        dvd_triv_right zdvd_imp_le abs_0)
  show "\<bar>n'\<bar> \<le> \<bar>n\<bar>" "\<bar>d'\<bar> \<le> \<bar>d\<bar>"
    using le[OF _ g, of n] le[OF _ g, of d] d by (simp_all add: n' d' abs_mult)
  show "0 < d'"
  proof (cases "d > 0")
    case True
    then show ?thesis using g by (simp add: d' pos_imp_zdiv_pos_iff zdvd_imp_le)
  next
    case False
    then have "d < 0" using d by simp
    moreover have "d div gcd n d \<noteq> 0" using d by (simp add: dvd_div_eq_0_iff)
    moreover have "d div gcd n d \<le> 0" using \<open>d < 0\<close> g by (simp add: div_nonpos_pos_le0)
    ultimately show ?thesis by (simp add: d')
  qed
qed

text \<open>The two rounding loops: halve numerator and denominator until both fit.\<close>

function call_price_loop :: "int \<Rightarrow> int \<Rightarrow> (int \<times> int) res" where
  "call_price_loop n d =
    (if n > MAX_SHARE_SUPPLY \<or> d > MAX_SHARE_SUPPLY
     then case rational (n div 2 + 1) (d div 2 + 1) of
        Inl e \<Rightarrow> Inl e
      | Inr nd \<Rightarrow> call_price_loop (fst nd) (snd nd)
     else Inr (n, d))"
  by pat_completeness auto

lemma half_plus_1: "\<bar>n div 2 + 1\<bar> \<le> \<bar>n :: int\<bar> + 1" "2 < n \<Longrightarrow> \<bar>n div 2 + 1\<bar> < \<bar>n\<bar>"
    "6 < n \<Longrightarrow> \<bar>n div 2 + 1\<bar> + 1 < \<bar>n\<bar>"
  by linarith+

termination call_price_loop
proof (relation "measure (\<lambda>(n, d). nat (\<bar>n\<bar> + \<bar>d\<bar>))", goal_cases)
  case (2 n d nd)
  then obtain n' d' where nd: "nd = (n', d')" "rational (n div 2 + 1) (d div 2 + 1) = Inr (n', d')"
    by (cases nd) auto
  have "\<bar>n'\<bar> + \<bar>d'\<bar> \<le> \<bar>n div 2 + 1\<bar> + \<bar>d div 2 + 1\<bar>"
    using rational_abs(1,2)[OF nd(2)] by linarith
  also have "\<dots> < \<bar>n\<bar> + \<bar>d\<bar>"
    using 2(1) half_plus_1(1)[of n] half_plus_1(1)[of d] half_plus_1(3)[of n] half_plus_1(3)[of d]
    by (auto simp: MAX_SHARE_SUPPLY_def)
  finally show ?case by (simp add: nd(1))
qed simp

function squeeze_price_loop :: "int \<Rightarrow> int \<Rightarrow> (int \<times> int) res" where
  "squeeze_price_loop n d =
    (if n > MAX_SHARE_SUPPLY \<or> d > MAX_SHARE_SUPPLY
     then case rational (n div 2 + n mod 2) (d div 2 + d mod 2) of
        Inl e \<Rightarrow> Inl e
      | Inr nd \<Rightarrow> squeeze_price_loop (fst nd) (snd nd)
     else Inr (n, d))"
  by pat_completeness auto

lemma half_up: "\<bar>n div 2 + n mod 2\<bar> \<le> \<bar>n :: int\<bar>" "1 < n \<Longrightarrow> \<bar>n div 2 + n mod 2\<bar> < \<bar>n\<bar>"
  by presburger+

termination squeeze_price_loop
proof (relation "measure (\<lambda>(n, d). nat (\<bar>n\<bar> + \<bar>d\<bar>))", goal_cases)
  case (2 n d nd)
  then obtain n' d' where nd: "nd = (n', d')" "rational (n div 2 + n mod 2) (d div 2 + d mod 2) = Inr (n', d')"
    by (cases nd) auto
  have "\<bar>n'\<bar> + \<bar>d'\<bar> \<le> \<bar>n div 2 + n mod 2\<bar> + \<bar>d div 2 + d mod 2\<bar>"
    using rational_abs(1,2)[OF nd(2)] by linarith
  also have "\<dots> < \<bar>n\<bar> + \<bar>d\<bar>"
    using 2(1) half_up(1)[of n] half_up(1)[of d] half_up(2)[of n] half_up(2)[of d]
    by (auto simp: MAX_SHARE_SUPPLY_def)
  finally show ?case by (simp add: nd(1))
qed simp

declare call_price_loop.simps [simp del] squeeze_price_loop.simps [simp del]

definition call_price :: "asset \<Rightarrow> asset \<Rightarrow> int \<Rightarrow> price res" where
  "call_price debt collateral collateral_ratio =
    rbind (rational (amount debt) (amount collateral)) (\<lambda>swan.
    rbind (rational collateral_ratio COLLATERAL_RATIO_DENOM) (\<lambda>ratio.
    rbind (rational_mul swan ratio) (\<lambda>cp.
    rbind (call_price_loop (fst cp) (snd cp)) (\<lambda>cp.
    rbind (asset_div (mk_asset (fst cp) (asset_id debt)) (mk_asset (snd cp) (asset_id collateral)))
      (\<lambda>p. Inr (price_inv p))))))"

definition max_short_squeeze_price :: "price_feed \<Rightarrow> price res" where
  "max_short_squeeze_price f =
    rbind (rational (amount (base (settlement_price f))) (amount (quote (settlement_price f)))) (\<lambda>sp.
    rbind (rational COLLATERAL_RATIO_DENOM (maximum_short_squeeze_ratio f)) (\<lambda>ratio.
    rbind (rational_mul sp ratio) (\<lambda>cp.
    rbind (squeeze_price_loop (fst cp) (snd cp)) (\<lambda>cp.
    asset_div (mk_asset (fst cp) (asset_id (base (settlement_price f))))
              (mk_asset (snd cp) (asset_id (quote (settlement_price f))))))))"

definition price_feed_validate :: "price_feed \<Rightarrow> unit res" where
  "price_feed_validate f =
    rbind (if price_is_null (settlement_price f) then Inr () else price_validate (settlement_price f)) (\<lambda>_.
    fc_assert (maximum_short_squeeze_ratio f \<ge> MIN_COLLATERAL_RATIO)
    (fc_assert (maximum_short_squeeze_ratio f \<le> MAX_COLLATERAL_RATIO)
    (fc_assert (maintenance_collateral_ratio f \<ge> MIN_COLLATERAL_RATIO)
    (fc_assert (maintenance_collateral_ratio f \<le> MAX_COLLATERAL_RATIO)
    (rbind (max_short_squeeze_price f) (\<lambda>_. Inr ()))))))"

definition price_feed_is_for :: "price_feed \<Rightarrow> asset_id_type \<Rightarrow> bool" where
  "price_feed_is_for f i =
    (if \<not> price_is_null (settlement_price f) then asset_id (base (settlement_price f)) = i
     else if \<not> price_is_null (core_exchange_rate f) then asset_id (base (core_exchange_rate f)) = i
     else True)"

subsection \<open>The rounding loops end with positive numbers that fit\<close>

lemma rational_pos:
  assumes "0 < n" "0 < d"
  shows "\<exists>n' d'. rational n d = Inr (n', d') \<and> 0 < n' \<and> 0 < d' \<and> n' * d = n * d'"
proof -
  define g where "g = gcd n d"
  have g: "0 < g" "g dvd n" "g dvd d" using assms by (simp_all add: g_def)
  then obtain a b where ab: "n = g * a" "d = g * b" by (auto elim!: dvdE)
  then have "0 < a" "0 < b" using assms g(1) by (simp_all add: zero_less_mult_iff)
  moreover have "rational n d = Inr (a, b)"
    using assms g(1) by (simp add: rational_def Let_def flip: g_def) (simp add: ab)
  ultimately show ?thesis using ab by (auto simp: mult.commute)
qed

lemma call_price_loop_ok:
  "0 < n \<Longrightarrow> 0 < d \<Longrightarrow> \<exists>n' d'. call_price_loop n d = Inr (n', d') \<and>
     0 < n' \<and> n' \<le> MAX_SHARE_SUPPLY \<and> 0 < d' \<and> d' \<le> MAX_SHARE_SUPPLY"
proof (induction n d rule: call_price_loop.induct)
  case (1 n d)
  show ?case
  proof (cases "n > MAX_SHARE_SUPPLY \<or> d > MAX_SHARE_SUPPLY")
    case True
    have "0 < n div 2 + 1" "0 < d div 2 + 1" using "1.prems" by (simp_all add: pos_imp_zdiv_nonneg_iff add_pos_pos add_nonneg_pos)
    then obtain a b where ab: "rational (n div 2 + 1) (d div 2 + 1) = Inr (a, b)" "0 < a" "0 < b"
      using rational_pos by metis
    then show ?thesis using "1.IH"[OF True ab(1)] True by (simp add: call_price_loop.simps[of n d])
  next
    case False
    then show ?thesis using "1.prems" by (simp add: call_price_loop.simps[of n d])
  qed
qed

lemma squeeze_price_loop_ok:
  "0 < n \<Longrightarrow> 0 < d \<Longrightarrow> \<exists>n' d'. squeeze_price_loop n d = Inr (n', d') \<and>
     0 < n' \<and> n' \<le> MAX_SHARE_SUPPLY \<and> 0 < d' \<and> d' \<le> MAX_SHARE_SUPPLY"
proof (induction n d rule: squeeze_price_loop.induct)
  case (1 n d)
  show ?case
  proof (cases "n > MAX_SHARE_SUPPLY \<or> d > MAX_SHARE_SUPPLY")
    case True
    have "0 < n div 2 + n mod 2" "0 < d div 2 + d mod 2" using "1.prems" by presburger+
    then obtain a b where ab: "rational (n div 2 + n mod 2) (d div 2 + d mod 2) = Inr (a, b)" "0 < a" "0 < b"
      using rational_pos by metis
    then show ?thesis using "1.IH"[OF True ab(1)] True by (simp add: squeeze_price_loop.simps[of n d])
  next
    case False
    then show ?thesis using "1.prems" by (simp add: squeeze_price_loop.simps[of n d])
  qed
qed

text \<open>Three rationals multiplied as the code does it.\<close>

lemma rational_chain:
  assumes "0 < a" "0 < b" "0 < c" "0 < d"
  shows "\<exists>x y z. rational a b = Inr x \<and> rational c d = Inr y \<and> rational_mul x y = Inr z \<and>
     0 < fst z \<and> 0 < snd z \<and> fst z * (b * d) = (a * c) * snd z"
proof -
  obtain a' b' where x: "rational a b = Inr (a', b')" "0 < a'" "0 < b'" "a' * b = a * b'"
    using rational_pos[OF assms(1,2)] by blast
  obtain c' d' where y: "rational c d = Inr (c', d')" "0 < c'" "0 < d'" "c' * d = c * d'"
    using rational_pos[OF assms(3,4)] by blast
  obtain n m where z: "rational (a' * c') (b' * d') = Inr (n, m)" "0 < n" "0 < m"
      "n * (b' * d') = (a' * c') * m"
    using rational_pos[of "a' * c'" "b' * d'"] x y by auto
  have "n * (b * d) * (b' * d') = (a' * b) * (c' * d) * m" using z(4) by (simp add: ac_simps)
  also have "\<dots> = a * c * m * (b' * d')" using x(4) y(4) by (simp add: ac_simps)
  finally have "n * (b * d) = a * c * m" using x(3) y(3) by simp
  then show ?thesis using x(1) y(1) z by (auto simp: rational_mul_def)
qed

subsection \<open>Comparing and multiplying\<close>

definition valid_price :: "price \<Rightarrow> bool" where
  "valid_price p \<longleftrightarrow> 0 < amount (base p) \<and> amount (base p) \<le> i64_max \<and>
     0 < amount (quote p) \<and> amount (quote p) \<le> i64_max"

lemma u128_product:
  assumes "0 \<le> x" "x \<le> i64_max" "0 \<le> y" "y \<le> i64_max"
  shows "u128 (x * y) = x * y"
proof -
  have "x * y \<le> i64_max * i64_max" using assms by (intro mult_mono) auto
  also have "\<dots> < 2 ^ 128" by (simp add: i64_max_def)
  finally show ?thesis using assms by (simp add: u128_def)
qed

lemma price_lt_iff:
  assumes "valid_price a" "valid_price b"
  shows "price_lt a b \<longleftrightarrow>
    asset_id (base a) < asset_id (base b) \<or> asset_id (base a) = asset_id (base b) \<and>
    (asset_id (quote a) < asset_id (quote b) \<or> asset_id (quote a) = asset_id (quote b) \<and>
      amount (base a) * amount (quote b) < amount (base b) * amount (quote a))"
  using assms by (auto simp: price_lt_def valid_price_def u128_product mult.commute)

lemma price_eq_iff:
  assumes "valid_price a" "valid_price b"
  shows "price_eq a b \<longleftrightarrow> asset_id (base a) = asset_id (base b) \<and> asset_id (quote a) = asset_id (quote b) \<and>
    amount (base a) * amount (quote b) = amount (base b) * amount (quote a)"
  using assms by (auto simp: price_eq_def valid_price_def u128_product mult.commute)

text \<open>Cross-multiplied comparison of positive fractions is transitive.\<close>

lemma cross_trans:
  fixes a b c d e f :: int
  assumes "a * d < c * b" "c * f \<le> e * d" "0 < b" "0 < d" "0 < f"
  shows "a * f < e * b"
proof -
  have "a * d * f < c * b * f" using assms by simp
  also have "\<dots> = c * f * b" by simp
  also have "\<dots> \<le> e * d * b" using assms by (simp add: mult_right_mono)
  finally have "(a * f) * d < (e * b) * d" by (simp add: ac_simps)
  then show ?thesis using assms(4) by simp
qed

lemma cross_trans2:
  fixes a b c d e f :: int
  assumes "a * d \<le> c * b" "c * f < e * d" "0 < b" "0 < d" "0 < f"
  shows "a * f < e * b"
proof -
  have "a * d * f \<le> c * b * f" using assms by simp
  also have "\<dots> = c * f * b" by simp
  also have "\<dots> < e * d * b" using assms by simp
  finally have "(a * f) * d < (e * b) * d" by (simp add: ac_simps)
  then show ?thesis using assms(4) by simp
qed

text \<open>An interface: keys that an ordered container can sort. The client lemmas are what the order book
  relies on: the front of a sorted list is a best element.\<close>

locale order_key =
  fixes key_ok :: "'k \<Rightarrow> bool" and lt :: "'k \<Rightarrow> 'k \<Rightarrow> bool"
  assumes irrefl: "key_ok x \<Longrightarrow> \<not> lt x x"
    and trans: "key_ok x \<Longrightarrow> key_ok y \<Longrightarrow> key_ok z \<Longrightarrow> lt x y \<Longrightarrow> lt y z \<Longrightarrow> lt x z"
    and weak: "key_ok x \<Longrightarrow> key_ok y \<Longrightarrow> key_ok z \<Longrightarrow> lt x z \<Longrightarrow> lt x y \<or> lt y z"
begin

lemma asym: "key_ok x \<Longrightarrow> key_ok y \<Longrightarrow> lt x y \<Longrightarrow> \<not> lt y x"
  using irrefl trans by blast

lemma not_lt_trans:
  "key_ok x \<Longrightarrow> key_ok y \<Longrightarrow> key_ok z \<Longrightarrow> \<not> lt x y \<Longrightarrow> \<not> lt y z \<Longrightarrow> \<not> lt x z"
  using weak by blast

lemma sorted_front_best:
  assumes "sorted_wrt (\<lambda>x y. \<not> lt (f y) (f x)) (a # as)" and "x \<in> set (a # as)" and "key_ok (f a)"
  shows "\<not> lt (f x) (f a)"
  using assms irrefl by auto

end

interpretation price_order: order_key valid_price price_lt
proof
  fix x y z assume v: "valid_price x" "valid_price y" "valid_price z"
  then have p: "0 < amount (quote x)" "0 < amount (quote y)" "0 < amount (quote z)"
    by (auto simp: valid_price_def)
  show "price_lt x y \<Longrightarrow> price_lt y z \<Longrightarrow> price_lt x z"
    using cross_trans[of "amount (base x)" "amount (quote y)" "amount (base y)" "amount (quote x)"
        "amount (quote z)" "amount (base z)"] p
    by (auto simp: price_lt_iff v)
  show "price_lt x z \<Longrightarrow> price_lt x y \<or> price_lt y z"
    using cross_trans[of "amount (base x)" "amount (quote z)" "amount (base z)" "amount (quote x)"
        "amount (quote y)" "amount (base y)"] p
    by (force simp: price_lt_iff v not_less)
qed (simp add: price_lt_iff)

lemma asset_mul_base:
  assumes "asset_id a = asset_id (base p)" "valid_price p" "0 \<le> amount a" "amount a \<le> i64_max"
  shows "asset_mul a p = fc_assert (amount a * amount (quote p) div amount (base p) \<le> MAX_SHARE_SUPPLY)
     (Inr (mk_asset (amount a * amount (quote p) div amount (base p)) (asset_id (quote p))))"
  using assms by (simp add: asset_mul_def valid_price_def Let_def u128_product)

lemma asset_mul_quote:
  assumes "asset_id a = asset_id (quote p)" "asset_id (base p) \<noteq> asset_id (quote p)"
    "valid_price p" "0 \<le> amount a" "amount a \<le> i64_max"
  shows "asset_mul a p = fc_assert (amount a * amount (base p) div amount (quote p) \<le> MAX_SHARE_SUPPLY)
     (Inr (mk_asset (amount a * amount (base p) div amount (quote p)) (asset_id (base p))))"
  using assms by (simp add: asset_mul_def valid_price_def Let_def u128_product)

text \<open>A negative amount wraps to a huge 128-bit number and is refused.\<close>

lemma wrapped_quotient_large:
  assumes "i64_min \<le> x" "x < 0" "0 < y" "y \<le> i64_max" "0 < d" "d \<le> i64_max"
  shows "MAX_SHARE_SUPPLY < u128 (x * y) div d"
proof -
  have xy: "- (2 ^ 126) \<le> x * y" "x * y < 0"
  proof -
    have "i64_min * i64_max \<le> i64_min * y" using assms by (simp add: mult_left_mono_neg i64_min_def)
    also have "\<dots> \<le> x * y" using assms by simp
    finally show "- (2 ^ 126) \<le> x * y" by (simp add: i64_min_def i64_max_def)
    show "x * y < 0" using assms by (simp add: mult_neg_pos)
  qed
  have "u128 (x * y) = x * y + 2 ^ 128"
  proof -
    have "x * y mod 2 ^ 128 = (x * y + 2 ^ 128) mod 2 ^ 128" by (rule mod_add_self2[symmetric])
    also have "\<dots> = x * y + 2 ^ 128" by (rule mod_pos_pos_trivial) (use xy in auto)
    finally show ?thesis by (simp only: u128_def)
  qed
  moreover have "(MAX_SHARE_SUPPLY + 1) * d \<le> (MAX_SHARE_SUPPLY + 1) * i64_max"
    using assms by (simp add: MAX_SHARE_SUPPLY_def)
  then have "(MAX_SHARE_SUPPLY + 1) * d \<le> x * y + 2 ^ 128"
    using xy by (simp add: MAX_SHARE_SUPPLY_def i64_max_def)
  then have "MAX_SHARE_SUPPLY + 1 \<le> (x * y + 2 ^ 128) div d"
    using sdiv_bound_pos[of d "x * y + 2 ^ 128" "MAX_SHARE_SUPPLY + 1"] assms xy by simp
  ultimately show ?thesis by simp
qed

subsection \<open>Properties\<close>

text \<open>C6: on prices with positive amounts, \<open>operator <\<close> and \<open>operator ==\<close> decide the order of the exact
  fractions \<open>base / quote\<close> (after the asset ids, lexicographically), so the 128-bit products never
  wrap; the order is irreflexive, transitive and total up to \<open>==\<close>, which is what the
  price-sorted containers of the order book rely on.\<close>

theorem price_order_exact:
  assumes "valid_price a" and "valid_price b" and "valid_price c"
  shows "(asset_id (base a) = asset_id (base b) \<and> asset_id (quote a) = asset_id (quote b) \<longrightarrow>
      price_lt a b = (amount (base a) * amount (quote b) < amount (base b) * amount (quote a)) \<and>
      price_eq a b = (amount (base a) * amount (quote b) = amount (base b) * amount (quote a))) \<and>
    \<not> price_lt a a \<and> (price_lt a b \<and> price_lt b c \<longrightarrow> price_lt a c) \<and>
    (price_lt a b \<or> price_eq a b \<or> price_lt b a) \<and>
    (price_ge a b \<longleftrightarrow> price_le b a) \<and> (price_gt a b \<longleftrightarrow> price_lt b a)"
proof -
  have tot: "price_lt a b \<or> price_eq a b \<or> price_lt b a"
    unfolding price_lt_iff[OF assms(1,2)] price_lt_iff[OF assms(2,1)] price_eq_iff[OF assms(1,2)] by linarith
  have excl: "\<not> (price_lt a b \<and> price_eq a b)" "\<not> (price_lt b a \<and> price_eq a b)" "price_eq a b = price_eq b a"
    unfolding price_lt_iff[OF assms(1,2)] price_lt_iff[OF assms(2,1)] price_eq_iff[OF assms(1,2)]
      price_eq_iff[OF assms(2,1)] by auto
  have gt: "price_gt a b \<longleftrightarrow> price_lt b a" "price_ge a b \<longleftrightarrow> price_le b a"
    using tot excl price_order.asym[OF assms(1,2)] unfolding price_gt_def price_ge_def price_le_def by blast+
  have "asset_id (base a) = asset_id (base b) \<and> asset_id (quote a) = asset_id (quote b) \<longrightarrow>
      price_lt a b = (amount (base a) * amount (quote b) < amount (base b) * amount (quote a)) \<and>
      price_eq a b = (amount (base a) * amount (quote b) = amount (base b) * amount (quote a))"
    using assms by (simp add: price_lt_iff price_eq_iff)
  then show ?thesis
    using tot gt price_order.irrefl[OF assms(1)] price_order.trans[OF assms] by blast
qed

theorem price_order_exact_witness:
  "price_lt \<lparr>base = mk_asset 1 0, quote = mk_asset 3 1\<rparr> \<lparr>base = mk_asset 1 0, quote = mk_asset 2 1\<rparr> \<and>
   price_eq \<lparr>base = mk_asset 1 0, quote = mk_asset 2 1\<rparr> \<lparr>base = mk_asset 2 0, quote = mk_asset 4 1\<rparr> \<and>
   price_lt \<lparr>base = mk_asset 1 0, quote = mk_asset 3 1\<rparr> \<lparr>base = mk_asset 2 0, quote = mk_asset 4 1\<rparr>"
  using price_order_exact[of "\<lparr>base = mk_asset 1 0, quote = mk_asset 3 1\<rparr>"
      "\<lparr>base = mk_asset 1 0, quote = mk_asset 2 1\<rparr>" "\<lparr>base = mk_asset 2 0, quote = mk_asset 4 1\<rparr>"]
  by (simp add: valid_price_def i64_max_def price_lt_def price_eq_def u128_def)



text \<open>C8: exchanging an amount at a price and the result back at the same price never gains: rounding is
  always against the one who converts.\<close>

theorem exchange_round_trip_no_gain:
  assumes "valid_price p" and "asset_id (base p) \<noteq> asset_id (quote p)"
    and "asset_id a = asset_id (base p)" and "0 \<le> amount a" and "amount a \<le> i64_max"
    and "asset_mul a p = Inr b" and "asset_mul b p = Inr c"
  shows "asset_id c = asset_id a \<and> 0 \<le> amount c \<and> amount c \<le> amount a"
proof -
  let ?x = "amount (base p)" and ?y = "amount (quote p)"
  have xy: "0 < ?x" "0 < ?y" using assms(1) by (auto simp: valid_price_def)
  define r where "r = amount a * ?y div ?x"
  have r: "0 \<le> r" "r \<le> MAX_SHARE_SUPPLY" and b: "b = mk_asset r (asset_id (quote p))"
    using assms(6) asset_mul_base[OF assms(3,1,4,5)] assms(4) xy
    by (auto simp: r_def pos_imp_zdiv_nonneg_iff)
  have c: "c = mk_asset (r * ?x div ?y) (asset_id (base p))"
    using assms(7) asset_mul_quote[of b p] assms(1,2) r b
    by (auto simp: MAX_SHARE_SUPPLY_def i64_max_def)
  have "r * ?x \<le> amount a * ?y"
    unfolding r_def using xy(1) div_mult_mod_eq[of "amount a * ?y" ?x] pos_mod_sign[of ?x "amount a * ?y"]
    by linarith
  then have "r * ?x div ?y \<le> amount a * ?y div ?y" using xy(2) by (rule zdiv_mono1)
  then show ?thesis using c r xy assms(3) by (simp add: pos_imp_zdiv_nonneg_iff)
qed

theorem exchange_round_trip_no_gain_witness:
  "asset_mul (mk_asset 10 0) \<lparr>base = mk_asset 3 0, quote = mk_asset 2 1\<rparr> = Inr (mk_asset 6 1) \<and>
   asset_mul (mk_asset 6 1) \<lparr>base = mk_asset 3 0, quote = mk_asset 2 1\<rparr> = Inr (mk_asset 9 0) \<and>
   amount (mk_asset 9 0) \<le> amount (mk_asset 10 0)"
proof -
  have *: "asset_mul (mk_asset 10 0) \<lparr>base = mk_asset 3 0, quote = mk_asset 2 1\<rparr> = Inr (mk_asset 6 1)"
    "asset_mul (mk_asset 6 1) \<lparr>base = mk_asset 3 0, quote = mk_asset 2 1\<rparr> = Inr (mk_asset 9 0)"
    by (simp_all add: asset_mul_def u128_def Let_def MAX_SHARE_SUPPLY_def)
  from exchange_round_trip_no_gain[OF _ _ _ _ _ *] show ?thesis
    using * by (simp add: valid_price_def i64_max_def)
qed

text \<open>C9: the call price of a position with positive debt and collateral always exists: the rounding loop
  ends, and both amounts of the result are between 1 and the maximal supply, with the collateral as
  base and the debt as quote. When the exact ratio fits without rounding, the price is exactly
  \<open>collateral * 1000 / (debt * ratio)\<close>.\<close>

theorem call_price_total:
  assumes "0 < amount debt" and "0 < amount coll" and "0 < ratio" and "asset_id debt \<noteq> asset_id coll"
  shows "\<exists>p. call_price debt coll ratio = Inr p \<and>
    asset_id (base p) = asset_id coll \<and> asset_id (quote p) = asset_id debt \<and>
    0 < amount (base p) \<and> amount (base p) \<le> MAX_SHARE_SUPPLY \<and>
    0 < amount (quote p) \<and> amount (quote p) \<le> MAX_SHARE_SUPPLY \<and>
    (amount debt * ratio \<le> MAX_SHARE_SUPPLY \<and> amount coll * 1000 \<le> MAX_SHARE_SUPPLY \<longrightarrow>
      amount (quote p) * (amount coll * 1000) = (amount debt * ratio) * amount (base p))"
proof -
  obtain x y z where z: "rational (amount debt) (amount coll) = Inr x"
      "rational ratio COLLATERAL_RATIO_DENOM = Inr y" "rational_mul x y = Inr z" "0 < fst z" "0 < snd z"
      "fst z * (amount coll * 1000) = (amount debt * ratio) * snd z"
    using rational_chain[of "amount debt" "amount coll" ratio COLLATERAL_RATIO_DENOM] assms
    by (auto simp: COLLATERAL_RATIO_DENOM_def)
  obtain n d where nd: "call_price_loop (fst z) (snd z) = Inr (n, d)"
      "0 < n" "n \<le> MAX_SHARE_SUPPLY" "0 < d" "d \<le> MAX_SHARE_SUPPLY"
    using call_price_loop_ok[OF z(4,5)] by blast
  have exact: "n * (amount coll * 1000) = (amount debt * ratio) * d"
    if "amount debt * ratio \<le> MAX_SHARE_SUPPLY" "amount coll * 1000 \<le> MAX_SHARE_SUPPLY"
  proof -
    obtain a b where x: "x = (a, b)" "\<bar>a\<bar> \<le> amount debt" "\<bar>b\<bar> \<le> amount coll"
      using rational_abs(1,2)[of "amount debt" "amount coll"] z(1) assms by (cases x) auto
    obtain c e where y: "y = (c, e)" "\<bar>c\<bar> \<le> ratio" "\<bar>e\<bar> \<le> 1000"
      using rational_abs(1,2)[of ratio COLLATERAL_RATIO_DENOM] z(2) assms
      by (cases y) (auto simp: COLLATERAL_RATIO_DENOM_def)
    have "\<bar>a * c\<bar> \<le> amount debt * ratio" "\<bar>b * e\<bar> \<le> amount coll * 1000"
      using x y assms by (auto simp: abs_mult intro!: mult_mono)
    moreover have "\<bar>fst z\<bar> \<le> \<bar>a * c\<bar>" "\<bar>snd z\<bar> \<le> \<bar>b * e\<bar>"
      using rational_abs(1,2)[of "a * c" "b * e" "fst z" "snd z"] z(3) x y by (simp_all add: rational_mul_def)
    ultimately have "fst z \<le> MAX_SHARE_SUPPLY" "snd z \<le> MAX_SHARE_SUPPLY" using that by linarith+
    then have "call_price_loop (fst z) (snd z) = Inr (fst z, snd z)"
      by (simp add: call_price_loop.simps[of "fst z"])
    with nd(1) z(6) show ?thesis by simp
  qed
  have "call_price debt coll ratio = Inr \<lparr>base = mk_asset d (asset_id coll), quote = mk_asset n (asset_id debt)\<rparr>"
    by (simp add: call_price_def z nd(1) asset_div_def assms(4) price_inv_def)
  with nd exact show ?thesis by auto
qed

theorem call_price_total_witness:
  "\<exists>p. call_price (mk_asset 100 1) (mk_asset 400 0) 1750 = Inr p \<and> amount (base p) \<le> MAX_SHARE_SUPPLY \<and>
    amount (quote p) * 400000 = 175000 * amount (base p)"
  using call_price_total[of "mk_asset 100 1" "mk_asset 400 0" 1750] by (auto simp: MAX_SHARE_SUPPLY_def)

text \<open>C10: a feed whose settlement price is unset (all zero) can never be validated: \<open>price_feed::validate\<close>
  skips the check of the settlement price in that case, but then computes the squeeze price, which
  divides by the zero amount.\<close>

theorem null_feed_never_valid:
  assumes "settlement_price f = null_price"
  shows "price_is_null (settlement_price f) \<and> \<not> is_ok (price_feed_validate f)"
  using assms
  by (simp add: price_feed_validate_def price_is_null_def price_eq_def null_price_def
      max_short_squeeze_price_def rational_def fc_assert_def rassert_def)

theorem null_feed_never_valid_witness:
  "\<not> is_ok (price_feed_validate \<lparr>settlement_price = null_price, core_exchange_rate = null_price,
     maintenance_collateral_ratio = 1750, maximum_short_squeeze_ratio = 1500\<rparr>)"
  using null_feed_never_valid[of "\<lparr>settlement_price = null_price, core_exchange_rate = null_price,
     maintenance_collateral_ratio = 1750, maximum_short_squeeze_ratio = 1500\<rparr>"] by simp

end
