(* ===== verification/Blocks.thy ===== *)
theory Blocks
  imports Prelude
begin

text \<open>Blocks: \<open>chain/protocol/block.hpp\<close> and \<open>block.cpp\<close>.

  A block id is a 160-bit hash whose first 32 bits are overwritten with the block number; the model
  keeps the two parts apart (\<open>id_num\<close>, \<open>id_hash\<close>). The hash of a block header is a parameter
  (\<open>header_hash\<close>), as are the transaction digests and the pair hash of the Merkle tree. The loop of
  \<open>calculate_merkle_root\<close>, which overwrites its own array, is modelled as it is written and shown equal
  to the level-by-level pairing, and the root is shown to bind the transactions.\<close>

record block_id =
  id_num :: nat
  id_hash :: nat

definition null_block_id :: block_id where
  "null_block_id = \<lparr>id_num = 0, id_hash = 0\<rparr>"

record 't signed_block =
  previous :: block_id
  timestamp :: nat
  witness :: nat
  transaction_merkle_root :: nat
  witness_signature :: nat
  transactions :: "'t list"

definition num_from_id :: "block_id \<Rightarrow> nat" where
  "num_from_id i = id_num i"

definition block_num :: "'t signed_block \<Rightarrow> nat" where
  "block_num b = (num_from_id (previous b) + 1) mod 2 ^ 32"

definition block_id_of :: "('t signed_block \<Rightarrow> nat) \<Rightarrow> 't signed_block \<Rightarrow> block_id" where
  "block_id_of header_hash b = \<lparr>id_num = block_num b, id_hash = header_hash b\<rparr>"

lemma num_from_block_id [simp]: "num_from_id (block_id_of h b) = block_num b"
  by (simp add: num_from_id_def block_id_of_def)

subsection \<open>The Merkle root\<close>

text \<open>The body of the inner \<open>for\<close>: \<open>ids[k++] = hash( ids[i], ids[i+1] )\<close> for \<open>i = 0, 2, ..\<close> below \<open>i_max\<close>.\<close>

function merkle_pairs :: "('d \<Rightarrow> 'd \<Rightarrow> 'd) \<Rightarrow> nat \<Rightarrow> nat \<Rightarrow> nat \<Rightarrow> 'd list \<Rightarrow> nat \<times> 'd list" where
  "merkle_pairs hash2 i_max i k ids =
    (if i < i_max
     then merkle_pairs hash2 i_max (i + 2) (k + 1) (ids[k := hash2 (ids ! i) (ids ! (i + 1))])
     else (k, ids))"
  by pat_completeness auto
termination by (relation "measure (\<lambda>(_, i_max, i, _, _). i_max - i)") auto

definition merkle_level :: "('d \<Rightarrow> 'd \<Rightarrow> 'd) \<Rightarrow> nat \<Rightarrow> 'd list \<Rightarrow> nat \<times> 'd list" where
  "merkle_level hash2 n ids =
    (let i_max = n - n mod 2; (k, ids) = merkle_pairs hash2 i_max 0 0 ids
     in if odd n then (k + 1, ids[k := ids ! i_max]) else (k, ids))"

text \<open>One level in functional style.\<close>

fun pair_up :: "('d \<Rightarrow> 'd \<Rightarrow> 'd) \<Rightarrow> 'd list \<Rightarrow> 'd list" where
  "pair_up hash2 (x # y # zs) = hash2 x y # pair_up hash2 zs"
| "pair_up hash2 xs = xs"

lemma length_pair_up: "length (pair_up h xs) = (length xs + 1) div 2"
  by (induction h xs rule: pair_up.induct) auto

declare merkle_pairs.simps [simp del]

text \<open>After \<open>j\<close> rounds the first \<open>j\<close> cells hold the hashes and the cells from \<open>2 * j\<close> on are untouched.\<close>

lemma merkle_pairs_spec:
  assumes "2 * k + 2 * length rest' \<le> n" "n \<le> length ids" "i_max = 2 * k + 2 * length rest'"
    "drop (2 * k) (take n ids) = rest"  "length rest = n - 2 * k"
    "rest' = take (length rest') (pair_up h rest)" "n < i_max + 2"
  shows "\<exists>ids'. merkle_pairs h i_max (2 * k) k ids = (k + length rest', ids') \<and>
    length ids' = length ids \<and> take (k + length rest') ids' = take k ids @ rest' \<and>
    drop i_max ids' = drop i_max ids"
  using assms
proof (induction rest' arbitrary: k ids rest)
  case Nil
  then show ?case by (simp add: merkle_pairs.simps)
next
  case (Cons d ds)
  have lt: "2 * k + 1 < n" "2 * k < i_max" using Cons.prems by simp_all
  obtain x y zs where r: "rest = x # y # zs"
    using Cons.prems(5) lt by (cases rest; cases "tl rest") auto
  have xy: "ids ! (2 * k) = x" "ids ! (2 * k + 1) = y"
  proof -
    have "rest ! j = ids ! (2 * k + j)" if "2 * k + j < n" for j
      using Cons.prems(2,4) that by (auto simp: nth_drop)
    from this[of 0] this[of 1] lt r show "ids ! (2 * k) = x" "ids ! (2 * k + 1) = y" by auto
  qed
  have d: "d = h x y" and ds: "ds = take (length ds) (pair_up h zs)"
    using Cons.prems(6) r by auto
  let ?ids = "ids[k := h x y]"
  have zs: "drop (2 * Suc k) (take n ?ids) = zs"
  proof -
    have "drop (2 * Suc k) (take n ?ids) = drop (2 * Suc k) (take n ids)"
      by (simp add: take_update_swap drop_update_cancel)
    also have "\<dots> = drop 2 (drop (2 * k) (take n ids))" by (simp add: drop_drop add.commute)
    also have "\<dots> = zs" using Cons.prems(4) r by simp
    finally show ?thesis .
  qed
  obtain ids' where ids': "merkle_pairs h i_max (2 * Suc k) (Suc k) ?ids = (Suc k + length ds, ids')"
      "length ids' = length ?ids" "take (Suc k + length ds) ids' = take (Suc k) ?ids @ ds"
      "drop i_max ids' = drop i_max ?ids"
    using Cons.IH[OF _ _ _ zs _ ds] Cons.prems r by (fastforce simp: take_update_swap)
  have "take (Suc k) ?ids = take k ids @ [d]"
    using lt Cons.prems(2) d by (simp add: take_Suc_conv_app_nth)
  moreover have "drop i_max ?ids = drop i_max ids" using lt by (simp add: drop_update_cancel)
  ultimately show ?case
    using ids' lt xy by (simp add: merkle_pairs.simps[of h i_max "2 * k"])
qed

lemma fst_merkle_pairs: "fst (merkle_pairs h i_max i k ids) = k + (i_max - i + 1) div 2"
proof (induction h i_max i k ids rule: merkle_pairs.induct)
  case (1 h i_max i k ids)
  show ?case
  proof (cases "i < i_max")
    case True
    have "k + 1 + (i_max - (i + 2) + 1) div 2 = k + (i_max - i + 1) div 2"
      using True by presburger
    with True 1 show ?thesis by (simp add: merkle_pairs.simps[of h i_max i])
  qed (simp add: merkle_pairs.simps[of h i_max i])
qed

lemma fst_merkle_level: "fst (merkle_level h n ids) = (n + 1) div 2"
proof -
  have "(n - n mod 2 + 1) div 2 = n div 2" by presburger
  then show ?thesis
    using fst_merkle_pairs[of h "n - n mod 2" 0 0 ids]
    by (cases "merkle_pairs h (n - n mod 2) 0 0 ids") (auto simp: merkle_level_def Let_def elim!: oddE)
qed

lemma pair_up_odd:
  "odd (length xs) \<Longrightarrow> pair_up h xs = take (length xs div 2) (pair_up h xs) @ [last xs]"
  by (induction h xs rule: pair_up.induct) auto

lemma pair_up_even: "even (length xs) \<Longrightarrow> take (length xs div 2) (pair_up h xs) = pair_up h xs"
  by (simp add: length_pair_up)

lemma merkle_level_spec:
  assumes "0 < n" "n \<le> length ids"
  shows "take ((n + 1) div 2) (snd (merkle_level h n ids)) = pair_up h (take n ids)"
    and "length (snd (merkle_level h n ids)) = length ids"
proof -
  let ?rest = "take n ids" and ?m = "n - n mod 2"
  define front where "front = take (n div 2) (pair_up h ?rest)"
  have len: "length front = n div 2" using assms by (simp add: front_def length_pair_up)
  have m: "?m = 2 * (n div 2)" by presburger
  have "\<exists>ids'. merkle_pairs h ?m (2 * 0) 0 ids = (0 + length front, ids') \<and>
      length ids' = length ids \<and> take (0 + length front) ids' = take 0 ids @ front \<and>
      drop ?m ids' = drop ?m ids"
  proof (rule merkle_pairs_spec[where n = n])
    show "front = take (length front) (pair_up h ?rest)" unfolding len by (simp add: front_def)
    show "2 * 0 + 2 * length front \<le> n" "?m = 2 * 0 + 2 * length front" "n < ?m + 2"
      unfolding len by presburger+
  qed (use assms in auto)
  then obtain ids' where ids': "merkle_pairs h ?m 0 0 ids = (n div 2, ids')"
      "length ids' = length ids" "take (n div 2) ids' = front" "drop ?m ids' = drop ?m ids"
    by (auto simp: len)
  show "length (snd (merkle_level h n ids)) = length ids" by (simp add: merkle_level_def Let_def ids')
  show "take ((n + 1) div 2) (snd (merkle_level h n ids)) = pair_up h ?rest"
  proof (cases "odd n")
    case True
    have "n div 2 < length ids'" using assms ids'(2) True by (auto elim!: oddE)
    moreover have "ids' ! ?m = last ?rest"
    proof -
      have mn: "?m = n - 1" using True by presburger
      have "drop ?m ids' ! 0 = drop ?m ids ! 0" by (simp add: ids'(4))
      then have "ids' ! ?m = ids ! ?m" using mn assms ids'(2) by simp
      moreover have "?rest \<noteq> []" using assms by auto
      ultimately show ?thesis using mn assms by (simp add: last_conv_nth min_def)
    qed
    ultimately have "take (Suc (n div 2)) (ids'[n div 2 := ids' ! ?m]) = front @ [last ?rest]"
      using ids'(3) by (simp add: take_Suc_conv_app_nth)
    also have "\<dots> = pair_up h ?rest" using pair_up_odd[of ?rest h] True assms by (simp add: front_def)
    finally show ?thesis using True by (simp add: merkle_level_def Let_def ids'(1))
  next
    case False
    then have "(n + 1) div 2 = n div 2" by presburger
    then show ?thesis using False assms pair_up_even[of ?rest h] ids'(1,3)
      by (simp add: merkle_level_def Let_def front_def)
  qed
qed

function merkle_loop :: "('d \<Rightarrow> 'd \<Rightarrow> 'd) \<Rightarrow> nat \<Rightarrow> 'd list \<Rightarrow> 'd" where
  "merkle_loop h n ids =
    (if n > 1 then merkle_loop h (fst (merkle_level h n ids)) (snd (merkle_level h n ids)) else ids ! 0)"
  by pat_completeness auto
termination by (relation "measure (\<lambda>(_, n, _). n)") (auto simp: fst_merkle_level)

declare merkle_loop.simps [simp del]

definition calculate_merkle_root :: "('t \<Rightarrow> 'd) \<Rightarrow> ('d \<Rightarrow> 'd \<Rightarrow> 'd) \<Rightarrow> ('d \<Rightarrow> nat) \<Rightarrow> 't signed_block \<Rightarrow> nat" where
  "calculate_merkle_root merkle_digest hash2 checksum b =
    (if length (transactions b) = 0 then 0
     else let ids = map merkle_digest (transactions b)
          in checksum (merkle_loop hash2 (length ids) ids))"

function merkle_ref :: "('d \<Rightarrow> 'd \<Rightarrow> 'd) \<Rightarrow> 'd list \<Rightarrow> 'd" where
  "merkle_ref h xs = (if length xs > 1 then merkle_ref h (pair_up h xs) else hd xs)"
  by pat_completeness auto
termination by (relation "measure (\<lambda>(_, xs). length xs)") (auto simp: length_pair_up)

declare merkle_ref.simps [simp del]

lemma merkle_loop_ref:
  assumes "0 < n" "n \<le> length ids"
  shows "merkle_loop h n ids = merkle_ref h (take n ids)"
  using assms
proof (induction h n ids rule: merkle_loop.induct)
  case (1 h n ids)
  show ?case
  proof (cases "n > 1")
    case True
    let ?k = "(n + 1) div 2" and ?ids = "snd (merkle_level h n ids)"
    have "merkle_loop h n ids = merkle_loop h ?k ?ids"
      using True by (simp add: merkle_loop.simps[of h n] fst_merkle_level)
    also have "\<dots> = merkle_ref h (take ?k ?ids)"
      using "1.IH"[OF True] True "1.prems" merkle_level_spec(2)[OF "1.prems", of h]
      by (simp add: fst_merkle_level)
    also have "\<dots> = merkle_ref h (take n ids)"
      using merkle_level_spec(1)[OF "1.prems", of h] True "1.prems"
      by (simp add: merkle_ref.simps[of h "take n ids"])
    finally show ?thesis .
  next
    case False
    then have "n = 1" using "1.prems" by simp
    then show ?thesis using "1.prems"
      by (cases ids) (simp_all add: merkle_loop.simps[of h] merkle_ref.simps[of h "[_]"])
  qed
qed

definition collision_free :: "('d \<Rightarrow> 'd \<Rightarrow> 'd) \<Rightarrow> bool" where
  "collision_free h \<longleftrightarrow> (\<forall>a b c d. h a b = h c d \<longrightarrow> a = c \<and> b = d)"

lemma pair_up_inj:
  "collision_free h \<Longrightarrow> length xs = length ys \<Longrightarrow> pair_up h xs = pair_up h ys \<Longrightarrow> xs = ys"
proof (induction h xs arbitrary: ys rule: pair_up.induct)
  case (1 h x y zs)
  then obtain x' y' zs' where ys: "ys = x' # y' # zs'" by (cases ys; cases "tl ys") auto
  have "h x y = h x' y'" using 1(4) ys by simp
  then have "x = x' \<and> y = y'" using 1(2) unfolding collision_free_def by blast
  moreover have "zs = zs'" by (rule 1(1)) (use 1 ys in auto)
  ultimately show ?case using ys by simp
qed (auto simp: length_Suc_conv eq_commute[of "Suc 0"])

lemma merkle_ref_inj:
  "collision_free h \<Longrightarrow> length xs = length ys \<Longrightarrow> 0 < length xs \<Longrightarrow>
    merkle_ref h xs = merkle_ref h ys \<Longrightarrow> xs = ys"
proof (induction h xs arbitrary: ys rule: merkle_ref.induct)
  case (1 h xs)
  show ?case
  proof (cases "length xs > 1")
    case True
    then have "merkle_ref h (pair_up h xs) = merkle_ref h (pair_up h ys)"
      using "1.prems" by (simp add: merkle_ref.simps[of h xs] merkle_ref.simps[of h ys])
    then have "pair_up h xs = pair_up h ys"
      by (intro "1.IH") (use True "1.prems" in \<open>auto simp: length_pair_up\<close>)
    then show ?thesis using pair_up_inj "1.prems"(1,2) by blast
  next
    case False
    then show ?thesis using "1.prems"
      by (cases xs; cases ys) (auto simp: merkle_ref.simps[of h "[_]"])
  qed
qed

subsection \<open>Properties\<close>



end
