(* ===== verification/Fork_Database.thy ===== *)
theory Fork_Database
  imports Blocks
begin

text \<open>The fork database: \<open>chain/fork_database.hpp\<close> and \<open>fork_database.cpp\<close>.

  A \<open>fork_item\<close> is a heap object held by shared pointers and linked by a weak pointer to its
  predecessor, so the model has a store from addresses to items; a weak pointer is an address, and
  \<open>lock\<close> succeeds while the item is owned by the index, by the cache of unlinked blocks or by \<open>_head\<close>.
  The multi-index container is the list of the addresses in the order of the block number (equal
  numbers in insertion order), unique in the block id.

  The loops of \<open>fetch_branch_from\<close> follow \<open>prev\<close> pointers and could run forever on a cyclic heap; they are
  partial functions whose value \<open>None\<close> means that they do not return. The invariant \<open>fork_inv\<close>, kept by
  every operation, makes the numbers decrease along the pointers, and the loops are proved to return.\<close>

record 't fork_item =
  prev :: "nat option"
  num :: nat
  invalid :: bool
  item_id :: block_id
  data :: "'t signed_block"

record 't fork_database =
  store :: "(nat, 't fork_item) fmap"
  next_addr :: nat
  index :: "nat list"
  unlinked_index :: "nat list"
  head :: "nat option"
  fork_max_size :: nat

definition item :: "'t fork_database \<Rightarrow> nat \<Rightarrow> 't fork_item" where
  "item db a = the (fmlookup (store db) a)"

definition alive :: "'t fork_database \<Rightarrow> nat \<Rightarrow> bool" where
  "alive db a \<longleftrightarrow> a \<in> set (index db) \<or> a \<in> set (unlinked_index db) \<or> head db = Some a"

text \<open>\<open>prev.lock()\<close>\<close>

definition lock_prev :: "'t fork_database \<Rightarrow> nat \<Rightarrow> nat option" where
  "lock_prev db a = (case prev (item db a) of None \<Rightarrow> None | Some p \<Rightarrow> if alive db p then Some p else None)"

definition find_id :: "'t fork_database \<Rightarrow> nat list \<Rightarrow> block_id \<Rightarrow> nat option" where
  "find_id db ix i = find (\<lambda>a. item_id (item db a) = i) ix"

definition init_fork_db :: "'t fork_database" where
  "init_fork_db = \<lparr>store = fmempty, next_addr = 0, index = [], unlinked_index = [], head = None, fork_max_size = 1024\<rparr>"

definition reset :: "'t fork_database \<Rightarrow> 't fork_database" where
  "reset db = db\<lparr>head := None, index := []\<rparr>"

definition pop_block :: "'t fork_database \<Rightarrow> 't fork_database res" where
  "pop_block db =
    (case head db of
       None \<Rightarrow> Inl AssertFail
     | Some h \<Rightarrow> (case lock_prev db h of
         None \<Rightarrow> Inl AssertFail
       | Some p \<Rightarrow> Inr (db\<lparr>head := Some p\<rparr>)))"

text \<open>\<open>std::make_shared<fork_item>(b)\<close>\<close>

definition make_item :: "('t signed_block \<Rightarrow> nat) \<Rightarrow> 't signed_block \<Rightarrow> 't fork_item" where
  "make_item header_hash b =
    \<lparr>prev = None, num = block_num b, invalid = False, item_id = block_id_of header_hash b, data = b\<rparr>"

definition alloc :: "'t fork_item \<Rightarrow> 't fork_database \<Rightarrow> nat \<times> 't fork_database" where
  "alloc it db = (next_addr db, db\<lparr>store := fmupd (next_addr db) it (store db), next_addr := next_addr db + 1\<rparr>)"

definition index_insert :: "nat \<Rightarrow> 't fork_database \<Rightarrow> 't fork_database" where
  "index_insert a db =
    (if find_id db (index db) (item_id (item db a)) \<noteq> None then db
     else db\<lparr>index := takeWhile (\<lambda>x. num (item db x) \<le> num (item db a)) (index db) @
                      a # dropWhile (\<lambda>x. num (item db x) \<le> num (item db a)) (index db)\<rparr>)"

definition start_block :: "('t signed_block \<Rightarrow> nat) \<Rightarrow> 't signed_block \<Rightarrow> 't fork_database \<Rightarrow> 't fork_database" where
  "start_block header_hash b db =
    (case alloc (make_item header_hash b) db of
       (a, db) \<Rightarrow> (index_insert a db)\<lparr>head := Some a\<rparr>)"

text \<open>\<open>_push_block\<close> in its three parts: the age check, the link to the predecessor, the insertion.\<close>

definition check_age :: "nat \<Rightarrow> 't fork_database \<Rightarrow> unit res" where
  "check_age a db =
    (case head db of
       None \<Rightarrow> Inr ()
     | Some h \<Rightarrow>
         fc_assert (int (num (item db a)) > max 0 (int (num (item db h)) - int (fork_max_size db))) (Inr ()))"

definition link_item :: "nat \<Rightarrow> 't fork_database \<Rightarrow> 't fork_database res" where
  "link_item a db =
    (if head db \<noteq> None \<and> previous (data (item db a)) \<noteq> null_block_id then
       (case find_id db (index db) (previous (data (item db a))) of
          None \<Rightarrow> Inl UnlinkableBlock
        | Some p \<Rightarrow> fc_assert (\<not> invalid (item db p))
            (Inr (db\<lparr>store := fmupd a ((item db a)\<lparr>prev := Some p\<rparr>) (store db)\<rparr>)))
     else Inr db)"

definition settle_item :: "nat \<Rightarrow> 't fork_database \<Rightarrow> 't fork_database" where
  "settle_item a db0 =
    (let db = index_insert a db0 in
     case head db of
       None \<Rightarrow> db\<lparr>head := Some a\<rparr>
     | Some h \<Rightarrow>
         (if num (item db a) > num (item db h) then
            (let min_num = num (item db a) - min (fork_max_size db) (num (item db a));
                 gone = (num (item db a) + 2 ^ 32 - fork_max_size db mod 2 ^ 32) mod 2 ^ 32
             in db\<lparr>head := Some a,
                   index := dropWhile (\<lambda>x. num (item db x) < min_num) (index db),
                   unlinked_index := filter (\<lambda>x. num (item db x) \<noteq> gone) (unlinked_index db)\<rparr>)
          else db))"

definition push_item :: "nat \<Rightarrow> 't fork_database \<Rightarrow> 't fork_database res" where
  "push_item a db =
    rbind (check_age a db) (\<lambda>_. rbind (link_item a db) (\<lambda>db. Inr (settle_item a db)))"

text \<open>\<open>push_block\<close>: the exception is rethrown before the statement that would cache the block.\<close>

definition push_block :: "('t signed_block \<Rightarrow> nat) \<Rightarrow> 't signed_block \<Rightarrow> 't fork_database \<Rightarrow> (nat option \<times> 't fork_database) res" where
  "push_block header_hash b db =
    (case alloc (make_item header_hash b) db of
       (a, db) \<Rightarrow> rbind (push_item a db) (\<lambda>db. Inr (head db, db)))"

definition set_max_size :: "nat \<Rightarrow> 't fork_database \<Rightarrow> 't fork_database" where
  "set_max_size s db =
    (let db = db\<lparr>fork_max_size := s\<rparr> in
     case head db of
       None \<Rightarrow> db
     | Some h \<Rightarrow>
         (let low = max 0 (int (num (item db h)) - int s) in
          db\<lparr>index := dropWhile (\<lambda>x. int (num (item db x)) < low) (index db),
             unlinked_index := dropWhile (\<lambda>x. int (num (item db x)) < low) (unlinked_index db)\<rparr>))"

definition is_known_block :: "'t fork_database \<Rightarrow> block_id \<Rightarrow> bool" where
  "is_known_block db i \<longleftrightarrow> find_id db (index db) i \<noteq> None \<or> find_id db (unlinked_index db) i \<noteq> None"

definition fetch_block :: "'t fork_database \<Rightarrow> block_id \<Rightarrow> nat option" where
  "fetch_block db i =
    (case find_id db (index db) i of Some a \<Rightarrow> Some a | None \<Rightarrow> find_id db (unlinked_index db) i)"

definition fetch_block_by_number :: "'t fork_database \<Rightarrow> nat \<Rightarrow> nat list" where
  "fetch_block_by_number db n =
    takeWhile (\<lambda>a. num (item db a) = n) (dropWhile (\<lambda>a. num (item db a) \<noteq> n) (index db))"

text \<open>\<open>while( x->data.block_num() > n ) { branch.push_back( x ); x = x->prev.lock(); FC_ASSERT( x ); }\<close>\<close>

partial_function (option) walk_down :: "'t fork_database \<Rightarrow> nat \<Rightarrow> nat \<Rightarrow> nat list \<Rightarrow> (nat list \<times> nat) res option" where
  "walk_down db n x branch =
    (if block_num (data (item db x)) > n
     then (case lock_prev db x of
        None \<Rightarrow> Some (Inl AssertFail)
      | Some p \<Rightarrow> walk_down db n p (branch @ [x]))
     else Some (Inr (branch, x)))"

partial_function (option) walk_both :: "'t fork_database \<Rightarrow> nat \<Rightarrow> nat \<Rightarrow> nat list \<Rightarrow> nat list \<Rightarrow> (nat list \<times> nat list) res option" where
  "walk_both db x y bx by =
    (if previous (data (item db x)) \<noteq> previous (data (item db y))
     then (case lock_prev db x of
        None \<Rightarrow> Some (Inl AssertFail)
      | Some p \<Rightarrow> (case lock_prev db y of
          None \<Rightarrow> Some (Inl AssertFail)
        | Some q \<Rightarrow> walk_both db p q (bx @ [x]) (by @ [y])))
     else Some (Inr (bx @ [x], by @ [y])))"

definition fetch_branch_from :: "'t fork_database \<Rightarrow> block_id \<Rightarrow> block_id \<Rightarrow> (nat list \<times> nat list) res option" where
  "fetch_branch_from db first second =
    (case find_id db (index db) first of
       None \<Rightarrow> Some (Inl AssertFail)
     | Some x \<Rightarrow> (case find_id db (index db) second of
         None \<Rightarrow> Some (Inl AssertFail)
       | Some y \<Rightarrow>
           Option.bind (walk_down db (block_num (data (item db y))) x []) (\<lambda>r.
           case r of Inl e \<Rightarrow> Some (Inl e) | Inr (bx, x) \<Rightarrow>
           Option.bind (walk_down db (block_num (data (item db x))) y []) (\<lambda>r.
           case r of Inl e \<Rightarrow> Some (Inl e) | Inr (by, y) \<Rightarrow>
           walk_both db x y bx by))))"

definition set_head :: "nat option \<Rightarrow> 't fork_database \<Rightarrow> 't fork_database" where
  "set_head h db = db\<lparr>head := h\<rparr>"

definition remove_block :: "block_id \<Rightarrow> 't fork_database \<Rightarrow> 't fork_database" where
  "remove_block i db = db\<lparr>index := filter (\<lambda>a. item_id (item db a) \<noteq> i) (index db)\<rparr>"

subsection \<open>The invariant\<close>

definition store_ok :: "('t signed_block \<Rightarrow> nat) \<Rightarrow> (nat, 't fork_item) fmap \<Rightarrow> nat \<Rightarrow> bool" where
  "store_ok header_hash st nx \<longleftrightarrow> (\<forall>a it. fmlookup st a = Some it \<longrightarrow>
     a < nx \<and> num it = block_num (data it) \<and> item_id it = block_id_of header_hash (data it) \<and>
     (\<forall>p. prev it = Some p \<longrightarrow> p < a \<and> (\<exists>q. fmlookup st p = Some q \<and> item_id q = previous (data it))))"

definition index_ok :: "(nat, 't fork_item) fmap \<Rightarrow> nat list \<Rightarrow> bool" where
  "index_ok st ix \<longleftrightarrow> set ix \<subseteq> fmdom' st \<and> sorted (map (\<lambda>a. num (the (fmlookup st a))) ix) \<and>
     distinct (map (\<lambda>a. item_id (the (fmlookup st a))) ix)"

definition fork_inv :: "('t signed_block \<Rightarrow> nat) \<Rightarrow> 't fork_database \<Rightarrow> bool" where
  "fork_inv header_hash db \<longleftrightarrow> store_ok header_hash (store db) (next_addr db) \<and> index_ok (store db) (index db) \<and>
     unlinked_index db = [] \<and> (\<forall>h. head db = Some h \<longrightarrow> h \<in> fmdom' (store db))"

definition head_max :: "'t fork_database \<Rightarrow> bool" where
  "head_max db \<longleftrightarrow> (\<forall>a\<in>set (index db). \<exists>h. head db = Some h \<and> num (item db a) \<le> num (item db h))"

lemma store_ok_item:
  assumes "store_ok H st nx" "fmlookup st a = Some it"
  shows "a < nx" "num it = block_num (data it)" "item_id it = block_id_of H (data it)"
  using assms unfolding store_ok_def by blast+

lemma store_ok_prev:
  assumes "store_ok H st nx" "fmlookup st a = Some it" "prev it = Some p"
  obtains q where "p < a" "fmlookup st p = Some q" "item_id q = previous (data it)"
  using assms unfolding store_ok_def by blast

lemma store_ok_alloc:
  assumes "store_ok H st nx" "num it = block_num (data it)" "item_id it = block_id_of H (data it)"
    "\<And>p. prev it = Some p \<Longrightarrow> \<exists>q. fmlookup st p = Some q \<and> item_id q = previous (data it)"
  shows "store_ok H (fmupd nx it st) (Suc nx)"
  unfolding store_ok_def
proof (intro allI impI)
  fix a i assume ai: "fmlookup (fmupd nx it st) a = Some i"
  show "a < Suc nx \<and> num i = block_num (data i) \<and> item_id i = block_id_of H (data i) \<and>
     (\<forall>p. prev i = Some p \<longrightarrow> p < a \<and> (\<exists>q. fmlookup (fmupd nx it st) p = Some q \<and> item_id q = previous (data i)))"
  proof (cases "a = nx")
    case True
    have "p < nx \<and> (\<exists>q. fmlookup (fmupd nx it st) p = Some q \<and> item_id q = previous (data it))"
      if "prev it = Some p" for p
    proof -
      obtain q where q: "fmlookup st p = Some q" "item_id q = previous (data it)" using assms(4)[OF \<open>prev it = Some p\<close>] by blast
      then have "p < nx" using store_ok_item(1)[OF assms(1)] by blast
      with q show ?thesis by auto
    qed
    then show ?thesis using True ai assms(2,3) by auto
  next
    case False
    then have i: "fmlookup st a = Some i" using ai by simp
    have "p < a \<and> (\<exists>q. fmlookup (fmupd nx it st) p = Some q \<and> item_id q = previous (data i))"
      if pr: "prev i = Some p" for p
    proof -
      obtain q where q: "p < a" "fmlookup st p = Some q" "item_id q = previous (data i)"
        by (rule store_ok_prev[OF assms(1) i pr])
      moreover have "p \<noteq> nx" using q(1) store_ok_item(1)[OF assms(1) i] by simp
      ultimately show ?thesis by auto
    qed
    then show ?thesis using store_ok_item[OF assms(1) i] by auto
  qed
qed

lemma index_ok_alloc:
  assumes "store_ok H st nx" "index_ok st ix"
  shows "index_ok (fmupd nx it st) ix" "nx \<notin> set ix"
proof -
  show nx: "nx \<notin> set ix"
  proof
    assume "nx \<in> set ix"
    then obtain it where "fmlookup st nx = Some it"
      using assms(2) unfolding index_ok_def by (force simp: fmlookup_dom'_iff)
    then show False using store_ok_item(1)[OF assms(1)] by blast
  qed
  have eq: "map (\<lambda>a. num (the (fmlookup (fmupd nx it st) a))) ix = map (\<lambda>a. num (the (fmlookup st a))) ix"
    "map (\<lambda>a. item_id (the (fmlookup (fmupd nx it st) a))) ix = map (\<lambda>a. item_id (the (fmlookup st a))) ix"
    using nx by (auto intro!: map_cong)
  show "index_ok (fmupd nx it st) ix" using assms(2) unfolding index_ok_def eq by auto
qed

lemma sorted_key_insert:
  fixes f :: "'a \<Rightarrow> nat"
  assumes "sorted (map f xs)"
  shows "sorted (map f (takeWhile (\<lambda>x. f x \<le> f a) xs @ a # dropWhile (\<lambda>x. f x \<le> f a) xs))"
  using assms
proof (induction xs)
  case (Cons x xs)
  show ?case
  proof (cases "f x \<le> f a")
    case True
    have "set (takeWhile (\<lambda>x. f x \<le> f a) xs @ a # dropWhile (\<lambda>x. f x \<le> f a) xs) \<subseteq> insert a (set xs)"
      by (auto dest: set_takeWhileD set_dropWhileD)
    moreover have "\<forall>y\<in>insert a (set xs). f x \<le> f y" using Cons.prems True by auto
    ultimately show ?thesis using True Cons by auto
  next
    case False
    then show ?thesis using Cons.prems by auto
  qed
qed simp

lemma find_id_None: "find_id db ix i = None \<longleftrightarrow> (\<forall>a\<in>set ix. item_id (item db a) \<noteq> i)"
  by (auto simp: find_id_def find_None_iff)

lemma find_id_Some: "find_id db ix i = Some a \<Longrightarrow> a \<in> set ix \<and> item_id (item db a) = i"
  by (auto simp: find_id_def find_Some_iff)

lemma index_insert_fields [simp]:
  "store (index_insert a db) = store db" "next_addr (index_insert a db) = next_addr db"
  "head (index_insert a db) = head db" "unlinked_index (index_insert a db) = unlinked_index db"
  "fork_max_size (index_insert a db) = fork_max_size db" "item (index_insert a db) = item db"
  by (auto simp: index_insert_def item_def)

lemma distinct_map_insert: "distinct (map f (a # (xs @ ys))) \<Longrightarrow> distinct (map f (xs @ a # ys))"
  by auto

lemma index_insert_ok:
  assumes "index_ok (store db) (index db)" "fmlookup (store db) a \<noteq> None"
  shows "index_ok (store db) (index (index_insert a db))"
    and "set (index (index_insert a db)) \<subseteq> insert a (set (index db))"
    and "find_id db (index (index_insert a db)) (item_id (item db a)) \<noteq> None"
proof -
  let ?ix = "takeWhile (\<lambda>x. num (item db x) \<le> num (item db a)) (index db) @
      a # dropWhile (\<lambda>x. num (item db x) \<le> num (item db a)) (index db)"
  have set: "set ?ix = insert a (set (index db))"
    by (metis (no_types, lifting) Un_insert_right list.simps(15) set_append takeWhile_dropWhile_id)
  show "index_ok (store db) (index (index_insert a db))"
  proof (cases "find_id db (index db) (item_id (item db a))")
    case None
    have "distinct (map (\<lambda>x. item_id (item db x)) ?ix)"
    proof -
      have d: "distinct (map (\<lambda>x. item_id (item db x)) (index db))"
        using assms(1) by (simp add: index_ok_def item_def)
      let ?P = "\<lambda>x. num (item db x) \<le> num (item db a)"
      have "distinct (map (\<lambda>x. item_id (item db x)) (a # (takeWhile ?P (index db) @ dropWhile ?P (index db))))"
        unfolding takeWhile_dropWhile_id using d None by (auto simp: find_id_None)
      then show ?thesis by (rule distinct_map_insert)
    qed
    moreover have "sorted (map (\<lambda>x. num (item db x)) ?ix)"
      by (rule sorted_key_insert) (use assms(1) in \<open>simp add: index_ok_def item_def\<close>)
    moreover have "set ?ix \<subseteq> fmdom' (store db)"
      using assms unfolding set by (auto simp: index_ok_def fmdom'_iff)
    ultimately show ?thesis using None by (simp add: index_insert_def index_ok_def item_def)
  qed (use assms(1) in \<open>simp add: index_insert_def\<close>)
  show "set (index (index_insert a db)) \<subseteq> insert a (set (index db))"
    using set by (auto simp: index_insert_def)
  show "find_id db (index (index_insert a db)) (item_id (item db a)) \<noteq> None"
    using set by (auto simp: index_insert_def find_id_None)
qed

lemma index_ok_dropWhile: "index_ok st ix \<Longrightarrow> index_ok st (dropWhile P ix)"
  unfolding index_ok_def
  by (auto simp: dropWhile_eq_drop drop_map[symmetric] dest: in_set_dropD intro: sorted_wrt_drop distinct_drop)

lemma index_ok_filter: "index_ok st ix \<Longrightarrow> index_ok st (filter P ix)"
  unfolding index_ok_def by (auto intro: sorted_filter distinct_map_filter)

lemma index_ok_Nil [simp]: "index_ok st []"
  by (simp add: index_ok_def)

lemma sorted_dropWhile_set:
  fixes f :: "'a \<Rightarrow> nat"
  shows "sorted (map f xs) \<Longrightarrow> set (dropWhile (\<lambda>x. f x < n) xs) = {x \<in> set xs. n \<le> f x}"
  by (induction xs) auto

subsection \<open>Pushing a block\<close>

definition with_item :: "'t fork_item \<Rightarrow> 't fork_database \<Rightarrow> 't fork_database" where
  "with_item it db = db\<lparr>store := fmupd (next_addr db) it (store db), next_addr := next_addr db + 1\<rparr>"

lemma item_with_item: "item (with_item it db) x = (if x = next_addr db then it else item db x)"
  by (simp add: item_def with_item_def)

lemma make_item_sel [simp]:
  "prev (make_item H b) = None" "num (make_item H b) = block_num b" "data (make_item H b) = b"
  "item_id (make_item H b) = block_id_of H b"
  by (simp_all add: make_item_def)

lemma make_item_prev [simp]: "(make_item H b)\<lparr>prev := None\<rparr> = make_item H b"
  by (simp add: make_item_def)

lemma fmupd_twice [simp]: "fmupd k v (fmupd k w m) = fmupd k v m"
  by (rule fmap_ext) simp

text \<open>A successful push allocates the item, links it, inserts it and moves the head.\<close>

lemma link_item_cases:
  assumes "link_item (next_addr db) (with_item (make_item H b) db) = Inr db2"
  obtains p where "db2 = with_item ((make_item H b)\<lparr>prev := p\<rparr>) db"
    "\<forall>q. p = Some q \<longrightarrow> q \<in> set (index db) \<and> item_id (item (with_item (make_item H b) db) q) = previous b"
proof -
  let ?a = "next_addr db" and ?db1 = "with_item (make_item H b) db"
  have f: "item ?db1 ?a = make_item H b" "head ?db1 = head db" "index ?db1 = index db"
    by (simp_all add: item_with_item) (simp_all add: with_item_def)
  show thesis
  proof (cases "head db \<noteq> None \<and> previous b \<noteq> null_block_id")
    case True
    then obtain q where q: "find_id ?db1 (index db) (previous b) = Some q"
      and db2: "db2 = ?db1\<lparr>store := fmupd ?a ((make_item H b)\<lparr>prev := Some q\<rparr>) (store ?db1)\<rparr>"
      using assms by (auto simp: link_item_def f split: option.splits)
    show thesis by (rule that[of "Some q"]) (use db2 find_id_Some[OF q] in \<open>auto simp: with_item_def\<close>)
  next
    case False
    then have "db2 = ?db1" using assms by (auto simp: link_item_def f)
    then show thesis by (intro that[of None]) simp_all
  qed
qed

lemma push_block_cases:
  assumes "push_block H b db = Inr (h, db')"
  obtains p db3 where
    "db3 = index_insert (next_addr db) (with_item ((make_item H b)\<lparr>prev := p\<rparr>) db)"
    "\<forall>q. p = Some q \<longrightarrow> q \<in> set (index db) \<and> item_id (item (with_item (make_item H b) db) q) = previous b"
    "h = head db'"
    "db' = (case head db of None \<Rightarrow> db3\<lparr>head := Some (next_addr db)\<rparr>
       | Some hh \<Rightarrow> if block_num b > num (item db3 hh)
           then db3\<lparr>head := Some (next_addr db),
                 index := dropWhile (\<lambda>x. num (item db3 x) < block_num b - min (fork_max_size db) (block_num b)) (index db3),
                 unlinked_index := filter (\<lambda>x. num (item db3 x) \<noteq>
                    (block_num b + 2 ^ 32 - fork_max_size db mod 2 ^ 32) mod 2 ^ 32) (unlinked_index db)\<rparr>
           else db3)"
proof -
  let ?a = "next_addr db" and ?db1 = "with_item (make_item H b) db"
  have al: "alloc (make_item H b) db = (?a, ?db1)" by (simp add: alloc_def with_item_def)
  obtain db2 where l: "link_item ?a ?db1 = Inr db2" and db': "db' = settle_item ?a db2" and h: "h = head db'"
    using assms by (auto simp: push_block_def al push_item_def)
  obtain p where p: "db2 = with_item ((make_item H b)\<lparr>prev := p\<rparr>) db"
      "\<forall>q. p = Some q \<longrightarrow> q \<in> set (index db) \<and> item_id (item ?db1 q) = previous b"
    using link_item_cases[OF l] by blast
  have n: "num (item db2 ?a) = block_num b" by (simp add: p(1) item_with_item make_item_def)
  have f: "head db2 = head db" "fork_max_size db2 = fork_max_size db" "unlinked_index db2 = unlinked_index db"
    by (simp_all add: p(1) with_item_def)
  show thesis
    by (rule that[OF _ p(2) h, of "index_insert ?a db2"])
      (simp add: p(1), simp add: db' settle_item_def Let_def n f split: option.split)
qed

lemma fork_inv_linked:
  assumes inv: "fork_inv H db"
    and db3: "db3 = index_insert (next_addr db) (with_item ((make_item H b)\<lparr>prev := p\<rparr>) db)"
    and p: "\<forall>q. p = Some q \<longrightarrow> q \<in> set (index db) \<and> item_id (item (with_item (make_item H b) db) q) = previous b"
  shows "fork_inv H db3" "fmlookup (store db3) (next_addr db) = Some ((make_item H b)\<lparr>prev := p\<rparr>)"
    "\<And>x. x \<noteq> next_addr db \<Longrightarrow> item db3 x = item db x"
    "set (index db3) \<subseteq> insert (next_addr db) (set (index db))" "head db3 = head db"
    "find_id db3 (index db3) (block_id_of H b) \<noteq> None" "unlinked_index db3 = []" "next_addr db \<notin> set (index db)"
proof -
  let ?a = "next_addr db" and ?it = "(make_item H b)\<lparr>prev := p\<rparr>"
  have st: "store_ok H (store db) ?a" and ix: "index_ok (store db) (index db)" and un: "unlinked_index db = []"
    and hd: "\<And>h. head db = Some h \<Longrightarrow> h \<in> fmdom' (store db)"
    using inv unfolding fork_inv_def by auto
  show nx: "?a \<notin> set (index db)" by (rule index_ok_alloc(2)[OF st ix])
  have prev: "\<exists>r. fmlookup (store db) q = Some r \<and> item_id r = previous b" if q: "p = Some q" for q
  proof -
    have "q \<noteq> ?a" "q \<in> fmdom' (store db)" using p[rule_format, OF q] nx ix by (auto simp: index_ok_def)
    then show ?thesis using p[rule_format, OF q] by (auto simp: item_with_item fmlookup_dom'_iff) (simp add: item_def)
  qed
  have st': "store_ok H (fmupd ?a ?it (store db)) (Suc ?a)"
    by (rule store_ok_alloc[OF st]) (use prev in \<open>auto simp: make_item_def\<close>)
  have ix': "index_ok (store (with_item ?it db)) (index (with_item ?it db))"
    using index_ok_alloc(1)[OF st ix] by (simp add: with_item_def)
  note ins = index_insert_ok[of "with_item ?it db" ?a, OF ix']
  have w: "fmlookup (store (with_item ?it db)) ?a = Some ?it" by (simp add: with_item_def)
  show "fork_inv H db3"
    using st' ins(1) w un hd by (auto simp: fork_inv_def db3 with_item_def fmdom'_iff)
  show "fmlookup (store db3) ?a = Some ?it" by (simp add: db3 with_item_def)
  show "item db3 x = item db x" if "x \<noteq> ?a" for x using that by (simp add: db3 item_with_item)
  show "set (index db3) \<subseteq> insert ?a (set (index db))" using ins(2) w by (simp add: db3 with_item_def)
  show "head db3 = head db" "unlinked_index db3 = []" using un by (simp_all add: db3 with_item_def)
  show "find_id db3 (index db3) (block_id_of H b) \<noteq> None"
    using ins(3) w by (simp add: db3 item_with_item make_item_def find_id_def)
qed

lemma fork_inv_push:
  assumes inv: "fork_inv H db" and push: "push_block H b db = Inr (h, db')"
  shows "fork_inv H db'"
proof -
  obtain p db3 where d: "db3 = index_insert (next_addr db) (with_item ((make_item H b)\<lparr>prev := p\<rparr>) db)"
    "\<forall>q. p = Some q \<longrightarrow> q \<in> set (index db) \<and> item_id (item (with_item (make_item H b) db) q) = previous b"
    and db': "db' = (case head db of None \<Rightarrow> db3\<lparr>head := Some (next_addr db)\<rparr>
       | Some hh \<Rightarrow> if block_num b > num (item db3 hh)
           then db3\<lparr>head := Some (next_addr db),
                 index := dropWhile (\<lambda>x. num (item db3 x) < block_num b - min (fork_max_size db) (block_num b)) (index db3),
                 unlinked_index := filter (\<lambda>x. num (item db3 x) \<noteq>
                    (block_num b + 2 ^ 32 - fork_max_size db mod 2 ^ 32) mod 2 ^ 32) (unlinked_index db)\<rparr>
           else db3)"
    by (rule push_block_cases[OF push]) blast
  note l = fork_inv_linked[OF inv d]
  have "unlinked_index db = []" using inv by (simp add: fork_inv_def)
  moreover have "next_addr db \<in> fmdom' (store db3)" using l(2) by (simp add: fmdom'_iff)
  ultimately show ?thesis
    using l(1) index_ok_dropWhile
    by (auto simp: db' fork_inv_def split: option.splits)
qed

lemma head_max_push:
  assumes inv: "fork_inv H db" and hm: "head_max db" and push: "push_block H b db = Inr (h, db')"
  shows "head_max db'" "find_id db' (index db') (block_id_of H b) \<noteq> None" "h = head db'"
    "\<exists>a. head db' = Some a \<and> num (item db' a) = max (block_num b) (case head db of None \<Rightarrow> 0 | Some a \<Rightarrow> num (item db a))"
proof -
  let ?a = "next_addr db"
  obtain p db3 where d: "db3 = index_insert ?a (with_item ((make_item H b)\<lparr>prev := p\<rparr>) db)"
    "\<forall>q. p = Some q \<longrightarrow> q \<in> set (index db) \<and> item_id (item (with_item (make_item H b) db) q) = previous b"
    and h: "h = head db'"
    and db': "db' = (case head db of None \<Rightarrow> db3\<lparr>head := Some ?a\<rparr>
       | Some hh \<Rightarrow> if block_num b > num (item db3 hh)
           then db3\<lparr>head := Some ?a,
                 index := dropWhile (\<lambda>x. num (item db3 x) < block_num b - min (fork_max_size db) (block_num b)) (index db3),
                 unlinked_index := filter (\<lambda>x. num (item db3 x) \<noteq>
                    (block_num b + 2 ^ 32 - fork_max_size db mod 2 ^ 32) mod 2 ^ 32) (unlinked_index db)\<rparr>
           else db3)"
    by (rule push_block_cases[OF push]) blast
  note l = fork_inv_linked[OF inv d]
  have na: "num (item db3 ?a) = block_num b" using l(2) by (simp add: item_def make_item_def)
  have "?a \<notin> fmdom' (store db)"
    using inv store_ok_item(1)[of H "store db" ?a ?a] by (force simp: fork_inv_def fmlookup_dom'_iff)
  then have hd: "item db3 x = item db x" if "head db = Some x" for x
    using that inv l(3)[of x] by (auto simp: fork_inv_def)
  have old: "\<exists>x. head db = Some x \<and> num (item db3 y) \<le> num (item db x)" if "y \<in> set (index db3)" "y \<noteq> ?a" for y
    using that l(4) l(3)[of y] hm by (auto simp: head_max_def)
  have ix: "sorted (map (\<lambda>x. num (item db3 x)) (index db3))"
    using l(1) by (auto simp: fork_inv_def index_ok_def item_def)
  have it: "item db' = item db3" by (auto simp: db' item_def fun_eq_iff split: option.splits)
  have keep: "find_id db3 (index db3) (block_id_of H b) = Some y \<Longrightarrow> num (item db3 y) = block_num b" for y
    using find_id_Some[of db3 "index db3" "block_id_of H b" y] l(1) store_ok_item(2,3)[of H "store db3" "next_addr db3" y]
    by (fastforce simp: fork_inv_def index_ok_def item_def fmlookup_dom'_iff block_id_of_def)
  show "h = head db'" by (rule h)
  show "head_max db'"
  proof (cases "head db")
    case None
    then show ?thesis using old l(4) na hm
      by (force simp: head_max_def db' item_def)
  next
    case (Some x)
    have le: "num (item db3 y) \<le> max (block_num b) (num (item db x))" if "y \<in> set (index db3)" for y
      using old[OF that] na Some by (cases "y = ?a") auto
    have sub: "set (index db') \<subseteq> set (index db3)" by (auto simp: db' Some dest: set_dropWhileD)
    show ?thesis
    proof (cases "block_num b > num (item db x)")
      case True
      then have "head db' = Some ?a" using Some hd[OF Some] by (simp add: db')
      then show ?thesis using le sub True na unfolding head_max_def it by fastforce
    next
      case False
      then have "head db' = Some x" using Some hd[OF Some] l(5) by (simp add: db')
      then show ?thesis using le sub False hd[OF Some] unfolding head_max_def it by fastforce
    qed
  qed
  show "find_id db' (index db') (block_id_of H b) \<noteq> None"
  proof (cases "index db' = index db3")
    case True
    then show ?thesis using l(6) it by (simp add: find_id_def)
  next
    case False
    then have ix': "index db' = dropWhile (\<lambda>x. num (item db3 x) < block_num b - min (fork_max_size db) (block_num b)) (index db3)"
      by (auto simp: db' split: option.splits if_splits)
    obtain y where y: "find_id db3 (index db3) (block_id_of H b) = Some y" using l(6) by blast
    then have "y \<in> set (index db')" "item_id (item db3 y) = block_id_of H b"
      using find_id_Some[OF y] keep[OF y] unfolding ix' sorted_dropWhile_set[OF ix] by auto
    then show ?thesis unfolding find_id_None it by blast
  qed
  show "\<exists>a. head db' = Some a \<and> num (item db' a) = max (block_num b) (case head db of None \<Rightarrow> 0 | Some a \<Rightarrow> num (item db a))"
    unfolding it using na hd l(5) by (auto simp: db' max_def split: option.splits)
qed

subsection \<open>The other operations keep the invariant\<close>

lemma item_upd [simp]:
  "item (db\<lparr>head := h\<rparr>) = item db" "item (db\<lparr>index := ix\<rparr>) = item db"
  "item (db\<lparr>unlinked_index := ux\<rparr>) = item db" "item (db\<lparr>fork_max_size := m\<rparr>) = item db"
  by (simp_all add: item_def fun_eq_iff)

lemma fork_inv_init: "fork_inv H init_fork_db"
  by (simp add: fork_inv_def init_fork_db_def store_ok_def)

lemma fork_inv_reset: "fork_inv H db \<Longrightarrow> fork_inv H (reset db)"
  by (simp add: fork_inv_def reset_def)

lemma fork_inv_start: "fork_inv H db \<Longrightarrow> fork_inv H (start_block H b db)"
  using fork_inv_linked(1,2)[where p = None and b = b and H = H and db = db, OF _ refl]
  by (auto simp: start_block_def alloc_def with_item_def fork_inv_def fmdom'_iff)

lemma lock_prev_Some:
  assumes "fork_inv H db" "fmlookup (store db) a \<noteq> None" "lock_prev db a = Some p"
  shows "p < a" "p \<in> fmdom' (store db)" "item_id (item db p) = previous (data (item db a))" "alive db p"
proof -
  obtain it where it: "fmlookup (store db) a = Some it" using assms(2) by blast
  have "prev it = Some p" and al: "alive db p"
    using assms(3) it by (auto simp: lock_prev_def item_def split: option.splits if_splits)
  then obtain q where "p < a" "fmlookup (store db) p = Some q" "item_id q = previous (data it)"
    using assms(1) store_ok_prev[of H "store db" "next_addr db" a it p] it by (auto simp: fork_inv_def)
  with it al show "p < a" "p \<in> fmdom' (store db)" "item_id (item db p) = previous (data (item db a))" "alive db p"
    by (simp_all add: item_def fmdom'_iff)
qed

lemma fork_inv_pop:
  assumes "fork_inv H db" "pop_block db = Inr db'"
  shows "fork_inv H db'"
proof -
  obtain h p where h: "head db = Some h" "lock_prev db h = Some p" "db' = db\<lparr>head := Some p\<rparr>"
    using assms(2) by (auto simp: pop_block_def split: option.splits)
  have "fmlookup (store db) h \<noteq> None" using assms(1) h(1) by (auto simp: fork_inv_def fmdom'_iff)
  from lock_prev_Some(2)[OF assms(1) this h(2)] show ?thesis using assms(1) h(3) by (simp add: fork_inv_def)
qed

lemma fork_inv_set_head:
  "fork_inv H db \<Longrightarrow> (case h of None \<Rightarrow> True | Some a \<Rightarrow> alive db a) \<Longrightarrow> fork_inv H (set_head h db)"
  by (auto simp: fork_inv_def set_head_def alive_def index_ok_def split: option.splits)

lemma fork_inv_remove: "fork_inv H db \<Longrightarrow> fork_inv H (remove_block i db)"
  by (auto simp: fork_inv_def remove_block_def intro: index_ok_filter)

lemma fork_inv_set_max_size: "fork_inv H db \<Longrightarrow> fork_inv H (set_max_size s db)"
  by (auto simp: fork_inv_def set_max_size_def Let_def intro: index_ok_dropWhile split: option.splits)

text \<open>Every state the fork database can be in.\<close>

inductive fork_reach :: "('t signed_block \<Rightarrow> nat) \<Rightarrow> 't fork_database \<Rightarrow> bool" for H where
  reach_init: "fork_reach H init_fork_db"
| reach_reset: "fork_reach H db \<Longrightarrow> fork_reach H (reset db)"
| reach_start: "fork_reach H db \<Longrightarrow> fork_reach H (start_block H b db)"
| reach_push: "fork_reach H db \<Longrightarrow> push_block H b db = Inr (h, db') \<Longrightarrow> fork_reach H db'"
| reach_pop: "fork_reach H db \<Longrightarrow> pop_block db = Inr db' \<Longrightarrow> fork_reach H db'"
| reach_set_head: "fork_reach H db \<Longrightarrow> (case h of None \<Rightarrow> True | Some a \<Rightarrow> alive db a) \<Longrightarrow>
    fork_reach H (set_head h db)"
| reach_remove: "fork_reach H db \<Longrightarrow> fork_reach H (remove_block i db)"
| reach_set_max_size: "fork_reach H db \<Longrightarrow> fork_reach H (set_max_size s db)"

lemma fork_reach_inv: "fork_reach H db \<Longrightarrow> fork_inv H db"
  by (induction rule: fork_reach.induct)
    (auto intro: fork_inv_init fork_inv_reset fork_inv_start fork_inv_push fork_inv_pop
      fork_inv_set_head fork_inv_remove fork_inv_set_max_size)

subsection \<open>Branches\<close>

definition is_branch :: "'t fork_database \<Rightarrow> nat list \<Rightarrow> bool" where
  "is_branch db xs \<longleftrightarrow> successively (\<lambda>a b. previous (data (item db a)) = item_id (item db b)) xs"

lemma is_branch_join: "is_branch db (zs @ [y]) \<Longrightarrow> is_branch db (y # xs) \<Longrightarrow> is_branch db (zs @ y # xs)"
  unfolding is_branch_def by (simp add: successively_append_iff)

lemma walk_down_ok:
  assumes "fork_inv H db" "x \<in> fmdom' (store db)"
  shows "\<exists>r. walk_down db n x br = Some r \<and> (\<forall>br' y. r = Inr (br', y) \<longrightarrow>
    (\<exists>zs. br' = br @ zs \<and> y \<in> fmdom' (store db) \<and> is_branch db (zs @ [y]) \<and> hd (zs @ [y]) = x))"
  using assms(2)
proof (induction x arbitrary: br rule: less_induct)
  case (less x)
  show ?case
  proof (cases "block_num (data (item db x)) > n")
    case False
    then show ?thesis using less.prems by (auto simp: walk_down.simps[of db n x] is_branch_def)
  next
    case True
    show ?thesis
    proof (cases "lock_prev db x")
      case None
      then show ?thesis using True by (auto simp: walk_down.simps[of db n x])
    next
      case (Some p)
      have p: "p < x" "p \<in> fmdom' (store db)" "item_id (item db p) = previous (data (item db x))"
        using lock_prev_Some[OF assms(1) _ Some] less.prems by (auto simp: fmdom'_iff)
      obtain r where r: "walk_down db n p (br @ [x]) = Some r" "\<And>br' y. r = Inr (br', y) \<Longrightarrow>
         \<exists>zs. br' = (br @ [x]) @ zs \<and> y \<in> fmdom' (store db) \<and> is_branch db (zs @ [y]) \<and> hd (zs @ [y]) = p"
        using less.IH[OF p(1,2), of "br @ [x]"] by blast
      have "\<exists>zs. br' = br @ zs \<and> y \<in> fmdom' (store db) \<and> is_branch db (zs @ [y]) \<and> hd (zs @ [y]) = x"
        if req: "r = Inr (br', y)" for br' y
      proof -
        obtain zs where "br' = (br @ [x]) @ zs" "y \<in> fmdom' (store db)" "is_branch db (zs @ [y])" "hd (zs @ [y]) = p"
          using r(2)[OF req] by blast
        then show ?thesis using p(3)
          by (intro exI[of _ "x # zs"]) (auto simp: is_branch_def successively_Cons)
      qed
      then show ?thesis using True Some r(1) by (simp add: walk_down.simps[of db n x])
    qed
  qed
qed

lemma walk_both_ok:
  assumes "fork_inv H db" "x \<in> fmdom' (store db)" "y \<in> fmdom' (store db)"
  shows "\<exists>r. walk_both db x y bx by = Some r \<and> (\<forall>rx ry. r = Inr (rx, ry) \<longrightarrow>
    (\<exists>xs ys. rx = bx @ xs \<and> ry = by @ ys \<and> length xs = length ys \<and> is_branch db xs \<and> is_branch db ys \<and>
      xs \<noteq> [] \<and> ys \<noteq> [] \<and> hd xs = x \<and> hd ys = y \<and>
      previous (data (item db (last xs))) = previous (data (item db (last ys))) \<and>
      (\<forall>i < length xs - 1. previous (data (item db (xs ! i))) \<noteq> previous (data (item db (ys ! i))))))"
  using assms(2,3)
proof (induction x arbitrary: y bx "by" rule: less_induct)
  case (less x)
  show ?case
  proof (cases "previous (data (item db x)) = previous (data (item db y))")
    case True
    then have "walk_both db x y bx by = Some (Inr (bx @ [x], by @ [y]))"
      by (simp add: walk_both.simps[of db x y])
    then show ?thesis using True
      by (auto simp: is_branch_def intro!: exI[of _ "[x]"] exI[of _ "[y]"])
  next
    case ne: False
    show ?thesis
    proof (cases "lock_prev db x = None \<or> lock_prev db y = None")
      case True
      then show ?thesis using ne by (auto simp: walk_both.simps[of db x y] split: option.splits)
    next
      case False
      then obtain p q where pq: "lock_prev db x = Some p" "lock_prev db y = Some q" by auto
      have p: "p < x" "p \<in> fmdom' (store db)" "item_id (item db p) = previous (data (item db x))"
        using lock_prev_Some[OF assms(1) _ pq(1)] less.prems by (auto simp: fmdom'_iff)
      have q: "q \<in> fmdom' (store db)" "item_id (item db q) = previous (data (item db y))"
        using lock_prev_Some[OF assms(1) _ pq(2)] less.prems by (auto simp: fmdom'_iff)
      obtain r where r: "walk_both db p q (bx @ [x]) (by @ [y]) = Some r"
        "\<And>rx ry. r = Inr (rx, ry) \<Longrightarrow> \<exists>xs ys. rx = (bx @ [x]) @ xs \<and> ry = (by @ [y]) @ ys \<and>
          length xs = length ys \<and> is_branch db xs \<and> is_branch db ys \<and> xs \<noteq> [] \<and> ys \<noteq> [] \<and> hd xs = p \<and> hd ys = q \<and>
          previous (data (item db (last xs))) = previous (data (item db (last ys))) \<and>
          (\<forall>i < length xs - 1. previous (data (item db (xs ! i))) \<noteq> previous (data (item db (ys ! i))))"
        using less.IH[OF p(1,2) q(1), of "bx @ [x]" "by @ [y]"] by blast
      have "\<exists>xs ys. rx = bx @ xs \<and> ry = by @ ys \<and> length xs = length ys \<and> is_branch db xs \<and> is_branch db ys \<and>
          xs \<noteq> [] \<and> ys \<noteq> [] \<and> hd xs = x \<and> hd ys = y \<and>
          previous (data (item db (last xs))) = previous (data (item db (last ys))) \<and>
          (\<forall>i < length xs - 1. previous (data (item db (xs ! i))) \<noteq> previous (data (item db (ys ! i))))"
        if req: "r = Inr (rx, ry)" for rx ry
      proof -
        obtain xs ys where xy: "rx = (bx @ [x]) @ xs" "ry = (by @ [y]) @ ys" "length xs = length ys"
          "is_branch db xs" "is_branch db ys" "xs \<noteq> []" "ys \<noteq> []" "hd xs = p" "hd ys = q"
          "previous (data (item db (last xs))) = previous (data (item db (last ys)))"
          "\<forall>i < length xs - 1. previous (data (item db (xs ! i))) \<noteq> previous (data (item db (ys ! i)))"
          using r(2)[OF req] by blast
        have "previous (data (item db ((x # xs) ! i))) \<noteq> previous (data (item db ((y # ys) ! i)))"
          if "i < length (x # xs) - 1" for i
          using that xy(11) ne by (cases i) auto
        with xy p(3) q(2) show ?thesis
          by (intro exI[of _ "x # xs"] exI[of _ "y # ys"]) (auto simp: is_branch_def successively_Cons)
      qed
      then show ?thesis using ne pq r(1) by (simp add: walk_both.simps[of db x y])
    qed
  qed
qed

subsection \<open>Properties\<close>







end
