(* ===== verification/Authority.thy ===== *)
theory Authority
  imports Prelude "HOL-Library.Word"
begin

text \<open>Authorities: \<open>chain/protocol/authority.hpp\<close>, the signature check of
  \<open>chain/protocol/transaction.cpp\<close> (\<open>sign_state\<close>, \<open>verify_authority\<close>), \<open>vote_count.hpp\<close> and the vote
  identifiers of \<open>chain/protocol/vote.hpp\<close>.

  Keys and addresses are numbers; \<open>addrs\<close>, a parameter, gives the five addresses of a key in the order
  in which the code registers them (the encodings are cryptographic code of other components).
  \<open>flat_map\<close> is an association list kept sorted by \<open>flat_put\<close>. The recursion of \<open>check_authority\<close> counts
  the levels left, \<open>max_recursion - depth\<close>. The theorems: an accepted authority is endorsed by the
  signatures (\<open>endorsed\<close>, the least set closed under meeting the threshold), and the authority that the
  vote counter builds can be met.\<close>

unbundle bit_operations_syntax

section \<open>Authorities\<close>

record authority =
  weight_threshold :: nat
  account_auths :: "(nat \<times> nat) list"
  key_auths :: "(nat \<times> nat) list"
  address_auths :: "(nat \<times> nat) list"

fun flat_put :: "'k::linorder \<Rightarrow> 'v \<Rightarrow> ('k \<times> 'v) list \<Rightarrow> ('k \<times> 'v) list" where
  "flat_put k v [] = [(k, v)]"
| "flat_put k v ((k', v') # xs) =
    (if k < k' then (k, v) # (k', v') # xs else if k = k' then (k, v) # xs
     else (k', v') # flat_put k v xs)"

lemma map_of_flat_put [simp]: "map_of (flat_put k v xs) = (map_of xs)(k \<mapsto> v)"
  by (induction k v xs rule: flat_put.induct) auto

lemma set_flat_put: "set (flat_put k v xs) \<subseteq> insert (k, v) (set xs)"
  by (induction k v xs rule: flat_put.induct) auto

definition empty_authority :: authority where
  "empty_authority = \<lparr>weight_threshold = 0, account_auths = [], key_auths = [], address_auths = []\<rparr>"

definition add_key_authority :: "nat \<Rightarrow> nat \<Rightarrow> authority \<Rightarrow> authority" where
  "add_key_authority k w a = a\<lparr>key_auths := flat_put k w (key_auths a)\<rparr>"

definition add_address_authority :: "nat \<Rightarrow> nat \<Rightarrow> authority \<Rightarrow> authority" where
  "add_address_authority k w a = a\<lparr>address_auths := flat_put k w (address_auths a)\<rparr>"

definition add_account_authority :: "nat \<Rightarrow> nat \<Rightarrow> authority \<Rightarrow> authority" where
  "add_account_authority k w a = a\<lparr>account_auths := flat_put k w (account_auths a)\<rparr>"

definition is_impossible :: "authority \<Rightarrow> bool" where
  "is_impossible a \<longleftrightarrow>
    (sum_list (map snd (account_auths a)) + sum_list (map snd (key_auths a)) +
     sum_list (map snd (address_auths a))) mod 2 ^ 64 < weight_threshold a"

definition num_auths :: "authority \<Rightarrow> nat" where
  "num_auths a = (length (account_auths a) + length (key_auths a) + length (address_auths a)) mod 2 ^ 32"

definition authority_clear :: "authority \<Rightarrow> authority" where
  "authority_clear a = a\<lparr>account_auths := [], key_auths := []\<rparr>"

definition get_keys :: "authority \<Rightarrow> nat list" where "get_keys a = map fst (key_auths a)"

definition get_addresses :: "authority \<Rightarrow> nat list" where "get_addresses a = map fst (address_auths a)"

definition COMMITTEE_ACCOUNT :: nat where "COMMITTEE_ACCOUNT = 0"
definition WITNESS_ACCOUNT :: nat where "WITNESS_ACCOUNT = 1"
definition RELAXED_COMMITTEE_ACCOUNT :: nat where "RELAXED_COMMITTEE_ACCOUNT = 2"
definition NULL_ACCOUNT :: nat where "NULL_ACCOUNT = 3"
definition TEMP_ACCOUNT :: nat where "TEMP_ACCOUNT = 4"
definition PROXY_TO_SELF_ACCOUNT :: nat where "PROXY_TO_SELF_ACCOUNT = 5"

definition null_authority :: authority where
  "null_authority = add_account_authority NULL_ACCOUNT 1 (empty_authority\<lparr>weight_threshold := 1\<rparr>)"

definition add_authority_accounts :: "nat set \<Rightarrow> authority \<Rightarrow> nat set" where
  "add_authority_accounts r a = fold (\<lambda>i. insert (fst i)) (account_auths a) r"

section \<open>Checking signatures\<close>

record sign_state =
  available_keys :: "nat list"
  provided_signatures :: "(nat \<times> bool) list"
  approved_by :: "nat set"
  available_address_sigs :: "(nat \<rightharpoonup> nat) option"
  provided_address_sigs :: "(nat \<rightharpoonup> nat) option"

definition signed_by_key :: "nat \<Rightarrow> sign_state \<Rightarrow> bool \<times> sign_state" where
  "signed_by_key k s = (case map_of (provided_signatures s) k of
     None \<Rightarrow> if k \<in> set (available_keys s)
             then (True, s\<lparr>provided_signatures := flat_put k True (provided_signatures s)\<rparr>) else (False, s)
   | Some _ \<Rightarrow> (True, s\<lparr>provided_signatures := flat_put k True (provided_signatures s)\<rparr>))"

definition address_map :: "(nat \<Rightarrow> nat list) \<Rightarrow> nat list \<Rightarrow> nat \<rightharpoonup> nat" where
  "address_map addrs ks = fold (\<lambda>k m. fold (\<lambda>a m. m(a \<mapsto> k)) (addrs k) m) ks Map.empty"

definition fill_address_sigs :: "(nat \<Rightarrow> nat list) \<Rightarrow> sign_state \<Rightarrow> sign_state" where
  "fill_address_sigs addrs s = (case available_address_sigs s of
     None \<Rightarrow> s\<lparr>available_address_sigs := Some (address_map addrs (available_keys s)),
               provided_address_sigs := Some (address_map addrs (map fst (provided_signatures s)))\<rparr>
   | Some _ \<Rightarrow> s)"

text \<open>When an address is neither among the provided nor among the available signatures, the code reads
  \<open>itr->second\<close> of the end iterator.\<close>

definition signed_by_address :: "(nat \<Rightarrow> nat list) \<Rightarrow> nat \<Rightarrow> sign_state \<Rightarrow> (bool \<times> sign_state) res" where
  "signed_by_address addrs a s =
    (let s = fill_address_sigs addrs s;
         found = (\<lambda>k. Inr (True, s\<lparr>provided_signatures := flat_put k True (provided_signatures s)\<rparr>))
     in case the (provided_address_sigs s) a of
          Some k \<Rightarrow> found k
        | None \<Rightarrow> (case the (available_address_sigs s) a of
            Some k \<Rightarrow> if k \<in> set (available_keys s) then found k else Inr (False, s)
          | None \<Rightarrow> Inl UB))"

definition add_weight :: "nat \<Rightarrow> nat \<Rightarrow> nat" where "add_weight w x = (w + x) mod 2 ^ 32"

text \<open>The loops over the three lists; the first component tells that the threshold was reached.\<close>

fun check_keys :: "nat \<Rightarrow> (nat \<times> nat) list \<Rightarrow> nat \<Rightarrow> sign_state \<Rightarrow> bool \<times> nat \<times> sign_state" where
  "check_keys thr [] w s = (False, w, s)"
| "check_keys thr ((k, x) # ks) w s =
    (case signed_by_key k s of (b, s) \<Rightarrow>
       if b then (if thr \<le> add_weight w x then (True, add_weight w x, s) else check_keys thr ks (add_weight w x) s)
       else check_keys thr ks w s)"

fun check_addresses :: "(nat \<Rightarrow> nat list) \<Rightarrow> nat \<Rightarrow> (nat \<times> nat) list \<Rightarrow> nat \<Rightarrow> sign_state
    \<Rightarrow> (bool \<times> nat \<times> sign_state) res" where
  "check_addresses addrs thr [] w s = Inr (False, w, s)"
| "check_addresses addrs thr ((a, x) # as) w s =
    rbind (signed_by_address addrs a s) (\<lambda>(b, s).
       if b then (if thr \<le> add_weight w x then Inr (True, add_weight w x, s)
                  else check_addresses addrs thr as (add_weight w x) s)
       else check_addresses addrs thr as w s)"

function (sequential) check_authority :: "(nat \<Rightarrow> nat list) \<Rightarrow> (nat \<Rightarrow> authority option res) \<Rightarrow> nat \<Rightarrow>
    authority option \<Rightarrow> sign_state \<Rightarrow> (bool \<times> sign_state) res"
  and check_accounts :: "(nat \<Rightarrow> nat list) \<Rightarrow> (nat \<Rightarrow> authority option res) \<Rightarrow> nat \<Rightarrow> nat \<Rightarrow>
    (nat \<times> nat) list \<Rightarrow> nat \<Rightarrow> sign_state \<Rightarrow> (bool \<times> sign_state) res" where
  "check_authority addrs ga n None s = Inr (False, s)"
| "check_authority addrs ga n (Some au) s =
    (case check_keys (weight_threshold au) (key_auths au) 0 s of (done, w, s) \<Rightarrow>
     if done then Inr (True, s)
     else rbind (check_addresses addrs (weight_threshold au) (address_auths au) w s) (\<lambda>(done, w, s).
       if done then Inr (True, s)
       else check_accounts addrs ga n (weight_threshold au) (account_auths au) w s))"
| "check_accounts addrs ga n thr [] w s = Inr (thr \<le> w, s)"
| "check_accounts addrs ga n thr ((a, x) # as) w s =
    (if a \<notin> approved_by s then
       (if n = 0 then check_accounts addrs ga n thr as w s
        else rbind (ga a) (\<lambda>au. rbind (check_authority addrs ga (n - 1) au s) (\<lambda>(b, s).
          if b then
            (let s = s\<lparr>approved_by := insert a (approved_by s)\<rparr> in
             if thr \<le> add_weight w x then Inr (True, s) else check_accounts addrs ga n thr as (add_weight w x) s)
          else check_accounts addrs ga n thr as w s)))
     else if thr \<le> add_weight w x then Inr (True, s)
     else check_accounts addrs ga n thr as (add_weight w x) s)"
  by pat_completeness auto

termination
  by (relation "inv_image (less_than <*lex*> less_than <*lex*> less_than)
     (\<lambda>c. case c of Inl (_, _, n, _, _) \<Rightarrow> (n, 1, 0) | Inr (_, _, n, _, as, _, _) \<Rightarrow> (n, 0, length as))") auto

definition check_account_authority :: "(nat \<Rightarrow> nat list) \<Rightarrow> (nat \<Rightarrow> authority option res) \<Rightarrow> nat \<Rightarrow> nat \<Rightarrow>
    sign_state \<Rightarrow> (bool \<times> sign_state) res" where
  "check_account_authority addrs ga n i s =
    (if i \<in> approved_by s then Inr (True, s) else rbind (ga i) (\<lambda>au. check_authority addrs ga n au s))"

definition remove_unused_signatures :: "sign_state \<Rightarrow> bool \<times> sign_state" where
  "remove_unused_signatures s =
    (list_ex (\<lambda>p. \<not> snd p) (provided_signatures s), s\<lparr>provided_signatures := filter snd (provided_signatures s)\<rparr>)"

definition init_sign_state :: "nat \<Rightarrow> nat list \<Rightarrow> nat list \<Rightarrow> sign_state" where
  "init_sign_state temp_account sigs keys =
    \<lparr>available_keys = keys, provided_signatures = fold (\<lambda>k. flat_put k False) sigs [], approved_by = {temp_account},
     available_address_sigs = None, provided_address_sigs = None\<rparr>"

record required_auths =
  req_active :: "nat list"
  req_owner :: "nat list"
  req_other :: "authority list"

text \<open>One \<open>GRAPHENE_ASSERT( s.check_authority( ... ), e )\<close>: a failed check throws.\<close>

definition require_auth :: "err \<Rightarrow> (bool \<times> sign_state) res \<Rightarrow> sign_state res" where
  "require_auth e r = rbind r (\<lambda>(b, s). rassert b e (Inr s))"

definition verify_authority :: "(nat \<Rightarrow> nat list) \<Rightarrow> required_auths \<Rightarrow> nat list \<Rightarrow> (nat \<Rightarrow> authority option res) \<Rightarrow>
    (nat \<Rightarrow> authority option res) \<Rightarrow> nat \<Rightarrow> bool \<Rightarrow> nat set \<Rightarrow> nat set \<Rightarrow> unit res" where
  "verify_authority addrs req sigs ga go depth allow_committee active_approvals owner_approvals =
    rassert (\<not> allow_committee \<longrightarrow> COMMITTEE_ACCOUNT \<notin> set (req_active req)) OtherError
    (let s = init_sign_state TEMP_ACCOUNT sigs [];
         s = s\<lparr>approved_by := approved_by s \<union> active_approvals \<union> owner_approvals\<rparr>
     in rbind (rfold (\<lambda>au s. require_auth TxMissingOtherAuth (check_authority addrs ga depth (Some au) s))
                (req_other req) s) (\<lambda>s.
        rbind (rfold (\<lambda>i s. require_auth TxMissingActiveAuth
                 (rbind (check_account_authority addrs ga depth i s) (\<lambda>(b, s).
                    if b then Inr (True, s) else rbind (go i) (\<lambda>au. check_authority addrs ga depth au s))))
                (req_active req) s) (\<lambda>s.
        rbind (rfold (\<lambda>i s. require_auth TxMissingOwnerAuth
                 (if i \<in> owner_approvals then Inr (True, s)
                  else rbind (go i) (\<lambda>au. check_authority addrs ga depth au s)))
                (req_owner req) s) (\<lambda>s.
        rassert (\<not> fst (remove_unused_signatures s)) TxIrrelevantSig (Inr ())))))"

text \<open>The keys recovered from the signatures of a transaction (recovering a key is cryptographic code);
  a key that occurs twice is refused.\<close>

definition get_signature_keys :: "nat list \<Rightarrow> nat list res" where
  "get_signature_keys recovered = rfold (\<lambda>k r. rassert (k \<notin> set r) OtherError (Inr (insort k r))) recovered []"

definition get_required_signatures :: "(nat \<Rightarrow> nat list) \<Rightarrow> required_auths \<Rightarrow> nat list \<Rightarrow> nat list \<Rightarrow>
    (nat \<Rightarrow> authority option res) \<Rightarrow> (nat \<Rightarrow> authority option res) \<Rightarrow> nat \<Rightarrow> nat list res" where
  "get_required_signatures addrs req sigs keys ga go depth =
    (let s = init_sign_state TEMP_ACCOUNT sigs keys in
     rbind (rfold (\<lambda>au s. rbind (check_authority addrs ga depth (Some au) s) (\<lambda>(b, s). Inr s)) (req_other req) s) (\<lambda>s.
     rbind (rfold (\<lambda>i s. rbind (go i) (\<lambda>au. rbind (check_authority addrs ga depth au s) (\<lambda>(b, s). Inr s)))
              (req_owner req) s) (\<lambda>s.
     rbind (rfold (\<lambda>i s. rbind (check_account_authority addrs ga depth i s) (\<lambda>(b, s). Inr s)) (req_active req) s) (\<lambda>s.
     Inr (filter (\<lambda>k. k \<in> set keys) (map fst (provided_signatures (snd (remove_unused_signatures s)))))))))"

fun minimize_loop :: "(nat list \<Rightarrow> unit res) \<Rightarrow> nat list \<Rightarrow> nat list \<Rightarrow> nat list res" where
  "minimize_loop verify [] result = Inr result"
| "minimize_loop verify (k # ks) result =
    (case verify (removeAll k result) of
       Inr _ \<Rightarrow> minimize_loop verify ks (removeAll k result)
     | Inl e \<Rightarrow> if e \<in> {TxMissingOwnerAuth, TxMissingActiveAuth, TxMissingOtherAuth}
                then minimize_loop verify ks (insort k (removeAll k result)) else Inl e)"

definition minimize_required_signatures :: "(nat \<Rightarrow> nat list) \<Rightarrow> required_auths \<Rightarrow> nat list \<Rightarrow> nat list \<Rightarrow>
    (nat \<Rightarrow> authority option res) \<Rightarrow> (nat \<Rightarrow> authority option res) \<Rightarrow> nat \<Rightarrow> nat list res" where
  "minimize_required_signatures addrs req sigs keys ga go depth =
    rbind (get_required_signatures addrs req sigs keys ga go depth) (\<lambda>s.
      minimize_loop (\<lambda>r. verify_authority addrs req r ga go depth False {} {}) s s)"

section \<open>What an accepted authority proves\<close>

text \<open>The weight that keys \<open>K\<close> and accounts \<open>E\<close> bring to an authority, and the accounts that are endorsed
  by the signatures: the approved ones, and those whose active authority is met.\<close>

definition auth_weight :: "(nat \<Rightarrow> nat list) \<Rightarrow> nat set \<Rightarrow> nat set \<Rightarrow> authority \<Rightarrow> nat" where
  "auth_weight addrs K E au =
    sum_list (map snd (filter (\<lambda>p. fst p \<in> K) (key_auths au))) +
    sum_list (map snd (filter (\<lambda>p. \<exists>k\<in>K. fst p \<in> set (addrs k)) (address_auths au))) +
    sum_list (map snd (filter (\<lambda>p. fst p \<in> E) (account_auths au)))"

inductive endorsed :: "(nat \<Rightarrow> nat list) \<Rightarrow> (nat \<Rightarrow> authority option res) \<Rightarrow> nat set \<Rightarrow> nat set \<Rightarrow> nat \<Rightarrow> bool"
  for addrs ga K A where
  approved: "a \<in> A \<Longrightarrow> endorsed addrs ga K A a"
| by_active: "ga a = Inr (Some au) \<Longrightarrow> (\<forall>x\<in>E. endorsed addrs ga K A x) \<Longrightarrow>
    weight_threshold au \<le> auth_weight addrs K E au \<Longrightarrow> endorsed addrs ga K A a"

definition meets :: "(nat \<Rightarrow> nat list) \<Rightarrow> (nat \<Rightarrow> authority option res) \<Rightarrow> nat set \<Rightarrow> nat set \<Rightarrow> authority \<Rightarrow> bool" where
  "meets addrs ga K A au \<longleftrightarrow> weight_threshold au \<le> auth_weight addrs K (Collect (endorsed addrs ga K A)) au"

lemma meets_endorsed: "ga a = Inr (Some au) \<Longrightarrow> meets addrs ga K A au \<Longrightarrow> endorsed addrs ga K A a"
  by (rule by_active[of _ _ _ "Collect (endorsed addrs ga K A)"]) (auto simp: meets_def)

text \<open>The invariant of \<open>sign_state\<close>: its keys are among \<open>K\<close>, its approved accounts are endorsed.\<close>

definition addr_map_ok :: "(nat \<Rightarrow> nat list) \<Rightarrow> nat set \<Rightarrow> (nat \<rightharpoonup> nat) option \<Rightarrow> bool" where
  "addr_map_ok addrs K m \<longleftrightarrow> (\<forall>f a k. m = Some f \<longrightarrow> f a = Some k \<longrightarrow> k \<in> K \<and> a \<in> set (addrs k))"

definition sign_ok :: "(nat \<Rightarrow> nat list) \<Rightarrow> (nat \<Rightarrow> authority option res) \<Rightarrow> nat set \<Rightarrow> nat set \<Rightarrow> sign_state \<Rightarrow> bool" where
  "sign_ok addrs ga K A s \<longleftrightarrow> fst ` set (provided_signatures s) \<subseteq> K \<and> set (available_keys s) \<subseteq> K \<and>
    (\<forall>a\<in>approved_by s. endorsed addrs ga K A a) \<and>
    addr_map_ok addrs K (available_address_sigs s) \<and> addr_map_ok addrs K (provided_address_sigs s) \<and>
    (available_address_sigs s = None \<longleftrightarrow> provided_address_sigs s = None)"

lemma fold_upd_Some:
  "fold (\<lambda>a m. m(a \<mapsto> k0)) as m a = Some k \<Longrightarrow> m a = Some k \<or> (k = k0 \<and> a \<in> set as)"
  by (induction as arbitrary: m) (force simp: fun_upd_def split: if_splits)+

lemma fold_addrs_Some:
  "fold (\<lambda>k m. fold (\<lambda>a m. m(a \<mapsto> k)) (addrs k) m) ks m a = Some k \<Longrightarrow>
    m a = Some k \<or> (k \<in> set ks \<and> a \<in> set (addrs k))"
proof (induction ks arbitrary: m)
  case (Cons k0 ks)
  have "fold (\<lambda>a m. m(a \<mapsto> k0)) (addrs k0) m a = Some k \<or> (k \<in> set ks \<and> a \<in> set (addrs k))"
    by (rule Cons.IH) (use Cons.prems in simp)
  then show ?case using fold_upd_Some[of k0 "addrs k0" m a k] by auto
qed simp

lemma address_map_ok: "set ks \<subseteq> K \<Longrightarrow> addr_map_ok addrs K (Some (address_map addrs ks))"
  by (auto simp: addr_map_ok_def address_map_def dest!: fold_addrs_Some)

lemma sign_ok_use:
  assumes "sign_ok addrs ga K A s" "k \<in> K"
  shows "sign_ok addrs ga K A (s\<lparr>provided_signatures := flat_put k True (provided_signatures s)\<rparr>)"
proof -
  have "fst ` set (flat_put k True (provided_signatures s)) \<subseteq> insert k (fst ` set (provided_signatures s))"
    using image_mono[OF set_flat_put[of k True "provided_signatures s"], of fst] by simp
  with assms show ?thesis by (auto simp: sign_ok_def)
qed

lemma signed_by_key_ok:
  assumes "sign_ok addrs ga K A s" "signed_by_key k s = (b, s')"
  shows "sign_ok addrs ga K A s' \<and> (b \<longrightarrow> k \<in> K)"
proof -
  have "k \<in> K" if "map_of (provided_signatures s) k = Some x" for x
    using assms(1) map_of_SomeD[OF that] by (force simp: sign_ok_def)
  moreover have "k \<in> K" if "k \<in> set (available_keys s)"
    using assms(1) that by (auto simp: sign_ok_def)
  ultimately show ?thesis
    using assms sign_ok_use[OF assms(1), of k]
    by (auto simp: signed_by_key_def split: option.splits if_splits)
qed

lemma fill_address_sigs_ok:
  assumes "sign_ok addrs ga K A s"
  shows "sign_ok addrs ga K A (fill_address_sigs addrs s)"
  using assms address_map_ok[of "available_keys s" K addrs]
    address_map_ok[of "map fst (provided_signatures s)" K addrs]
  by (auto simp: fill_address_sigs_def sign_ok_def split: option.splits)

lemma fill_address_sigs_Some:
  "sign_ok addrs ga K A s \<Longrightarrow>
    \<exists>f g. available_address_sigs (fill_address_sigs addrs s) = Some f \<and>
          provided_address_sigs (fill_address_sigs addrs s) = Some g"
  by (auto simp: fill_address_sigs_def sign_ok_def split: option.splits)

lemma signed_by_address_ok:
  assumes "sign_ok addrs ga K A s" "signed_by_address addrs a s = Inr (b, s')"
  shows "sign_ok addrs ga K A s' \<and> (b \<longrightarrow> (\<exists>k\<in>K. a \<in> set (addrs k)))"
proof -
  define t where "t = fill_address_sigs addrs s"
  have t: "sign_ok addrs ga K A t" using fill_address_sigs_ok[OF assms(1)] by (simp add: t_def)
  obtain f g where fg: "available_address_sigs t = Some f" "provided_address_sigs t = Some g"
    using fill_address_sigs_Some[OF assms(1)] by (auto simp: t_def)
  have k: "k \<in> K \<and> a \<in> set (addrs k)" if "f a = Some k \<or> g a = Some k" for k
    using t fg that by (auto simp: sign_ok_def addr_map_ok_def)
  show ?thesis
  proof (cases "g a")
    case (Some k)
    then show ?thesis using assms(2) fg k[of k] sign_ok_use[OF t, of k]
      by (auto simp: signed_by_address_def Let_def simp flip: t_def)
  next
    case None
    then obtain k where fa: "f a = Some k" using assms(2) fg
      by (auto simp: signed_by_address_def Let_def simp flip: t_def split: option.splits)
    then show ?thesis using assms(2) fg None k[of k] t sign_ok_use[OF t, of k]
      by (auto simp: signed_by_address_def Let_def simp flip: t_def split: if_splits)
  qed
qed

lemma add_weight_le: "add_weight w x \<le> w + x"
  by (simp add: add_weight_def)

text \<open>Each loop gains at most the weight of the entries that count.\<close>

lemma check_keys_ok:
  "check_keys thr ks w s = (d, w', s') \<Longrightarrow> sign_ok addrs ga K A s \<Longrightarrow>
    sign_ok addrs ga K A s' \<and> w' \<le> w + sum_list (map snd (filter (\<lambda>p. fst p \<in> K) ks)) \<and> (d \<longrightarrow> thr \<le> w')"
proof (induction thr ks w s rule: check_keys.induct)
  case (2 thr k x ks w s)
  obtain b t where t: "signed_by_key k s = (b, t)" by (cases "signed_by_key k s")
  note ok = signed_by_key_ok[OF 2(4) t]
  show ?case
  proof (cases b)
    case True
    show ?thesis
    proof (cases "thr \<le> add_weight w x")
      case False
      then show ?thesis
        using 2(1)[OF t[symmetric] True False] 2(3) ok t True add_weight_le[of w x] by fastforce
    qed (use 2(3) ok t True add_weight_le[of w x] in auto)
  next
    case False
    then show ?thesis using 2(2)[OF t[symmetric] False] 2(3) ok t by fastforce
  qed
qed simp

lemma check_addresses_ok:
  "check_addresses addrs thr as w s = Inr (d, w', s') \<Longrightarrow> sign_ok addrs ga K A s \<Longrightarrow>
    sign_ok addrs ga K A s' \<and>
    w' \<le> w + sum_list (map snd (filter (\<lambda>p. \<exists>k\<in>K. fst p \<in> set (addrs k)) as)) \<and> (d \<longrightarrow> thr \<le> w')"
proof (induction as arbitrary: w s)
  case (Cons p as)
  obtain a x where p: "p = (a, x)" by (cases p)
  obtain b t where t: "signed_by_address addrs a s = Inr (b, t)"
    using Cons.prems(1) by (auto simp: p)
  note ok = signed_by_address_ok[OF Cons.prems(2) t]
  show ?case
  proof (cases "b \<and> thr \<le> add_weight w x")
    case True
    then show ?thesis using Cons.prems(1) t ok add_weight_le[of w x] by (auto simp: p)
  next
    case False
    define v where "v = (if b then add_weight w x else w)"
    have "check_addresses addrs thr as v t = Inr (d, w', s')"
      using Cons.prems(1) t False by (auto simp: p v_def split: if_splits)
    note Cons.IH[OF this ok[THEN conjunct1]]
    then show ?thesis using ok add_weight_le[of w x] by (auto simp: p v_def split: if_splits)
  qed
qed simp

lemma check_authority_ok:
  "check_authority addrs ga n au s = Inr (b, s') \<Longrightarrow> sign_ok addrs ga K A s \<Longrightarrow>
     sign_ok addrs ga K A s' \<and> (b \<longrightarrow> (\<exists>a. au = Some a \<and> meets addrs ga K A a))"
  "check_accounts addrs ga n thr as w s = Inr (b, s') \<Longrightarrow> sign_ok addrs ga K A s \<Longrightarrow>
     sign_ok addrs ga K A s' \<and>
     (b \<longrightarrow> thr \<le> w + sum_list (map snd (filter (\<lambda>p. endorsed addrs ga K A (fst p)) as)))"
proof (induction addrs ga n au s and addrs ga n thr as w s arbitrary: b s' and b s'
    rule: check_authority_check_accounts.induct)
  case (2 addrs ga n au s)
  obtain d w t where ks: "check_keys (weight_threshold au) (key_auths au) 0 s = (d, w, t)"
    by (metis prod_cases3)
  note k = check_keys_ok[OF ks 2(3)]
  show ?case
  proof (cases d)
    case True
    then show ?thesis using k 2(2) ks by (auto simp: meets_def auth_weight_def)
  next
    case nd: False
    then obtain d2 w2 t2 where as: "check_addresses addrs (weight_threshold au) (address_auths au) w t = Inr (d2, w2, t2)"
      using 2(2) ks by auto
    note a = check_addresses_ok[OF as k[THEN conjunct1]]
    show ?thesis
    proof (cases d2)
      case True
      then show ?thesis using k a 2(2) ks as nd by (auto simp: meets_def auth_weight_def)
    next
      case False
      have c: "check_accounts addrs ga n (weight_threshold au) (account_auths au) w2 t2 = Inr (b, s')"
        using 2(2) ks as nd False by simp
      note 2(1)[OF ks[symmetric] refl nd False c a[THEN conjunct1]]
      then show ?thesis using k a by (auto simp: meets_def auth_weight_def)
    qed
  qed
next
  case (4 addrs ga n thr a x as w s)
  show ?case
  proof (cases "a \<in> approved_by s")
    case True
    then have "endorsed addrs ga K A a" using 4(7) by (auto simp: sign_ok_def)
    then show ?thesis
      using 4(5) 4(6,7) True add_weight_le[of w x] by (fastforce split: if_splits)
  next
    case na: False
    show ?thesis
    proof (cases "n = 0")
      case True
      then show ?thesis using 4(1)[OF na True] 4(6,7) na by (fastforce split: if_splits)
    next
      case nz: False
      obtain au d t where au: "ga a = Inr au" "check_authority addrs ga (n - 1) au s = Inr (d, t)"
        using 4(6) na nz by auto
      note i = 4(2)[OF na nz au(2) 4(7)]
      show ?thesis
      proof (cases d)
        case False
        then show ?thesis using 4(4)[OF na nz False _ i[THEN conjunct1]] 4(6) au na nz by fastforce
      next
        case True
        then have e: "endorsed addrs ga K A a" using i au by (auto intro: meets_endorsed)
        define t' where "t' = t\<lparr>approved_by := insert a (approved_by t)\<rparr>"
        have t': "sign_ok addrs ga K A t'" using i e by (simp add: sign_ok_def t'_def)
        have "check_accounts addrs ga n thr ((a, x) # as) w s =
            (if thr \<le> add_weight w x then Inr (True, t') else check_accounts addrs ga n thr as (add_weight w x) t')"
          using au na nz True by (simp add: t'_def)
        then show ?thesis
          using 4(3)[OF na nz True t'_def _ _ t'] 4(6) t' e add_weight_le[of w x] by (fastforce split: if_splits)
      qed
    qed
  qed
qed auto

declare check_authority.simps [simp del] check_accounts.simps [simp del]

lemma init_sign_ok:
  "sign_ok addrs ga (set sigs) A (init_sign_state i sigs []\<lparr>approved_by := B\<rparr>)" if "B \<subseteq> A"
proof -
  have "fst ` set (fold (\<lambda>k. flat_put k False) ks m) \<subseteq> set ks \<union> fst ` set m" for ks and m :: "(nat \<times> bool) list"
  proof (induction ks arbitrary: m)
    case (Cons k ks)
    then show ?case using Cons[of "flat_put k False m"] image_mono[OF set_flat_put[of k False m], of fst] by auto
  qed simp
  from this[of sigs "[]"] show ?thesis
    using that by (auto simp: sign_ok_def init_sign_state_def addr_map_ok_def intro: approved)
qed

lemma check_account_authority_ok:
  assumes "check_account_authority addrs ga n i s = Inr (b, s')" "sign_ok addrs ga K A s"
  shows "sign_ok addrs ga K A s' \<and> (b \<longrightarrow> endorsed addrs ga K A i)"
proof (cases "i \<in> approved_by s")
  case True
  then show ?thesis using assms by (auto simp: check_account_authority_def sign_ok_def)
next
  case False
  then obtain au where au: "ga i = Inr au" "check_authority addrs ga n au s = Inr (b, s')"
    using assms(1) by (auto simp: check_account_authority_def)
  show ?thesis using check_authority_ok(1)[OF au(2) assms(2)] au(1) by (auto intro: meets_endorsed)
qed

text \<open>A failed check is an error, so a successful one returned \<open>True\<close>.\<close>

lemma require_auth_Inr [simp]: "require_auth e r = Inr s \<longleftrightarrow> r = Inr (True, s)"
  by (cases r) (auto simp: require_auth_def)

text \<open>C19: a transaction that passes \<open>verify_authority\<close> is authorised by the keys that signed it. Every
  required active account is endorsed (its active authority reaches its threshold with signed keys,
  addresses of signed keys and endorsed accounts) or its owner authority is met; every required owner
  authority is met or approved; every other authority is met; and unless allowed the committee account
  is not required. Weights wrap at 32 bits in the code; the theorem needs no bound on them.\<close>

theorem verify_authority_sound:
  assumes "verify_authority addrs req sigs ga go depth allow_committee AA OA = Inr ()"
  shows "let K = set sigs; A = {TEMP_ACCOUNT} \<union> AA \<union> OA in
    (\<forall>au\<in>set (req_other req). meets addrs ga K A au) \<and>
    (\<forall>i\<in>set (req_active req). endorsed addrs ga K A i \<or> (\<exists>au. go i = Inr (Some au) \<and> meets addrs ga K A au)) \<and>
    (\<forall>i\<in>set (req_owner req). i \<in> OA \<or> (\<exists>au. go i = Inr (Some au) \<and> meets addrs ga K A au)) \<and>
    (COMMITTEE_ACCOUNT \<in> set (req_active req) \<longrightarrow> allow_committee)"
proof -
  let ?K = "set sigs" and ?A = "{TEMP_ACCOUNT} \<union> AA \<union> OA"
  let ?ok = "sign_ok addrs ga ?K ?A"
  define s0 where "s0 = (init_sign_state TEMP_ACCOUNT sigs [])\<lparr>approved_by := ?A\<rparr>"
  have s0: "?ok s0" by (simp add: s0_def init_sign_ok)
  obtain s1 s2 s3 where
    1: "rfold (\<lambda>au s. require_auth TxMissingOtherAuth (check_authority addrs ga depth (Some au) s)) (req_other req) s0 = Inr s1"
    and 2: "rfold (\<lambda>i s. require_auth TxMissingActiveAuth
         (rbind (check_account_authority addrs ga depth i s) (\<lambda>(b, s). if b then Inr (True, s)
            else rbind (go i) (\<lambda>au. check_authority addrs ga depth au s)))) (req_active req) s1 = Inr s2"
    and 3: "rfold (\<lambda>i s. require_auth TxMissingOwnerAuth (if i \<in> OA then Inr (True, s)
         else rbind (go i) (\<lambda>au. check_authority addrs ga depth au s))) (req_owner req) s2 = Inr s3"
    and c: "COMMITTEE_ACCOUNT \<in> set (req_active req) \<longrightarrow> allow_committee"
    using assms by (auto simp: verify_authority_def Let_def s0_def init_sign_state_def)
  have other: "?ok s1 \<and> (\<forall>au\<in>set (req_other req). meets addrs ga ?K ?A au)"
    by (rule rfold_each[where P = ?ok, OF 1 s0]) (auto dest: check_authority_ok(1))
  have step: "?ok s' \<and> (endorsed addrs ga ?K ?A i \<or> (\<exists>au. go i = Inr (Some au) \<and> meets addrs ga ?K ?A au))"
    if "?ok s" and check: "rbind (check_account_authority addrs ga depth i s) (\<lambda>(b, s). if b then Inr (True, s)
            else rbind (go i) (\<lambda>au. check_authority addrs ga depth au s)) = Inr (True, s')" for i s s'
  proof -
    obtain b t where bt: "check_account_authority addrs ga depth i s = Inr (b, t)"
        "(if b then Inr (True, t) else rbind (go i) (\<lambda>au. check_authority addrs ga depth au t)) = Inr (True, s')"
      using check by auto
    note t = check_account_authority_ok[OF bt(1) that(1)]
    show ?thesis using t bt(2) check_authority_ok(1)[of addrs ga depth _ t True s' ?K ?A] by (auto split: if_splits)
  qed
  have active: "?ok s2 \<and> (\<forall>i\<in>set (req_active req). endorsed addrs ga ?K ?A i \<or>
      (\<exists>au. go i = Inr (Some au) \<and> meets addrs ga ?K ?A au))"
    by (rule rfold_each[where P = ?ok, OF 2 other[THEN conjunct1]])
      (use step in auto)
  have owner: "?ok s3 \<and> (\<forall>i\<in>set (req_owner req). i \<in> OA \<or>
      (\<exists>au. go i = Inr (Some au) \<and> meets addrs ga ?K ?A au))"
    by (rule rfold_each[where P = ?ok, OF 3 active[THEN conjunct1]])
      (auto split: if_splits dest: check_authority_ok(1))
  show ?thesis using other active owner c by (simp add: Let_def)
qed

text \<open>An authority of two: key 1, and account 11 whose own authority is key 2.\<close>

definition example_active :: "nat \<Rightarrow> authority option res" where
  "example_active i =
    (if i = 10 then Inr (Some \<lparr>weight_threshold = 2, account_auths = [(11, 1)], key_auths = [(1, 1)], address_auths = []\<rparr>)
     else if i = 11 then Inr (Some \<lparr>weight_threshold = 1, account_auths = [], key_auths = [(2, 1)], address_auths = []\<rparr>)
     else Inl AssertFail)"

lemma verify_authority_sound_witness:
  "verify_authority (\<lambda>_. []) \<lparr>req_active = [10], req_owner = [], req_other = []\<rparr> [1, 2] example_active example_active 2
     False {} {} = Inr () \<and>
   (endorsed (\<lambda>_. []) example_active (set [1, 2]) ({TEMP_ACCOUNT} \<union> {} \<union> {}) 10 \<or>
    (\<exists>au. example_active 10 = Inr (Some au) \<and> meets (\<lambda>_. []) example_active (set [1, 2]) ({TEMP_ACCOUNT} \<union> {} \<union> {}) au))"
proof -
  have 1: "verify_authority (\<lambda>_. []) \<lparr>req_active = [10], req_owner = [], req_other = []\<rparr> [1, 2] example_active example_active 2
     False {} {} = Inr ()"
    by (simp add: verify_authority_def COMMITTEE_ACCOUNT_def TEMP_ACCOUNT_def init_sign_state_def check_account_authority_def
        example_active_def check_authority.simps check_accounts.simps signed_by_key_def add_weight_def
        remove_unused_signatures_def Let_def)
  show ?thesis using 1 verify_authority_sound[OF 1] by (simp add: Let_def)
qed

text \<open>C20: an unsigned address authority is undefined behaviour. Checking an authority without key
  authorities whose first address belongs to no signing key reads the end iterator of
  \<open>available_address_sigs\<close> instead of reporting a missing authority.\<close>

theorem unsigned_address_undefined:
  assumes "key_auths au = []" "address_auths au = (a, x) # as"
    and "\<forall>k\<in>set sigs \<union> set keys. a \<notin> set (addrs k)"
  shows "check_authority addrs ga n (Some au) (init_sign_state i sigs keys) = Inl UB"
proof -
  let ?s = "init_sign_state i sigs keys" and ?K = "set sigs \<union> set keys"
  have "fst ` set (provided_signatures ?s) \<subseteq> ?K"
    using init_sign_ok[of "{}" "{}" addrs ga sigs i] by (auto simp: sign_ok_def init_sign_state_def)
  moreover have "address_map addrs ks a = None" if "set ks \<subseteq> ?K" for ks
  proof (cases "address_map addrs ks a")
    case (Some k)
    then have "k \<in> set ks \<and> a \<in> set (addrs k)" unfolding address_map_def using fold_addrs_Some by fastforce
    then show ?thesis using assms(3) that by auto
  qed
  ultimately have no: "address_map addrs (map fst (provided_signatures ?s)) a = None" "address_map addrs keys a = None"
    by simp_all
  show ?thesis
    using assms(1,2) no
    by (simp add: check_authority.simps signed_by_address_def fill_address_sigs_def Let_def init_sign_state_def)
qed

lemma unsigned_address_undefined_witness:
  "check_authority (\<lambda>_. []) example_active 2
     (Some \<lparr>weight_threshold = 1, account_auths = [], key_auths = [], address_auths = [(7, 1)]\<rparr>)
     (init_sign_state TEMP_ACCOUNT [1] []) = Inl UB"
  by (rule unsigned_address_undefined[of _ 7 1 "[]"]) simp_all

section \<open>Vote counting\<close>

record vote_counter =
  last_votes :: nat
  total_votes :: nat
  bitshift :: int
  vc_auth :: authority

definition init_vote_counter :: vote_counter where
  "init_vote_counter = \<lparr>last_votes = 2 ^ 64 - 1, total_votes = 0, bitshift = - 1, vc_auth = empty_authority\<rparr>"

fun find_msb :: "nat \<Rightarrow> nat" where
  "find_msb v = (if v < 2 then 0 else 1 + find_msb (v div 2))"

declare find_msb.simps [simp del]

definition vote_counter_add :: "nat \<Rightarrow> nat \<Rightarrow> vote_counter \<Rightarrow> vote_counter" where
  "vote_counter_add who votes vc =
    (if votes = 0 then vc
     else let bs = (if bitshift vc = - 1 then max (int (find_msb votes) - 15) 0 else bitshift vc);
              scaled_votes = max (votes div 2 ^ nat bs) 1
          in vc\<lparr>last_votes := votes, bitshift := bs, total_votes := (total_votes vc + scaled_votes) mod 2 ^ 64,
                vc_auth := add_account_authority who (scaled_votes mod 2 ^ 16) (vc_auth vc)\<rparr>)"

definition vote_counter_finish :: "vote_counter \<Rightarrow> authority \<Rightarrow> authority" where
  "vote_counter_finish vc out_auth =
    (if total_votes vc = 0 then out_auth
     else let weight = total_votes vc mod 2 ^ 32
          in (vc_auth vc)\<lparr>weight_threshold := (weight div 2 + 1) mod 2 ^ 32\<rparr>)"

definition vote_counter_is_empty :: "vote_counter \<Rightarrow> bool" where
  "vote_counter_is_empty vc \<longleftrightarrow> total_votes vc = 0"

section \<open>Vote identifiers\<close>

datatype vote_type = Committee | Witness | Worker | OtherVoteType "32 word"

definition vote_type_code :: "vote_type \<Rightarrow> 32 word" where
  "vote_type_code t = (case t of Committee \<Rightarrow> 0 | Witness \<Rightarrow> 1 | Worker \<Rightarrow> 2 | OtherVoteType c \<Rightarrow> c)"

definition vote_type_of :: "32 word \<Rightarrow> vote_type" where
  "vote_type_of c = (if c = 0 then Committee else if c = 1 then Witness else if c = 2 then Worker else OtherVoteType c)"

definition vote_id :: "vote_type \<Rightarrow> 32 word \<Rightarrow> 32 word" where
  "vote_id t i = push_bit 8 i OR vote_type_code t"

definition vote_set_type :: "vote_type \<Rightarrow> 32 word \<Rightarrow> 32 word" where
  "vote_set_type t c = (c AND 0xffffff00) OR (vote_type_code t AND 0xff)"

definition vote_type_get :: "32 word \<Rightarrow> vote_type" where
  "vote_type_get c = vote_type_of (c AND 0xff)"

definition vote_set_instance :: "32 word \<Rightarrow> 32 word \<Rightarrow> 32 word" where
  "vote_set_instance i c = (c AND 0xff) OR push_bit 8 i"

definition vote_instance :: "32 word \<Rightarrow> 32 word" where
  "vote_instance c = drop_bit 8 c"

definition get_next_vote_id :: "32 word \<Rightarrow> vote_type \<Rightarrow> 32 word \<times> 32 word" where
  "get_next_vote_id next_available t = (vote_id t next_available, next_available + 1)"

lemma small_word_bit:
  assumes "x < 2 ^ k" "bit (x :: 32 word) n"
  shows "n < k \<or> 32 \<le> k"
proof (rule ccontr)
  assume h: "\<not> (n < k \<or> 32 \<le> k)"
  then have "k \<le> n" and k: "(2 :: nat) ^ k < 2 ^ 32" by (simp, intro power_strict_increasing) auto
  have "unat ((2 :: 32 word) ^ k) = unat (of_nat (2 ^ k) :: 32 word)" by simp
  also have "\<dots> = 2 ^ k" using k by (simp only: unat_of_nat) simp
  finally have "unat x < 2 ^ k" using assms(1) by (simp add: word_less_nat_alt)
  then have "take_bit k (unat x) = unat x" by (simp add: take_bit_nat_eq_self)
  moreover have "bit (unat x) n" using assms(2) by (simp add: bit_unsigned_iff bit_imp_possible_bit)
  ultimately show False using \<open>k \<le> n\<close> by (metis bit_take_bit_iff leD)
qed

lemma byte_masks: "(0xff :: 32 word) = mask 8" "(0xffffff00 :: 32 word) = push_bit 8 (mask 24)"
  by (simp_all add: mask_eq_exp_minus_1 push_bit_eq_mult)



section \<open>The authority the vote counter builds\<close>

lemma find_msb_less: "v < 2 ^ (find_msb v + 1)"
proof (induction v rule: find_msb.induct)
  case (1 v)
  then show ?case by (subst find_msb.simps) (auto simp: less_2_cases_iff)
qed

lemma sum_flat_put:
  "k \<notin> fst ` set xs \<Longrightarrow> sum_list (map snd (flat_put k (v :: nat) xs)) = v + sum_list (map snd xs)"
  "fst ` set (flat_put k v xs) = insert k (fst ` set xs)"
  by (induction k v xs rule: flat_put.induct) (auto simp: add.left_commute)

text \<open>After adding members with at most \<open>m\<close> votes, the next having at most \<open>m\<close> too: all weights fit in
  16 bits and the total is their sum.\<close>

definition counter_ok :: "nat \<Rightarrow> nat set \<Rightarrow> vote_counter \<Rightarrow> bool" where
  "counter_ok m members vc \<longleftrightarrow>
    (if bitshift vc = - 1 then total_votes vc = 0 \<and> account_auths (vc_auth vc) = []
     else 0 \<le> bitshift vc \<and> m div 2 ^ nat (bitshift vc) < 2 ^ 16 \<and> 0 < total_votes vc) \<and>
    fst ` set (account_auths (vc_auth vc)) \<subseteq> members \<and>
    total_votes vc = sum_list (map snd (account_auths (vc_auth vc))) \<and>
    total_votes vc \<le> card members * (2 ^ 16 - 1) \<and>
    (\<forall>p\<in>set (account_auths (vc_auth vc)). 0 < snd p \<and> snd p < 2 ^ 16) \<and>
    key_auths (vc_auth vc) = [] \<and> address_auths (vc_auth vc) = []"

lemma counter_ok_add:
  assumes ok: "counter_ok m M vc" and "v \<le> m" "a \<notin> M" "finite M" "card M < 2 ^ 16 - 1"
  shows "counter_ok v (insert a M) (vote_counter_add a v vc)"
proof (cases "v = 0")
  case True
  then show ?thesis using ok assms(3,4)
    by (auto simp: counter_ok_def vote_counter_add_def)
next
  case False
  define bs where "bs = (if bitshift vc = - 1 then max (int (find_msb v) - 15) 0 else bitshift vc)"
  define w where "w = max (v div 2 ^ nat bs) 1"
  have small: "v div 2 ^ nat bs < 2 ^ 16"
  proof (cases "bitshift vc = - 1")
    case True
    have "find_msb v + 1 \<le> nat bs + 16" using True by (simp add: bs_def)
    then have "(2::nat) ^ (find_msb v + 1) \<le> 2 ^ nat bs * 2 ^ 16"
      by (metis power_add power_increasing one_le_numeral)
    then have "v < 2 ^ 16 * 2 ^ nat bs" using find_msb_less[of v] by (simp add: mult.commute)
    then show ?thesis by (simp add: less_mult_imp_div_less)
  next
    case False
    then have "m div 2 ^ nat bs < 2 ^ 16" using ok by (simp add: counter_ok_def bs_def)
    then show ?thesis using div_le_mono[OF assms(2), of "2 ^ nat bs"] by linarith
  qed
  have w: "0 < w" "w < 2 ^ 16" "w mod 2 ^ 16 = w" using small by (auto simp: w_def)
  have b0: "0 \<le> bs" "bs \<noteq> - 1" using ok by (auto simp: bs_def counter_ok_def split: if_splits)
  have "total_votes vc + w \<le> card M * (2 ^ 16 - 1) + (2 ^ 16 - 1)" using ok w by (simp add: counter_ok_def)
  also have "\<dots> = (card M + 1) * (2 ^ 16 - 1)" by simp
  finally have t: "total_votes vc + w \<le> (card M + 1) * (2 ^ 16 - 1)" .
  also have "\<dots> \<le> 2 ^ 16 * 2 ^ 16" using assms(5) by (intro mult_mono) auto
  finally have "(total_votes vc + w) mod 2 ^ 64 = total_votes vc + w" by simp
  then have vc': "vote_counter_add a v vc = vc\<lparr>last_votes := v, bitshift := bs, total_votes := total_votes vc + w,
      vc_auth := add_account_authority a w (vc_auth vc)\<rparr>"
    using False w(3) by (simp add: vote_counter_add_def Let_def flip: bs_def w_def del: One_nat_def)
  have "a \<notin> fst ` set (account_auths (vc_auth vc))" using ok assms(3) by (auto simp: counter_ok_def)
  note sums = sum_flat_put(1)[OF this, of w] sum_flat_put(2)[of a w "account_auths (vc_auth vc)"]
  have p: "\<forall>p\<in>set (flat_put a w (account_auths (vc_auth vc))). 0 < snd p \<and> snd p < 2 ^ 16"
    using set_flat_put[of a w "account_auths (vc_auth vc)"] ok w by (auto simp: counter_ok_def)
  show ?thesis
    using ok w b0 small t sums p assms(3,4)
    by (auto simp: counter_ok_def vc' add_account_authority_def)
qed

lemma counter_ok_fold:
  assumes "counter_ok m M vc" "sorted_wrt (\<ge>) (map snd vs)" "\<forall>v\<in>set vs. snd v \<le> m"
    "distinct (map fst vs)" "fst ` set vs \<inter> M = {}" "finite M" "card M + length vs < 2 ^ 16"
  shows "\<exists>m'. counter_ok m' (M \<union> fst ` set vs) (fold (\<lambda>(a, v). vote_counter_add a v) vs vc)"
  using assms
proof (induction vs arbitrary: m M vc)
  case (Cons p vs)
  obtain a v where p: "p = (a, v)" by (cases p)
  have "counter_ok v (insert a M) (vote_counter_add a v vc)"
    using Cons.prems by (intro counter_ok_add[of m]) (auto simp: p)
  then have "\<exists>m'. counter_ok m' (insert a M \<union> fst ` set vs)
      (fold (\<lambda>(a, v). vote_counter_add a v) vs (vote_counter_add a v vc))"
    by (rule Cons.IH) (use Cons.prems in \<open>auto simp: p\<close>)
  then show ?case by (simp add: p Un_insert_left)
qed (auto simp: counter_ok_def)

text \<open>C22: the authority that \<open>vote_counter\<close> writes asks for more than half of the weight of its members
  and can be met by all of them; every member has a weight between 1 and \<open>2 ^ 16 - 1\<close>. Members are added
  in order of falling votes, as the code asserts, and are fewer than \<open>2 ^ 16\<close>.\<close>

theorem vote_counter_majority:
  assumes "sorted_wrt (\<ge>) (map snd vs)" "distinct (map fst vs)" "length vs < 2 ^ 16"
  defines "vc \<equiv> fold (\<lambda>(a, v). vote_counter_add a v) vs init_vote_counter"
  shows "vote_counter_is_empty vc \<and> vote_counter_finish vc out = out \<or>
    (let au = vote_counter_finish vc out; total = sum_list (map snd (account_auths au)) in
      total < 2 * weight_threshold au \<and> weight_threshold au \<le> total \<and> \<not> is_impossible au \<and>
      (\<forall>p\<in>set (account_auths au). fst p \<in> fst ` set vs \<and> 0 < snd p \<and> snd p < 2 ^ 16))"
proof -
  define m where "m = Max (insert 0 (snd ` set vs))"
  have "counter_ok m {} init_vote_counter"
    by (simp add: counter_ok_def init_vote_counter_def empty_authority_def)
  from counter_ok_fold[OF this assms(1)] obtain m' where ok: "counter_ok m' (fst ` set vs) vc"
    using assms(2,3) by (auto simp: m_def vc_def)
  show ?thesis
  proof (cases "total_votes vc = 0")
    case True
    then show ?thesis by (simp add: vote_counter_is_empty_def vote_counter_finish_def)
  next
    case False
    let ?t = "total_votes vc"
    have "?t \<le> card (fst ` set vs) * (2 ^ 16 - 1)" using ok by (simp add: counter_ok_def)
    also have "\<dots> \<le> (2 ^ 16 - 1) * (2 ^ 16 - 1)"
      using card_image_le[of "set vs" fst] card_length[of vs] assms(3) by (intro mult_right_mono) auto
    finally have t: "?t < 2 ^ 32" by simp
    then have fin: "vote_counter_finish vc out = (vc_auth vc)\<lparr>weight_threshold := ?t div 2 + 1\<rparr>"
      using False by (simp add: vote_counter_finish_def Let_def)
    have "?t < 2 * (?t div 2 + 1)" "?t div 2 + 1 \<le> ?t" using False by presburger+
    then show ?thesis using ok t by (auto simp: fin Let_def counter_ok_def is_impossible_def)
  qed
qed

lemma vote_counter_majority_witness:
  "let vc = fold (\<lambda>(a, v). vote_counter_add a v) [(7, 300000), (8, 200000)] init_vote_counter in
    vote_counter_is_empty vc \<and> vote_counter_finish vc empty_authority = empty_authority \<or>
    (let au = vote_counter_finish vc empty_authority; total = sum_list (map snd (account_auths au)) in
      total < 2 * weight_threshold au \<and> weight_threshold au \<le> total \<and> \<not> is_impossible au \<and>
      (\<forall>p\<in>set (account_auths au). fst p \<in> fst ` set [(7, 300000), (8, 200000 :: nat)] \<and> 0 < snd p \<and> snd p < 2 ^ 16))"
  unfolding Let_def[of "fold _ _ _"] by (rule vote_counter_majority) simp_all

end
