(* ===== verification/Vesting.thy ===== *)
theory Vesting
  imports Asset_Price
begin

text \<open>Vesting balances: \<open>chain/vesting_balance_object.hpp\<close> and \<open>vesting_balance_object.cpp\<close>.

  Two policies decide what may be withdrawn: the linear one (a cliff and a straight line) and the one
  by coin-seconds earned (CDD). Times are seconds; \<open>fc::uint128\<close> wraps modulo \<open>2 ^ 128\<close> (\<open>u128\<close>), and
  \<open>to_uint64\<close> throws when the high half is not zero. The locale \<open>vesting_contract\<close> states what a vesting
  balance needs of its policy; it is interpreted on both policies.\<close>

record vesting_policy_context =
  ctx_balance :: asset
  ctx_now :: int
  ctx_amount :: asset

record linear_vesting_policy =
  begin_timestamp :: int
  vesting_cliff_seconds :: int
  vesting_duration_seconds :: int
  begin_balance :: int

record cdd_vesting_policy =
  vesting_seconds :: int
  coin_seconds_earned :: int
  start_claim :: int
  coin_seconds_earned_last_update :: int

datatype vesting_policy = Linear linear_vesting_policy | Cdd cdd_vesting_policy

record vesting_balance_object =
  vb_owner :: nat
  vb_balance :: asset
  vb_policy :: vesting_policy

definition to_uint64 :: "int \<Rightarrow> int res" where
  "to_uint64 x = fc_assert (x < 2 ^ 64) (Inr x)"

text \<open>An unsigned 64-bit value stored in a \<open>share_type\<close>.\<close>

definition share_of_u64 :: "int \<Rightarrow> int" where
  "share_of_u64 x = (if x < 2 ^ 63 then x else x - 2 ^ 64)"

definition sum_below_max_shares :: "asset \<Rightarrow> asset \<Rightarrow> bool res" where
  "sum_below_max_shares a b =
    (if \<not> amount a \<le> MAX_SHARE_SUPPLY then Inr False
     else if \<not> amount b \<le> MAX_SHARE_SUPPLY then Inr False
     else rbind (safe_add (amount a) (amount b)) (\<lambda>s. Inr (s \<le> MAX_SHARE_SUPPLY)))"

subsection \<open>The linear policy\<close>

definition linear_get_allowed_withdraw :: "linear_vesting_policy \<Rightarrow> vesting_policy_context \<Rightarrow> asset res" where
  "linear_get_allowed_withdraw p ctx =
    (let ok = (\<lambda>a. Inr (mk_asset a (asset_id (ctx_balance ctx)))) in
     if ctx_now ctx > begin_timestamp p then
       (let elapsed_seconds = ctx_now ctx - begin_timestamp p in
        if elapsed_seconds \<ge> vesting_cliff_seconds p then
          rbind (if elapsed_seconds < vesting_duration_seconds p
                 then rbind (to_uint64 (u128 (u128 (begin_balance p) * elapsed_seconds) div vesting_duration_seconds p))
                   (\<lambda>x. Inr (share_of_u64 x))
                 else Inr (begin_balance p)) (\<lambda>total_vested.
          rbind (safe_sub (begin_balance p) (amount (ctx_balance ctx))) (\<lambda>withdrawn_already.
          rbind (safe_sub total_vested withdrawn_already) ok))
        else ok 0)
     else ok 0)"

definition linear_is_deposit_allowed :: "linear_vesting_policy \<Rightarrow> vesting_policy_context \<Rightarrow> bool res" where
  "linear_is_deposit_allowed p ctx =
    (if asset_id (ctx_amount ctx) = asset_id (ctx_balance ctx)
     then sum_below_max_shares (ctx_amount ctx) (ctx_balance ctx) else Inr False)"

definition linear_is_withdraw_allowed :: "linear_vesting_policy \<Rightarrow> vesting_policy_context \<Rightarrow> bool res" where
  "linear_is_withdraw_allowed p ctx =
    (if asset_id (ctx_amount ctx) = asset_id (ctx_balance ctx)
     then rbind (linear_get_allowed_withdraw p ctx) (asset_le (ctx_amount ctx)) else Inr False)"

definition linear_on_deposit :: "vesting_policy_context \<Rightarrow> linear_vesting_policy \<Rightarrow> linear_vesting_policy res" where
  "linear_on_deposit ctx p = Inr p"

definition linear_on_withdraw :: "vesting_policy_context \<Rightarrow> linear_vesting_policy \<Rightarrow> linear_vesting_policy res" where
  "linear_on_withdraw ctx p = Inr p"

definition linear_on_deposit_vested :: "vesting_policy_context \<Rightarrow> linear_vesting_policy \<Rightarrow> linear_vesting_policy res" where
  "linear_on_deposit_vested ctx p = Inl OtherError"

subsection \<open>The coin-days-destroyed policy\<close>

definition compute_coin_seconds_earned :: "cdd_vesting_policy \<Rightarrow> vesting_policy_context \<Rightarrow> int" where
  "compute_coin_seconds_earned p ctx =
    (let delta_seconds = ctx_now ctx - coin_seconds_earned_last_update p;
         delta_coin_seconds = u128 (u128 (amount (ctx_balance ctx)) * u128 delta_seconds);
         coin_seconds_earned_cap = u128 (u128 (amount (ctx_balance ctx)) * max (vesting_seconds p) 1)
     in min (u128 (coin_seconds_earned p + delta_coin_seconds)) coin_seconds_earned_cap)"

definition update_coin_seconds_earned :: "vesting_policy_context \<Rightarrow> cdd_vesting_policy \<Rightarrow> cdd_vesting_policy" where
  "update_coin_seconds_earned ctx p =
    p\<lparr>coin_seconds_earned := compute_coin_seconds_earned p ctx, coin_seconds_earned_last_update := ctx_now ctx\<rparr>"

definition cdd_get_allowed_withdraw :: "cdd_vesting_policy \<Rightarrow> vesting_policy_context \<Rightarrow> asset res" where
  "cdd_get_allowed_withdraw p ctx =
    (if ctx_now ctx \<le> start_claim p then Inr (mk_asset 0 (asset_id (ctx_balance ctx)))
     else rbind (to_uint64 (compute_coin_seconds_earned p ctx div max (vesting_seconds p) 1))
       (\<lambda>x. Inr (mk_asset (share_of_u64 x) (asset_id (ctx_balance ctx)))))"

definition cdd_on_deposit :: "vesting_policy_context \<Rightarrow> cdd_vesting_policy \<Rightarrow> cdd_vesting_policy res" where
  "cdd_on_deposit ctx p = Inr (update_coin_seconds_earned ctx p)"

text \<open>The product \<open>amount.value * std::max(vesting_seconds, 1u)\<close> is computed in 64 signed bits.\<close>

definition cdd_on_deposit_vested :: "vesting_policy_context \<Rightarrow> cdd_vesting_policy \<Rightarrow> cdd_vesting_policy res" where
  "cdd_on_deposit_vested ctx p =
    rbind (cdd_on_deposit ctx p) (\<lambda>p.
    rassert (in_i64 (amount (ctx_amount ctx) * max (vesting_seconds p) 1)) UB
      (Inr (p\<lparr>coin_seconds_earned :=
        u128 (coin_seconds_earned p + u128 (amount (ctx_amount ctx) * max (vesting_seconds p) 1))\<rparr>)))"

definition cdd_on_withdraw :: "vesting_policy_context \<Rightarrow> cdd_vesting_policy \<Rightarrow> cdd_vesting_policy res" where
  "cdd_on_withdraw ctx p =
    (let p = update_coin_seconds_earned ctx p;
         coin_seconds_needed = u128 (u128 (amount (ctx_amount ctx)) * max (vesting_seconds p) 1)
     in Inr (p\<lparr>coin_seconds_earned := u128 (coin_seconds_earned p - coin_seconds_needed)\<rparr>))"

definition cdd_is_deposit_allowed :: "cdd_vesting_policy \<Rightarrow> vesting_policy_context \<Rightarrow> bool res" where
  "cdd_is_deposit_allowed p ctx =
    (if asset_id (ctx_amount ctx) = asset_id (ctx_balance ctx)
     then sum_below_max_shares (ctx_amount ctx) (ctx_balance ctx) else Inr False)"

definition cdd_is_withdraw_allowed :: "cdd_vesting_policy \<Rightarrow> vesting_policy_context \<Rightarrow> bool res" where
  "cdd_is_withdraw_allowed p ctx = rbind (cdd_get_allowed_withdraw p ctx) (asset_le (ctx_amount ctx))"

subsection \<open>Vesting balance objects\<close>

definition visit_ctx :: "vesting_balance_object \<Rightarrow> int \<Rightarrow> asset \<Rightarrow> vesting_policy_context" where
  "visit_ctx vb now a = \<lparr>ctx_balance = vb_balance vb, ctx_now = now, ctx_amount = a\<rparr>"

definition vb_is_deposit_allowed :: "vesting_balance_object \<Rightarrow> int \<Rightarrow> asset \<Rightarrow> bool res" where
  "vb_is_deposit_allowed vb now a = (case vb_policy vb of
     Linear p \<Rightarrow> linear_is_deposit_allowed p (visit_ctx vb now a)
   | Cdd p \<Rightarrow> cdd_is_deposit_allowed p (visit_ctx vb now a))"

definition vb_is_withdraw_allowed :: "vesting_balance_object \<Rightarrow> int \<Rightarrow> asset \<Rightarrow> bool res" where
  "vb_is_withdraw_allowed vb now a = (case vb_policy vb of
     Linear p \<Rightarrow> linear_is_withdraw_allowed p (visit_ctx vb now a)
   | Cdd p \<Rightarrow> cdd_is_withdraw_allowed p (visit_ctx vb now a))"

definition vb_get_allowed_withdraw :: "vesting_balance_object \<Rightarrow> int \<Rightarrow> asset res" where
  "vb_get_allowed_withdraw vb now = (case vb_policy vb of
     Linear p \<Rightarrow> linear_get_allowed_withdraw p (visit_ctx vb now (mk_asset 0 0))
   | Cdd p \<Rightarrow> cdd_get_allowed_withdraw p (visit_ctx vb now (mk_asset 0 0)))"

definition vb_deposit :: "int \<Rightarrow> asset \<Rightarrow> vesting_balance_object \<Rightarrow> vesting_balance_object res" where
  "vb_deposit now a vb =
    rbind (case vb_policy vb of
        Linear p \<Rightarrow> rbind (linear_on_deposit (visit_ctx vb now a) p) (\<lambda>p. Inr (Linear p))
      | Cdd p \<Rightarrow> rbind (cdd_on_deposit (visit_ctx vb now a) p) (\<lambda>p. Inr (Cdd p))) (\<lambda>pol.
    rbind (asset_add (vb_balance vb) a) (\<lambda>b. Inr (vb\<lparr>vb_balance := b, vb_policy := pol\<rparr>)))"

definition vb_deposit_vested :: "int \<Rightarrow> asset \<Rightarrow> vesting_balance_object \<Rightarrow> vesting_balance_object res" where
  "vb_deposit_vested now a vb =
    rbind (case vb_policy vb of
        Linear p \<Rightarrow> rbind (linear_on_deposit_vested (visit_ctx vb now a) p) (\<lambda>p. Inr (Linear p))
      | Cdd p \<Rightarrow> rbind (cdd_on_deposit_vested (visit_ctx vb now a) p) (\<lambda>p. Inr (Cdd p))) (\<lambda>pol.
    rbind (asset_add (vb_balance vb) a) (\<lambda>b. Inr (vb\<lparr>vb_balance := b, vb_policy := pol\<rparr>)))"

definition vb_withdraw :: "int \<Rightarrow> asset \<Rightarrow> vesting_balance_object \<Rightarrow> vesting_balance_object res" where
  "vb_withdraw now a vb =
    rbind (case vb_policy vb of
        Linear p \<Rightarrow> rbind (linear_on_withdraw (visit_ctx vb now a) p) (\<lambda>p. Inr (Linear p))
      | Cdd p \<Rightarrow> rbind (cdd_on_withdraw (visit_ctx vb now a) p) (\<lambda>p. Inr (Cdd p))) (\<lambda>pol.
    rbind (asset_sub (vb_balance vb) a) (\<lambda>b. Inr (vb\<lparr>vb_balance := b, vb_policy := pol\<rparr>)))"

subsection \<open>The contract between a vesting balance and its policy\<close>

text \<open>\<open>ok t p b\<close>: the policy \<open>p\<close>, last touched at time \<open>t\<close>, is consistent with a balance of \<open>b\<close>.\<close>

locale vesting_contract =
  fixes ok :: "int \<Rightarrow> 'p \<Rightarrow> int \<Rightarrow> bool"
    and allowed :: "'p \<Rightarrow> vesting_policy_context \<Rightarrow> asset res"
    and deposit :: "vesting_policy_context \<Rightarrow> 'p \<Rightarrow> 'p res"
    and withdraw :: "vesting_policy_context \<Rightarrow> 'p \<Rightarrow> 'p res"
  assumes allowed_bounds: "ok t p (amount (ctx_balance ctx)) \<Longrightarrow> t \<le> ctx_now ctx \<Longrightarrow> ctx_now ctx < 2 ^ 32 \<Longrightarrow>
      \<exists>x. allowed p ctx = Inr (mk_asset x (asset_id (ctx_balance ctx))) \<and> 0 \<le> x \<and> x \<le> amount (ctx_balance ctx)"
    and withdraw_ok: "ok t p (amount (ctx_balance ctx)) \<Longrightarrow> t \<le> ctx_now ctx \<Longrightarrow> ctx_now ctx < 2 ^ 32 \<Longrightarrow>
      allowed p ctx = Inr w \<Longrightarrow> 0 \<le> amount (ctx_amount ctx) \<Longrightarrow> amount (ctx_amount ctx) \<le> amount w \<Longrightarrow>
      \<exists>p'. withdraw ctx p = Inr p' \<and> ok (ctx_now ctx) p' (amount (ctx_balance ctx) - amount (ctx_amount ctx))"
    and deposit_ok: "ok t p (amount (ctx_balance ctx)) \<Longrightarrow> t \<le> ctx_now ctx \<Longrightarrow> ctx_now ctx < 2 ^ 32 \<Longrightarrow>
      0 \<le> amount (ctx_amount ctx) \<Longrightarrow> amount (ctx_balance ctx) + amount (ctx_amount ctx) \<le> MAX_SHARE_SUPPLY \<Longrightarrow>
      \<exists>p'. deposit ctx p = Inr p' \<and> ok (ctx_now ctx) p' (amount (ctx_balance ctx) + amount (ctx_amount ctx))"
    and balance_range: "ok t p b \<Longrightarrow> 0 \<le> b \<and> b \<le> MAX_SHARE_SUPPLY"
begin

text \<open>What the object does with its policy: the allowed amount can be taken out and the books stay right.\<close>

lemma withdraw_step:
  assumes "ok t p (amount (ctx_balance ctx))" "t \<le> ctx_now ctx" "ctx_now ctx < 2 ^ 32"
    and "rbind (allowed p ctx) (asset_le (ctx_amount ctx)) = Inr True" and "0 \<le> amount (ctx_amount ctx)"
    and "asset_id (ctx_amount ctx) = asset_id (ctx_balance ctx)"
  shows "\<exists>p'. withdraw ctx p = Inr p' \<and> ok (ctx_now ctx) p' (amount (ctx_balance ctx) - amount (ctx_amount ctx)) \<and>
     amount (ctx_amount ctx) \<le> amount (ctx_balance ctx)"
proof -
  obtain x where x: "allowed p ctx = Inr (mk_asset x (asset_id (ctx_balance ctx)))" "0 \<le> x"
      "x \<le> amount (ctx_balance ctx)"
    using allowed_bounds[OF assms(1-3)] by blast
  then have "amount (ctx_amount ctx) \<le> x"
    using assms(4,6) by (auto simp: asset_le_def asset_lt_def split: if_splits)
  then show ?thesis using withdraw_ok[OF assms(1-3) x(1) assms(5)] x by auto
qed

end

lemma u128_small: "0 \<le> x \<Longrightarrow> x < 2 ^ 128 \<Longrightarrow> u128 x = x"
  by (simp add: u128_def)

subsection \<open>The linear policy keeps the contract\<close>

definition linear_vested :: "linear_vesting_policy \<Rightarrow> int \<Rightarrow> int" where
  "linear_vested p now =
    (if now > begin_timestamp p \<and> now - begin_timestamp p \<ge> vesting_cliff_seconds p then
       (if now - begin_timestamp p < vesting_duration_seconds p
        then begin_balance p * (now - begin_timestamp p) div vesting_duration_seconds p
        else begin_balance p)
     else 0)"

definition linear_ok :: "int \<Rightarrow> linear_vesting_policy \<Rightarrow> int \<Rightarrow> bool" where
  "linear_ok t p b \<longleftrightarrow> 0 \<le> begin_balance p \<and> begin_balance p \<le> MAX_SHARE_SUPPLY \<and> 0 \<le> b \<and> b \<le> MAX_SHARE_SUPPLY \<and>
     0 \<le> begin_timestamp p \<and> begin_balance p - b \<le> linear_vested p t"

lemma linear_vested_bounds:
  assumes "0 \<le> begin_balance p"
  shows "0 \<le> linear_vested p now" "linear_vested p now \<le> begin_balance p"
  using assms mult_div_le_self[of "begin_balance p" "now - begin_timestamp p" "vesting_duration_seconds p"]
  by (auto simp: linear_vested_def)

lemma linear_vested_mono:
  assumes "0 \<le> begin_balance p" "t \<le> now"
  shows "linear_vested p t \<le> linear_vested p now"
proof (cases "t > begin_timestamp p \<and> t - begin_timestamp p \<ge> vesting_cliff_seconds p")
  case False
  then have "linear_vested p t = 0" by (auto simp: linear_vested_def)
  then show ?thesis using linear_vested_bounds[OF assms(1), of now] by simp
next
  case True
  show ?thesis
  proof (cases "now - begin_timestamp p < vesting_duration_seconds p")
    case False
    show ?thesis
    proof -
      have "linear_vested p now = begin_balance p" using True False assms(2) by (simp add: linear_vested_def)
      then show ?thesis using linear_vested_bounds(2)[OF assms(1), of t] by simp
    qed
  next
    case inside: True
    have "begin_balance p * (t - begin_timestamp p) \<le> begin_balance p * (now - begin_timestamp p)"
      using assms by (simp add: mult_left_mono)
    moreover have "0 < vesting_duration_seconds p" using True inside assms(2) by linarith
    ultimately have "begin_balance p * (t - begin_timestamp p) div vesting_duration_seconds p
        \<le> begin_balance p * (now - begin_timestamp p) div vesting_duration_seconds p" by (rule zdiv_mono1)
    moreover have "t - begin_timestamp p < vesting_duration_seconds p" "begin_timestamp p < now"
      "vesting_cliff_seconds p \<le> now - begin_timestamp p" using True inside assms(2) by linarith+
    ultimately show ?thesis using True inside by (simp add: linear_vested_def)
  qed
qed

lemma linear_allowed_eq:
  assumes "0 \<le> begin_balance p" "begin_balance p \<le> MAX_SHARE_SUPPLY" "0 \<le> begin_timestamp p"
    and "0 \<le> amount (ctx_balance ctx)" "amount (ctx_balance ctx) \<le> MAX_SHARE_SUPPLY" "ctx_now ctx < 2 ^ 32"
  shows "linear_get_allowed_withdraw p ctx = Inr (mk_asset
    (if ctx_now ctx > begin_timestamp p \<and> ctx_now ctx - begin_timestamp p \<ge> vesting_cliff_seconds p
     then linear_vested p (ctx_now ctx) - (begin_balance p - amount (ctx_balance ctx)) else 0)
    (asset_id (ctx_balance ctx)))"
proof (cases "ctx_now ctx > begin_timestamp p \<and> ctx_now ctx - begin_timestamp p \<ge> vesting_cliff_seconds p")
  case False
  then show ?thesis by (auto simp: linear_get_allowed_withdraw_def Let_def)
next
  case True
  define e where "e = ctx_now ctx - begin_timestamp p"
  have e: "0 < e" "e < 2 ^ 32" using True assms(3,6) by (auto simp: e_def)
  have "begin_balance p * e \<le> MAX_SHARE_SUPPLY * 2 ^ 32" using assms e by (intro mult_mono) auto
  then have u: "u128 (u128 (begin_balance p) * e) = begin_balance p * e"
    using assms e by (simp add: u128_small MAX_SHARE_SUPPLY_def)
  have v: "begin_balance p * e div vesting_duration_seconds p = linear_vested p (ctx_now ctx)"
    if "e < vesting_duration_seconds p" using True that by (simp add: linear_vested_def e_def)
  have b: "0 \<le> linear_vested p (ctx_now ctx)" "linear_vested p (ctx_now ctx) \<le> MAX_SHARE_SUPPLY"
    using linear_vested_bounds[OF assms(1), of "ctx_now ctx"] assms(2) by auto
  have full: "linear_vested p (ctx_now ctx) = begin_balance p" if "\<not> e < vesting_duration_seconds p"
    using True that by (simp add: linear_vested_def e_def)
  have s1: "safe_sub (begin_balance p) (amount (ctx_balance ctx)) = Inr (begin_balance p - amount (ctx_balance ctx))"
    and s2: "safe_sub (linear_vested p (ctx_now ctx)) (begin_balance p - amount (ctx_balance ctx))
       = Inr (linear_vested p (ctx_now ctx) - (begin_balance p - amount (ctx_balance ctx)))"
    using assms b by (auto simp: safe_sub_def i64_defs MAX_SHARE_SUPPLY_def)
  have tv: "(if e < vesting_duration_seconds p
        then rbind (to_uint64 (u128 (u128 (begin_balance p) * e) div vesting_duration_seconds p))
             (\<lambda>x. Inr (share_of_u64 x))
        else Inr (begin_balance p)) = (Inr (linear_vested p (ctx_now ctx)) :: int res)"
    using u v full b by (simp add: to_uint64_def share_of_u64_def MAX_SHARE_SUPPLY_def)
  show ?thesis
    using True s1 s2 tv by (simp add: linear_get_allowed_withdraw_def Let_def flip: e_def)
qed

lemma linear_contract_allowed:
  assumes "linear_ok t p (amount (ctx_balance ctx))" "t \<le> ctx_now ctx" "ctx_now ctx < 2 ^ 32"
  shows "\<exists>x. linear_get_allowed_withdraw p ctx = Inr (mk_asset x (asset_id (ctx_balance ctx))) \<and>
    0 \<le> x \<and> x \<le> amount (ctx_balance ctx) \<and> x \<le> linear_vested p (ctx_now ctx) - (begin_balance p - amount (ctx_balance ctx))"
proof -
  have b: "0 \<le> begin_balance p" "begin_balance p \<le> MAX_SHARE_SUPPLY" "0 \<le> begin_timestamp p"
    "0 \<le> amount (ctx_balance ctx)" "amount (ctx_balance ctx) \<le> MAX_SHARE_SUPPLY"
    "begin_balance p - amount (ctx_balance ctx) \<le> linear_vested p t"
    using assms(1) by (simp_all add: linear_ok_def)
  have v: "linear_vested p t \<le> linear_vested p (ctx_now ctx)" "linear_vested p (ctx_now ctx) \<le> begin_balance p"
    using linear_vested_mono[OF b(1) assms(2)] linear_vested_bounds[OF b(1)] by auto
  show ?thesis unfolding linear_allowed_eq[OF b(1-5) assms(3)]
    by (rule exI[of _ "if ctx_now ctx > begin_timestamp p \<and> ctx_now ctx - begin_timestamp p \<ge> vesting_cliff_seconds p
      then linear_vested p (ctx_now ctx) - (begin_balance p - amount (ctx_balance ctx)) else 0"]) (use b v in auto)
qed

interpretation linear: vesting_contract linear_ok linear_get_allowed_withdraw linear_on_deposit linear_on_withdraw
proof
  fix t p and ctx :: vesting_policy_context
  assume a: "linear_ok t p (amount (ctx_balance ctx))" "t \<le> ctx_now ctx" "ctx_now ctx < 2 ^ 32"
  show "\<exists>x. linear_get_allowed_withdraw p ctx = Inr (mk_asset x (asset_id (ctx_balance ctx))) \<and>
      0 \<le> x \<and> x \<le> amount (ctx_balance ctx)"
    using linear_contract_allowed[OF a] by blast
  show "linear_get_allowed_withdraw p ctx = Inr w \<Longrightarrow> 0 \<le> amount (ctx_amount ctx) \<Longrightarrow>
      amount (ctx_amount ctx) \<le> amount w \<Longrightarrow>
      \<exists>p'. linear_on_withdraw ctx p = Inr p' \<and> linear_ok (ctx_now ctx) p' (amount (ctx_balance ctx) - amount (ctx_amount ctx))" for w
    using linear_contract_allowed[OF a] a(1) by (auto simp: linear_on_withdraw_def linear_ok_def)
  show "0 \<le> amount (ctx_amount ctx) \<Longrightarrow> amount (ctx_balance ctx) + amount (ctx_amount ctx) \<le> MAX_SHARE_SUPPLY \<Longrightarrow>
      \<exists>p'. linear_on_deposit ctx p = Inr p' \<and> linear_ok (ctx_now ctx) p' (amount (ctx_balance ctx) + amount (ctx_amount ctx))"
  proof -
    have "0 \<le> begin_balance p" using a(1) by (simp add: linear_ok_def)
    from linear_vested_mono[OF this a(2)]
    show "0 \<le> amount (ctx_amount ctx) \<Longrightarrow> amount (ctx_balance ctx) + amount (ctx_amount ctx) \<le> MAX_SHARE_SUPPLY \<Longrightarrow>
      \<exists>p'. linear_on_deposit ctx p = Inr p' \<and> linear_ok (ctx_now ctx) p' (amount (ctx_balance ctx) + amount (ctx_amount ctx))"
      using a by (simp add: linear_on_deposit_def linear_ok_def)
  qed
qed (auto simp: linear_ok_def)

subsection \<open>The coin-days-destroyed policy keeps the contract\<close>

definition cdd_ok :: "int \<Rightarrow> cdd_vesting_policy \<Rightarrow> int \<Rightarrow> bool" where
  "cdd_ok t p b \<longleftrightarrow> 0 \<le> b \<and> b \<le> MAX_SHARE_SUPPLY \<and> vesting_seconds p < 2 ^ 32 \<and>
     0 \<le> coin_seconds_earned_last_update p \<and> coin_seconds_earned_last_update p \<le> t \<and>
     0 \<le> coin_seconds_earned p \<and> coin_seconds_earned p \<le> b * max (vesting_seconds p) 1"

lemma share_product_small:
  assumes "0 \<le> b" "b \<le> MAX_SHARE_SUPPLY" "0 \<le> s" "s \<le> 2 ^ 32"
  shows "0 \<le> b * s" "b * s \<le> MAX_SHARE_SUPPLY * 2 ^ 32" "u128 (u128 b * s) = b * s" "u128 (u128 b * u128 s) = b * s"
proof -
  show l: "0 \<le> b * s" using assms by simp
  show "b * s \<le> MAX_SHARE_SUPPLY * 2 ^ 32" using assms by (intro mult_mono) (auto simp: MAX_SHARE_SUPPLY_def)
  with l assms show "u128 (u128 b * s) = b * s" "u128 (u128 b * u128 s) = b * s"
    by (simp_all add: u128_small MAX_SHARE_SUPPLY_def)
qed

lemma compute_coin_seconds_eq:
  assumes "cdd_ok t p (amount (ctx_balance ctx))" "t \<le> ctx_now ctx" "ctx_now ctx < 2 ^ 32"
  shows "compute_coin_seconds_earned p ctx =
    min (coin_seconds_earned p + amount (ctx_balance ctx) * (ctx_now ctx - coin_seconds_earned_last_update p))
        (amount (ctx_balance ctx) * max (vesting_seconds p) 1)"
proof -
  let ?b = "amount (ctx_balance ctx)" and ?d = "ctx_now ctx - coin_seconds_earned_last_update p"
    and ?s = "max (vesting_seconds p) 1"
  have r: "0 \<le> ?b" "?b \<le> MAX_SHARE_SUPPLY" "0 \<le> ?d" "?d \<le> 2 ^ 32" "0 \<le> ?s" "?s \<le> 2 ^ 32"
    "0 \<le> coin_seconds_earned p" "coin_seconds_earned p \<le> ?b * ?s"
    using assms by (auto simp: cdd_ok_def)
  note d = share_product_small[OF r(1-4)] and s = share_product_small[OF r(1,2,5,6)]
  have "u128 (coin_seconds_earned p + ?b * ?d) = coin_seconds_earned p + ?b * ?d"
    by (rule u128_small) (use r(7,8) d(1,2) s(2) in \<open>auto simp: MAX_SHARE_SUPPLY_def\<close>)
  then show ?thesis by (simp add: compute_coin_seconds_earned_def Let_def d(4) s(3))
qed

lemma compute_coin_seconds_bounds:
  assumes "cdd_ok t p (amount (ctx_balance ctx))" "t \<le> ctx_now ctx" "ctx_now ctx < 2 ^ 32"
  shows "0 \<le> compute_coin_seconds_earned p ctx"
    "compute_coin_seconds_earned p ctx \<le> amount (ctx_balance ctx) * max (vesting_seconds p) 1"
  using assms compute_coin_seconds_eq[OF assms] by (auto simp: cdd_ok_def)

lemma cdd_allowed_eq:
  assumes "cdd_ok t p (amount (ctx_balance ctx))" "t \<le> ctx_now ctx" "ctx_now ctx < 2 ^ 32"
  shows "cdd_get_allowed_withdraw p ctx = Inr (mk_asset
     (if ctx_now ctx \<le> start_claim p then 0 else compute_coin_seconds_earned p ctx div max (vesting_seconds p) 1)
     (asset_id (ctx_balance ctx)))"
    and "0 \<le> compute_coin_seconds_earned p ctx div max (vesting_seconds p) 1"
    and "compute_coin_seconds_earned p ctx div max (vesting_seconds p) 1 \<le> amount (ctx_balance ctx)"
proof -
  let ?q = "compute_coin_seconds_earned p ctx div max (vesting_seconds p) 1"
  note c = compute_coin_seconds_bounds[OF assms]
  show q0: "0 \<le> ?q" using c(1) by (simp add: pos_imp_zdiv_nonneg_iff)
  have "?q \<le> amount (ctx_balance ctx) * max (vesting_seconds p) 1 div max (vesting_seconds p) 1"
    using c(2) by (intro zdiv_mono1) auto
  then show q1: "?q \<le> amount (ctx_balance ctx)" by simp
  have "?q < 2 ^ 63" using q1 assms(1) by (auto simp: cdd_ok_def MAX_SHARE_SUPPLY_def)
  with q0 q1 show "cdd_get_allowed_withdraw p ctx = Inr (mk_asset
     (if ctx_now ctx \<le> start_claim p then 0 else ?q) (asset_id (ctx_balance ctx)))"
    by (simp add: cdd_get_allowed_withdraw_def to_uint64_def share_of_u64_def)
qed

interpretation cdd: vesting_contract cdd_ok cdd_get_allowed_withdraw cdd_on_deposit cdd_on_withdraw
proof
  fix t p and ctx :: vesting_policy_context
  assume a: "cdd_ok t p (amount (ctx_balance ctx))" "t \<le> ctx_now ctx" "ctx_now ctx < 2 ^ 32"
  let ?s = "max (vesting_seconds p) 1" and ?b = "amount (ctx_balance ctx)" and ?a = "amount (ctx_amount ctx)"
  note c = compute_coin_seconds_bounds[OF a] and al = cdd_allowed_eq[OF a]
  have r: "0 \<le> ?b" "?b \<le> MAX_SHARE_SUPPLY" "vesting_seconds p < 2 ^ 32" "0 \<le> ctx_now ctx"
    using a by (auto simp: cdd_ok_def)
  show "\<exists>x. cdd_get_allowed_withdraw p ctx = Inr (mk_asset x (asset_id (ctx_balance ctx))) \<and> 0 \<le> x \<and> x \<le> ?b"
    using al r by auto
  show "\<exists>p'. cdd_on_withdraw ctx p = Inr p' \<and> cdd_ok (ctx_now ctx) p' (?b - ?a)"
    if w: "cdd_get_allowed_withdraw p ctx = Inr w" "0 \<le> ?a" "?a \<le> amount w" for w
  proof -
    have aw: "?a \<le> compute_coin_seconds_earned p ctx div ?s" "?a \<le> ?b" using w al r by (auto split: if_splits)
    then have "?a * ?s \<le> compute_coin_seconds_earned p ctx"
      using sdiv_bound_pos[of ?s "compute_coin_seconds_earned p ctx" ?a] c(1) by simp
    moreover have "u128 (u128 ?a * ?s) = ?a * ?s" using w(2) aw(2) r by (intro share_product_small(3)) auto
    moreover have "?b * ?s \<le> MAX_SHARE_SUPPLY * 2 ^ 32" by (rule share_product_small(2)) (use r in auto)
    then have "compute_coin_seconds_earned p ctx < 2 ^ 128" using c(2) by (simp add: MAX_SHARE_SUPPLY_def)
    moreover have "0 \<le> ?a * ?s" using w(2) by simp
    ultimately have "u128 (compute_coin_seconds_earned p ctx - ?a * ?s) = compute_coin_seconds_earned p ctx - ?a * ?s"
      "u128 (u128 ?a * ?s) = ?a * ?s" "?a * ?s \<le> compute_coin_seconds_earned p ctx"
      by (auto intro!: u128_small)
    then show ?thesis
      using c r w(2) aw
      by (simp add: cdd_on_withdraw_def update_coin_seconds_earned_def cdd_ok_def left_diff_distrib)
  qed
  show "\<exists>p'. cdd_on_deposit ctx p = Inr p' \<and> cdd_ok (ctx_now ctx) p' (?b + ?a)"
    if d: "0 \<le> ?a" "?b + ?a \<le> MAX_SHARE_SUPPLY"
  proof -
    have "?b * ?s \<le> (?b + ?a) * ?s" using d(1) by (intro mult_right_mono) auto
    then show ?thesis using c r d by (simp add: cdd_on_deposit_def update_coin_seconds_earned_def cdd_ok_def)
  qed
qed (auto simp: cdd_ok_def)

subsection \<open>Vesting balance objects keep the contract\<close>

definition vb_ok :: "int \<Rightarrow> vesting_balance_object \<Rightarrow> bool" where
  "vb_ok t vb = (case vb_policy vb of
     Linear p \<Rightarrow> linear_ok t p (amount (vb_balance vb))
   | Cdd p \<Rightarrow> cdd_ok t p (amount (vb_balance vb)))"

lemma visit_ctx_sel [simp]:
  "ctx_balance (visit_ctx vb now a) = vb_balance vb" "ctx_now (visit_ctx vb now a) = now"
  "ctx_amount (visit_ctx vb now a) = a"
  by (simp_all add: visit_ctx_def)

lemma asset_sub_exact:
  "asset_id a = asset_id b \<Longrightarrow> 0 \<le> amount b \<Longrightarrow> amount b \<le> amount a \<Longrightarrow> amount a \<le> MAX_SHARE_SUPPLY \<Longrightarrow>
    asset_sub a b = Inr (mk_asset (amount a - amount b) (asset_id a))"
  by (simp add: asset_sub_def safe_sub_def i64_defs MAX_SHARE_SUPPLY_def)

lemma asset_add_exact:
  "asset_id a = asset_id b \<Longrightarrow> 0 \<le> amount a \<Longrightarrow> 0 \<le> amount b \<Longrightarrow> amount a + amount b \<le> MAX_SHARE_SUPPLY \<Longrightarrow>
    asset_add a b = Inr (mk_asset (amount a + amount b) (asset_id a))"
  by (simp add: asset_add_def safe_add_def i64_defs MAX_SHARE_SUPPLY_def)

lemma asset_le_id: "asset_le a b = Inr True \<Longrightarrow> asset_id a = asset_id b"
  by (auto simp: asset_le_def asset_lt_def split: if_splits)

lemma vb_withdraw_allowed:
  assumes "vb_ok t vb" "t \<le> now" "now < 2 ^ 32" "0 \<le> amount a" and al: "vb_is_withdraw_allowed vb now a = Inr True"
  shows "\<exists>vb'. vb_withdraw now a vb = Inr vb' \<and> vb_ok now vb' \<and> amount a \<le> amount (vb_balance vb) \<and>
    vb_balance vb' = mk_asset (amount (vb_balance vb) - amount a) (asset_id (vb_balance vb)) \<and> vb_owner vb' = vb_owner vb"
proof (cases "vb_policy vb")
  case (Linear p)
  let ?ctx = "visit_ctx vb now a"
  have ok: "linear_ok t p (amount (ctx_balance ?ctx))" using assms(1) Linear by (simp add: vb_ok_def)
  have w: "rbind (linear_get_allowed_withdraw p ?ctx) (asset_le (ctx_amount ?ctx)) = Inr True"
    and i: "asset_id (ctx_amount ?ctx) = asset_id (ctx_balance ?ctx)"
    using al Linear by (auto simp: vb_is_withdraw_allowed_def linear_is_withdraw_allowed_def split: if_splits)
  obtain p' where p': "linear_on_withdraw ?ctx p = Inr p'" "linear_ok now p' (amount (vb_balance vb) - amount a)"
      "amount a \<le> amount (vb_balance vb)"
    using linear.withdraw_step[OF ok _ _ w _ i] assms(2-4) by auto
  have "asset_sub (vb_balance vb) a = Inr (mk_asset (amount (vb_balance vb) - amount a) (asset_id (vb_balance vb)))"
    by (rule asset_sub_exact) (use i p'(3) assms(4) linear.balance_range[OF ok] in auto)
  then show ?thesis using Linear p' by (simp add: vb_withdraw_def vb_ok_def)
next
  case (Cdd p)
  let ?ctx = "visit_ctx vb now a"
  have ok: "cdd_ok t p (amount (ctx_balance ?ctx))" using assms(1) Cdd by (simp add: vb_ok_def)
  have w: "rbind (cdd_get_allowed_withdraw p ?ctx) (asset_le (ctx_amount ?ctx)) = Inr True"
    using al Cdd by (auto simp: vb_is_withdraw_allowed_def cdd_is_withdraw_allowed_def)
  have i: "asset_id (ctx_amount ?ctx) = asset_id (ctx_balance ?ctx)"
    using w cdd_allowed_eq(1)[OF ok] assms(2,3) asset_le_id by fastforce
  obtain p' where p': "cdd_on_withdraw ?ctx p = Inr p'" "cdd_ok now p' (amount (vb_balance vb) - amount a)"
      "amount a \<le> amount (vb_balance vb)"
    using cdd.withdraw_step[OF ok _ _ w _ i] assms(2-4) by auto
  have "asset_sub (vb_balance vb) a = Inr (mk_asset (amount (vb_balance vb) - amount a) (asset_id (vb_balance vb)))"
    by (rule asset_sub_exact) (use i p'(3) assms(4) cdd.balance_range[OF ok] in auto)
  then show ?thesis using Cdd p' by (simp add: vb_withdraw_def vb_ok_def)
qed

lemma vb_deposit_allowed:
  assumes "vb_ok t vb" "t \<le> now" "now < 2 ^ 32" "0 \<le> amount a" and al: "vb_is_deposit_allowed vb now a = Inr True"
  shows "\<exists>vb'. vb_deposit now a vb = Inr vb' \<and> vb_ok now vb' \<and>
    vb_balance vb' = mk_asset (amount (vb_balance vb) + amount a) (asset_id (vb_balance vb)) \<and> vb_owner vb' = vb_owner vb"
proof -
  have i: "asset_id a = asset_id (vb_balance vb)"
    and s: "amount (vb_balance vb) + amount a \<le> MAX_SHARE_SUPPLY"
    using al by (auto simp: vb_is_deposit_allowed_def linear_is_deposit_allowed_def cdd_is_deposit_allowed_def
        sum_below_max_shares_def add.commute dest!: safe_add_Inr split: vesting_policy.splits if_splits)
  have b: "0 \<le> amount (vb_balance vb)"
    using assms(1) linear.balance_range cdd.balance_range by (fastforce simp: vb_ok_def split: vesting_policy.splits)
  have add: "asset_add (vb_balance vb) a = Inr (mk_asset (amount (vb_balance vb) + amount a) (asset_id (vb_balance vb)))"
    by (rule asset_add_exact) (use i s b assms(4) in auto)
  show ?thesis
  proof (cases "vb_policy vb")
    case (Linear p)
    have ok: "linear_ok t p (amount (ctx_balance (visit_ctx vb now a)))" using assms(1) Linear by (simp add: vb_ok_def)
    show ?thesis using linear.deposit_ok[OF ok] assms(2-4) s add Linear by (auto simp: vb_deposit_def vb_ok_def)
  next
    case (Cdd p)
    have ok: "cdd_ok t p (amount (ctx_balance (visit_ctx vb now a)))" using assms(1) Cdd by (simp add: vb_ok_def)
    show ?thesis using cdd.deposit_ok[OF ok] assms(2-4) s add Cdd by (auto simp: vb_deposit_def vb_ok_def)
  qed
qed

text \<open>A history of deposits and withdrawals: each is checked, then applied, at its time.\<close>

datatype vb_op = Deposit asset | Withdraw asset

fun vb_step :: "int \<times> vb_op \<Rightarrow> vesting_balance_object \<Rightarrow> vesting_balance_object res" where
  "vb_step (now, Deposit a) vb =
    rbind (vb_is_deposit_allowed vb now a) (\<lambda>ok. fc_assert ok (vb_deposit now a vb))"
| "vb_step (now, Withdraw a) vb =
    rbind (vb_is_withdraw_allowed vb now a) (\<lambda>ok. fc_assert ok (vb_withdraw now a vb))"

fun op_amount :: "vb_op \<Rightarrow> int" where
  "op_amount (Deposit a) = amount a"
| "op_amount (Withdraw a) = amount a"

fun op_effect :: "vb_op \<Rightarrow> int" where
  "op_effect (Deposit a) = amount a"
| "op_effect (Withdraw a) = - amount a"

lemma vb_step_ok:
  assumes "vb_ok t vb" "t \<le> now" "now < 2 ^ 32" "0 \<le> op_amount c" "vb_step (now, c) vb = Inr vb'"
  shows "vb_ok now vb' \<and> amount (vb_balance vb') = amount (vb_balance vb) + op_effect c"
  using assms vb_deposit_allowed[of t vb now] vb_withdraw_allowed[of t vb now]
  by (cases c) (fastforce)+

lemma vb_ok_range: "vb_ok t vb \<Longrightarrow> 0 \<le> amount (vb_balance vb) \<and> amount (vb_balance vb) \<le> MAX_SHARE_SUPPLY"
  using linear.balance_range cdd.balance_range by (fastforce simp: vb_ok_def split: vesting_policy.splits)

subsection \<open>Properties\<close>

text \<open>C15: a vesting balance never gives out more than it holds, and its books stay right. Starting from a
  consistent vesting balance, after any history of deposits and withdrawals with non-negative amounts
  and non-decreasing times in which every operation was allowed and applied, the balance is the initial
  one plus the deposits minus the withdrawals, is between 0 and the maximal supply, and the policy is
  consistent again.\<close>

theorem vesting_history_conserves:
  assumes "vb_ok t vb" and "sorted (t # map fst ops)" and "\<forall>c\<in>set ops. fst c < 2 ^ 32 \<and> 0 \<le> op_amount (snd c)"
    and "rfold vb_step ops vb = Inr vb'"
  shows "vb_ok (last (t # map fst ops)) vb' \<and>
    amount (vb_balance vb') = amount (vb_balance vb) + (\<Sum>c\<leftarrow>ops. op_effect (snd c)) \<and>
    0 \<le> amount (vb_balance vb') \<and> amount (vb_balance vb') \<le> MAX_SHARE_SUPPLY"
  using assms
proof (induction ops arbitrary: t vb)
  case Nil
  then show ?case using vb_ok_range by auto
next
  case (Cons c ops)
  obtain now op where c: "c = (now, op)" by (cases c)
  obtain vb1 where step: "vb_step (now, op) vb = Inr vb1" and rest: "rfold vb_step ops vb1 = Inr vb'"
    using Cons.prems(4) c by auto
  have "vb_ok now vb1 \<and> amount (vb_balance vb1) = amount (vb_balance vb) + op_effect op"
    by (rule vb_step_ok[OF Cons.prems(1) _ _ _ step]) (use Cons.prems(2,3) c in auto)
  moreover have "sorted (now # map fst ops)" using Cons.prems(2) c by simp
  ultimately show ?case using Cons.IH[of now vb1] Cons.prems(3) rest c by simp
qed

definition example_vb :: vesting_balance_object where
  "example_vb = \<lparr>vb_owner = 0, vb_balance = mk_asset 100 0, vb_policy = Linear \<lparr>begin_timestamp = 0,
        vesting_cliff_seconds = 10, vesting_duration_seconds = 100, begin_balance = 100\<rparr>\<rparr>"

lemma example_vb_ok: "vb_ok 0 example_vb"
  by (simp add: example_vb_def vb_ok_def linear_ok_def linear_vested_def MAX_SHARE_SUPPLY_def)

theorem vesting_history_conserves_witness:
  "\<exists>vb'. rfold vb_step [(50, Withdraw (mk_asset 30 0)), (60, Deposit (mk_asset 5 0))] example_vb = Inr vb' \<and>
    amount (vb_balance vb') = 100 + (- 30 + 5)"
proof -
  let ?ops = "[(50, Withdraw (mk_asset 30 0)), (60, Deposit (mk_asset 5 0))]"
  have "\<exists>vb'. rfold vb_step ?ops example_vb = Inr vb'"
    by (simp add: example_vb_def vb_is_withdraw_allowed_def linear_is_withdraw_allowed_def
      linear_get_allowed_withdraw_def u128_def to_uint64_def share_of_u64_def safe_sub_def safe_add_def i64_defs Let_def
      asset_le_def asset_lt_def vb_withdraw_def linear_on_withdraw_def asset_sub_def vb_is_deposit_allowed_def
      linear_is_deposit_allowed_def sum_below_max_shares_def MAX_SHARE_SUPPLY_def vb_deposit_def linear_on_deposit_def asset_add_def ex_bool_eq)
  then obtain vb' where r: "rfold vb_step ?ops example_vb = Inr vb'" by blast
  have "amount (vb_balance vb') = amount (vb_balance example_vb) + (\<Sum>c\<leftarrow>?ops. op_effect (snd c))"
    using vesting_history_conserves[OF example_vb_ok _ _ r] by simp
  then have "amount (vb_balance vb') = 100 + (- 30 + 5)" by (simp add: example_vb_def)
  with r show ?thesis by (intro exI conjI)
qed

text \<open>C16: \<open>get_allowed_withdraw\<close> of a consistent vesting balance never throws and is between 0 and the
  balance; withdrawing any non-negative amount up to it is allowed and succeeds, so the assertions
  in the code hold and the 128-bit arithmetic never wraps.\<close>

theorem vesting_allowed_withdraw_sound:
  assumes "vb_ok t vb" and "t \<le> now" and "now < 2 ^ 32"
  shows "\<exists>w. vb_get_allowed_withdraw vb now = Inr (mk_asset w (asset_id (vb_balance vb))) \<and>
    0 \<le> w \<and> w \<le> amount (vb_balance vb) \<and>
    (\<forall>x. 0 \<le> x \<and> x \<le> w \<longrightarrow>
      vb_is_withdraw_allowed vb now (mk_asset x (asset_id (vb_balance vb))) = Inr True \<and>
      is_ok (vb_withdraw now (mk_asset x (asset_id (vb_balance vb))) vb))"
proof -
  let ?c = "\<lambda>a. visit_ctx vb now a"
  have "\<exists>w. 0 \<le> w \<and> w \<le> amount (vb_balance vb) \<and>
      vb_get_allowed_withdraw vb now = Inr (mk_asset w (asset_id (vb_balance vb))) \<and>
      (\<forall>x. asset_id x = asset_id (vb_balance vb) \<longrightarrow> amount x \<le> w \<longrightarrow> vb_is_withdraw_allowed vb now x = Inr True)"
  proof (cases "vb_policy vb")
    case (Linear p)
    have ok: "linear_ok t p (amount (ctx_balance (?c a)))" for a using assms(1) Linear by (simp add: vb_ok_def)
    have same: "linear_get_allowed_withdraw p (?c a) = linear_get_allowed_withdraw p (?c b)" for a b
      by (simp only: linear_get_allowed_withdraw_def visit_ctx_sel)
    obtain w where "linear_get_allowed_withdraw p (?c (mk_asset 0 0)) = Inr (mk_asset w (asset_id (vb_balance vb)))"
      "0 \<le> w" "w \<le> amount (vb_balance vb)"
      using linear.allowed_bounds[OF ok, of "mk_asset 0 0"] assms(2,3) by auto
    then show ?thesis
      using Linear same[of "mk_asset 0 0"]
      by (auto simp: vb_get_allowed_withdraw_def vb_is_withdraw_allowed_def linear_is_withdraw_allowed_def
          asset_le_def asset_lt_def eq_mk_asset intro!: exI[of _ w])
  next
    case (Cdd p)
    have ok: "cdd_ok t p (amount (ctx_balance (?c a)))" for a using assms(1) Cdd by (simp add: vb_ok_def)
    have same: "cdd_get_allowed_withdraw p (?c a) = cdd_get_allowed_withdraw p (?c b)" for a b
      by (simp only: cdd_get_allowed_withdraw_def compute_coin_seconds_earned_def visit_ctx_sel)
    obtain w where "cdd_get_allowed_withdraw p (?c (mk_asset 0 0)) = Inr (mk_asset w (asset_id (vb_balance vb)))"
      "0 \<le> w" "w \<le> amount (vb_balance vb)"
      using cdd.allowed_bounds[OF ok, of "mk_asset 0 0"] assms(2,3) by auto
    then show ?thesis
      using Cdd same[of "mk_asset 0 0"]
      by (auto simp: vb_get_allowed_withdraw_def vb_is_withdraw_allowed_def cdd_is_withdraw_allowed_def
          asset_le_def asset_lt_def eq_mk_asset intro!: exI[of _ w])
  qed
  then obtain w where w: "0 \<le> w" "w \<le> amount (vb_balance vb)"
      "vb_get_allowed_withdraw vb now = Inr (mk_asset w (asset_id (vb_balance vb)))"
      "\<And>x. asset_id x = asset_id (vb_balance vb) \<Longrightarrow> amount x \<le> w \<Longrightarrow> vb_is_withdraw_allowed vb now x = Inr True"
    by blast
  have "is_ok (vb_withdraw now (mk_asset x (asset_id (vb_balance vb))) vb)" if "0 \<le> x" "x \<le> w" for x
    using vb_withdraw_allowed[OF assms, of "mk_asset x (asset_id (vb_balance vb))"] w(4) that
    by (auto simp: is_ok_iff)
  then show ?thesis using w by (intro exI[of _ w]) simp
qed

theorem vesting_allowed_withdraw_sound_witness:
  "\<exists>w. vb_get_allowed_withdraw example_vb 50 = Inr (mk_asset w 0) \<and> 0 \<le> w \<and> w \<le> 100"
  using vesting_allowed_withdraw_sound[OF example_vb_ok, of 50] by (auto simp: example_vb_def)

text \<open>C17: a deposit into a coin-days balance adds nothing to what may be withdrawn at once, but a deposit
  into a linear balance past its cliff may be withdrawn at once in full: the header says that new
  funds may not be added to a linear balance, yet \<open>is_deposit_allowed\<close> allows it.\<close>

theorem vesting_deposit_effect:
  assumes "vb_ok t vb" and "t \<le> now" and "now < 2 ^ 32" and "0 \<le> amount a"
    and "vb_is_deposit_allowed vb now a = Inr True"
    and "vb_get_allowed_withdraw vb now = Inr w" and "vb_deposit now a vb = Inr vb'"
    and "vb_get_allowed_withdraw vb' now = Inr w'"
  shows "(case vb_policy vb of
      Cdd p \<Rightarrow> w' = w
    | Linear p \<Rightarrow> (now > begin_timestamp p \<and> now - begin_timestamp p \<ge> vesting_cliff_seconds p \<longrightarrow>
        amount w' = amount w + amount a))"
proof -
  have d: "vb_ok now vb'" "vb_balance vb' = mk_asset (amount (vb_balance vb) + amount a) (asset_id (vb_balance vb))"
    using vb_deposit_allowed[OF assms(1-5)] assms(7) by auto
  show ?thesis
  proof (cases "vb_policy vb")
    case (Linear p)
    then have p': "vb_policy vb' = Linear p" using assms(7) by (auto simp: vb_deposit_def linear_on_deposit_def)
    have ok: "linear_ok t p (amount (vb_balance vb))" "linear_ok now p (amount (vb_balance vb'))"
      using assms(1) d(1) Linear p' by (auto simp: vb_ok_def)
    note eq = linear_allowed_eq[of p "visit_ctx vb now (mk_asset 0 0)"]
      linear_allowed_eq[of p "visit_ctx vb' now (mk_asset 0 0)"]
    show ?thesis using Linear p' ok eq assms(3,6,8) d(2)
      by (auto simp: vb_get_allowed_withdraw_def linear_ok_def)
  next
    case (Cdd p)
    let ?c = "visit_ctx vb now a" and ?d = "visit_ctx vb now (mk_asset 0 0)" and ?e = "visit_ctx vb' now (mk_asset 0 0)"
    let ?p' = "update_coin_seconds_earned ?c p" and ?s = "max (vesting_seconds p) 1"
    have p': "vb_policy vb' = Cdd ?p'" using assms(7) Cdd by (auto simp: vb_deposit_def cdd_on_deposit_def)
    have ok: "cdd_ok t p (amount (ctx_balance ?d))" "cdd_ok now ?p' (amount (ctx_balance ?e))"
      using assms(1) d(1) Cdd p' by (auto simp: vb_ok_def)
    have same: "compute_coin_seconds_earned p ?c = compute_coin_seconds_earned p ?d"
      by (simp only: compute_coin_seconds_earned_def visit_ctx_sel)
    have "compute_coin_seconds_earned p ?d \<le> amount (vb_balance vb) * ?s"
      using compute_coin_seconds_bounds(2)[OF ok(1)] assms(2,3) by simp
    also have "\<dots> \<le> (amount (vb_balance vb) + amount a) * ?s" using assms(4) by (intro mult_right_mono) auto
    finally have "compute_coin_seconds_earned ?p' ?e = compute_coin_seconds_earned p ?d"
      using compute_coin_seconds_eq[OF ok(2)] assms(3) d(2) same
      by (simp add: update_coin_seconds_earned_def)
    then show ?thesis
      using Cdd p' cdd_allowed_eq(1)[OF ok(1)] cdd_allowed_eq(1)[OF ok(2)] assms(2,3,6,8) d(2)
      by (auto simp: vb_get_allowed_withdraw_def update_coin_seconds_earned_def)
  qed
qed

theorem vesting_deposit_effect_witness:
  "\<exists>vb' w w'. vb_get_allowed_withdraw example_vb 50 = Inr w \<and> vb_deposit 50 (mk_asset 7 0) example_vb = Inr vb' \<and>
     vb_get_allowed_withdraw vb' 50 = Inr w' \<and> amount w' = amount w + 7"
proof -
  let ?a = "mk_asset 7 0"
  have al: "vb_is_deposit_allowed example_vb 50 ?a = Inr True"
    by (simp add: example_vb_def vb_is_deposit_allowed_def linear_is_deposit_allowed_def sum_below_max_shares_def
        MAX_SHARE_SUPPLY_def safe_add_def i64_defs)
  obtain vb' where d: "vb_deposit 50 ?a example_vb = Inr vb'" "vb_ok 50 vb'"
    using vb_deposit_allowed[OF example_vb_ok _ _ _ al] by auto
  obtain w where w: "vb_get_allowed_withdraw example_vb 50 = Inr w"
    using vesting_allowed_withdraw_sound[OF example_vb_ok, of 50] by auto
  obtain w' where w': "vb_get_allowed_withdraw vb' 50 = Inr w'"
    using vesting_allowed_withdraw_sound[OF d(2), of 50] by auto
  have "amount w' = amount w + 7"
    using vesting_deposit_effect[OF example_vb_ok _ _ _ al w d(1) w'] by (simp add: example_vb_def)
  with d w w' show ?thesis by blast
qed


end
