(* ===== verification/Chain_State.thy ===== *)
theory Chain_State
  imports Vesting Authority Blocks
begin

text \<open>The state of the chain and the operations every evaluator uses:
  \<open>asset_object.hpp\<close>, \<open>account_object.hpp\<close>, \<open>market_object.hpp\<close>, \<open>global_property_object.hpp\<close>,
  \<open>chain_parameters.hpp\<close> (the objects), \<open>db_balance.cpp\<close>, \<open>is_authorized_asset.cpp\<close>, \<open>asset_object.cpp\<close> and
  the statistics part of \<open>account_object.cpp\<close> (the operations).

  A table of the object database is a finite map from instance numbers to records. An asset owns exactly
  one dynamic data object and one bitasset data object, an account exactly one statistics object, so these
  tables are keyed by the asset and the account. The balance index is keyed by owner and asset. The hardfork
  times come from a generated header that is not under \<open>src/\<close>: they are the parameter \<open>hardfork_time\<close> of the
  state; the addresses of a public key are the parameter \<open>key_addresses\<close>. Of the fee schedule the parameters keep the one
  number that the chain itself changes, \<open>account_basic_fee\<close>. \<open>skip_flags\<close> are those of the node properties. \<open>applied_ops\<close> is the list of virtual operations pushed so far.

  \<open>excess\<close> is the difference that the authors' \<open>verify_asset_supplies\<close> requires to be zero: everything held
  anywhere in an asset minus its current supply. Each operation here has a lemma that says how it changes it.\<close>

unbundle bit_operations_syntax

named_theorems excess_simps "how operations change the excess of an asset"

section \<open>Objects\<close>

record asset_options =
  max_supply :: int
  market_fee_percent :: int
  max_market_fee :: int
  issuer_permissions :: "16 word"
  asset_flags :: "16 word"
  opt_core_exchange_rate :: price
  whitelist_authorities :: "nat list"
  blacklist_authorities :: "nat list"
  whitelist_markets :: "nat list"
  blacklist_markets :: "nat list"

record bitasset_options =
  feed_lifetime_sec :: int
  minimum_feeds :: int
  force_settlement_delay_sec :: int
  force_settlement_offset_percent :: int
  maximum_force_settlement_volume :: int
  short_backing_asset :: nat

record asset_dynamic_data =
  current_supply :: int
  confidential_supply :: int
  accumulated_fees :: int
  fee_pool :: int

record asset_object =
  asset_symbol :: string
  asset_precision :: nat
  issuer :: nat
  options :: asset_options
  is_market_issued :: bool
  buyback_account :: "nat option"

record asset_bitasset_data =
  bit_options :: bitasset_options
  feeds :: "(nat \<times> int \<times> price_feed) list"
  current_feed :: price_feed
  current_feed_publication_time :: int
  is_prediction_market :: bool
  force_settled_volume :: int
  bit_settlement_price :: price
  settlement_fund :: int

record account_options =
  voting_account :: nat
  num_witness :: int
  num_committee :: int
  votes :: "32 word list"

datatype special_authority = NoSpecialAuthority | TopHoldersSpecialAuthority nat nat

record account_object =
  account_name :: string
  membership_expiration_date :: int
  registrar :: nat
  referrer :: nat
  lifetime_referrer :: nat
  network_fee_percentage :: int
  lifetime_referrer_fee_percentage :: int
  referrer_rewards_percentage :: int
  owner_auth :: authority
  active_auth :: authority
  acct_options :: account_options
  whitelisting_accounts :: "nat list"
  whitelisted_accounts :: "nat list"
  blacklisted_accounts :: "nat list"
  blacklisting_accounts :: "nat list"
  cashback_vb :: "nat option"
  top_n_control_flags :: nat
  allowed_assets :: "nat list option"
  owner_special_authority :: special_authority
  active_special_authority :: special_authority

record account_statistics =
  total_core_in_orders :: int
  lifetime_fees_paid :: int
  pending_fees :: int
  pending_vested_fees :: int

record limit_order_object =
  lo_expiration :: int
  lo_seller :: nat
  for_sale :: int
  sell_price :: price
  deferred_fee :: int

record call_order_object =
  borrower :: nat
  collateral :: int
  debt :: int
  co_call_price :: price

record force_settlement_object =
  fs_owner :: nat
  fs_balance :: asset
  settlement_date :: int

record witness_object =
  witness_account :: nat
  last_aslot :: int
  signing_key :: nat
  pay_vb :: "nat option"
  wit_vote_id :: "32 word"
  wit_total_votes :: int
  total_missed :: int
  last_confirmed_block_num :: int

record committee_member_object =
  committee_member_account :: nat
  cm_vote_id :: "32 word"
  cm_total_votes :: int

record withdraw_permission_object =
  withdraw_from_account :: nat
  authorized_account :: nat
  withdrawal_limit :: asset
  withdrawal_period_sec :: int
  period_start_time :: int
  wp_expiration :: int
  claimed_this_period :: int

record balance_object =
  bo_owner :: nat
  bo_balance :: asset
  bo_vesting :: "linear_vesting_policy option"
  last_claim_date :: int

record fba_accumulator_object =
  accumulated_fba_fees :: int
  designated_asset :: "nat option"

datatype worker_type = RefundWorker int | VestingWorker nat | BurnWorker int

record worker_object =
  worker_account :: nat
  work_begin_date :: int
  work_end_date :: int
  daily_pay :: int
  worker :: worker_type
  vote_for :: "32 word"
  vote_against :: "32 word"
  total_votes_for :: int
  total_votes_against :: int

record budget_record =
  time_since_last_budget :: int
  from_initial_reserve :: int
  from_accumulated_fees :: int
  from_unused_witness_budget :: int
  requested_witness_budget :: int
  total_budget :: int
  br_witness_budget :: int
  worker_budget :: int
  leftover_worker_funds :: int
  supply_delta :: int

record chain_parameters =
  block_interval :: int
  maintenance_interval :: int
  maintenance_skip_slots :: int
  committee_proposal_review_period :: int
  maximum_transaction_size :: int
  maximum_block_size :: int
  maximum_time_until_expiration :: int
  maximum_proposal_lifetime :: int
  maximum_asset_whitelist_authorities :: int
  maximum_asset_feed_publishers :: int
  maximum_witness_count :: int
  maximum_committee_count :: int
  maximum_authority_membership :: int
  reserve_percent_of_fee :: int
  network_percent_of_fee :: int
  lifetime_referrer_percent_of_fee :: int
  cashback_vesting_period_seconds :: int
  cashback_vesting_threshold :: int
  count_non_member_votes :: bool
  allow_non_member_whitelists :: bool
  witness_pay_per_block :: int
  witness_pay_vesting_seconds :: int
  worker_budget_per_day :: int
  max_predicate_opcode :: int
  fee_liquidation_threshold :: int
  accounts_per_fee_scale :: int
  account_fee_scale_bitshifts :: int
  max_authority_depth :: nat
  account_basic_fee :: int

definition default_parameters :: chain_parameters where
  "default_parameters =
    \<lparr>block_interval = 5, maintenance_interval = 86400, maintenance_skip_slots = 3,
     committee_proposal_review_period = 1209600, maximum_transaction_size = 2048,
     maximum_block_size = 2048 * 5 * 200000, maximum_time_until_expiration = 86400,
     maximum_proposal_lifetime = 2419200, maximum_asset_whitelist_authorities = 10,
     maximum_asset_feed_publishers = 10, maximum_witness_count = 1001, maximum_committee_count = 1001,
     maximum_authority_membership = 10, reserve_percent_of_fee = 2000, network_percent_of_fee = 2000,
     lifetime_referrer_percent_of_fee = 3000, cashback_vesting_period_seconds = 31536000,
     cashback_vesting_threshold = 10000000, count_non_member_votes = True, allow_non_member_whitelists = False,
     witness_pay_per_block = 1000000, witness_pay_vesting_seconds = 86400, worker_budget_per_day = 50000000000,
     max_predicate_opcode = 1, fee_liquidation_threshold = 10000000, accounts_per_fee_scale = 1000,
     account_fee_scale_bitshifts = 4, max_authority_depth = 2,
     account_basic_fee = 500000\<rparr>"

record dynamic_global_properties =
  head_block_number :: int
  dgp_time :: int
  current_witness :: nat
  next_maintenance_time :: int
  last_budget_time :: int
  witness_budget :: int
  accounts_registered_this_interval :: int
  recently_missed_count :: int
  current_aslot :: int
  recent_slots_filled :: int
  dynamic_flags :: "32 word"
  last_irreversible_block_num :: int

datatype order_ref = LimitRef nat | CallRef nat | SettleRef nat

datatype virtual_op =
    FillOrderOp order_ref nat asset asset asset
  | AssetSettleCancelOp nat nat asset
  | LimitOrderCancelOp nat nat
  | FbaDistributeOp nat nat int

record chain_state =
  dgp :: dynamic_global_properties
  params :: chain_parameters
  hardfork_time :: "nat \<Rightarrow> int"
  key_addresses :: "nat \<Rightarrow> nat list"
  skip_flags :: "32 word"
  active_witnesses :: "nat list"
  active_committee_members :: "nat list"
  accounts :: "(nat, account_object) fmap"
  statistics :: "(nat, account_statistics) fmap"
  balances :: "(nat \<times> nat, int) fmap"
  assets :: "(nat, asset_object) fmap"
  dyn_data :: "(nat, asset_dynamic_data) fmap"
  bitassets :: "(nat, asset_bitasset_data) fmap"
  limit_orders :: "(nat, limit_order_object) fmap"
  call_orders :: "(nat, call_order_object) fmap"
  settlements :: "(nat, force_settlement_object) fmap"
  vesting_balances :: "(nat, vesting_balance_object) fmap"
  witnesses :: "(nat, witness_object) fmap"
  committee_members :: "(nat, committee_member_object) fmap"
  withdraw_permissions :: "(nat, withdraw_permission_object) fmap"
  workers :: "(nat, worker_object) fmap"
  balance_objects :: "(nat, balance_object) fmap"
  special_authorities :: "(nat, nat) fmap"
  buybacks :: "(nat, nat) fmap"
  fba_accumulators :: "(nat, fba_accumulator_object) fmap"
  block_summaries :: "(nat, block_id) fmap"
  current_shuffled_witnesses :: "nat list"
  budget_records :: "(int \<times> budget_record) list"
  pending_parameters :: "chain_parameters option"
  min_witness_count :: nat
  min_committee_member_count :: nat
  next_available_vote_id :: "32 word"
  last_checkpoint :: "int option"
  next_account :: nat
  next_asset :: nat
  next_limit_order :: nat
  next_call_order :: nat
  next_settlement :: nat
  next_vesting_balance :: nat
  next_withdraw_permission :: nat
  next_worker :: nat
  next_witness :: nat
  next_committee_member :: nat
  next_special_authority :: nat
  next_buyback :: nat
  applied_ops :: "virtual_op list"

definition head_block_time :: "chain_state \<Rightarrow> int" where "head_block_time st = dgp_time (dgp st)"

definition after_hardfork :: "nat \<Rightarrow> chain_state \<Rightarrow> bool" where
  "after_hardfork n st \<longleftrightarrow> head_block_time st > hardfork_time st n"

section \<open>Flags\<close>

definition charge_market_fee :: "16 word" where "charge_market_fee = 0x01"
definition white_list :: "16 word" where "white_list = 0x02"
definition override_authority :: "16 word" where "override_authority = 0x04"
definition transfer_restricted :: "16 word" where "transfer_restricted = 0x08"
definition disable_force_settle :: "16 word" where "disable_force_settle = 0x10"
definition global_settle :: "16 word" where "global_settle = 0x20"
definition disable_confidential :: "16 word" where "disable_confidential = 0x40"
definition witness_fed_asset :: "16 word" where "witness_fed_asset = 0x80"
definition committee_fed_asset :: "16 word" where "committee_fed_asset = 0x100"

lemmas flag_defs = charge_market_fee_def white_list_def override_authority_def transfer_restricted_def
  disable_force_settle_def global_settle_def disable_confidential_def witness_fed_asset_def committee_fed_asset_def

definition can_force_settle :: "asset_object \<Rightarrow> bool" where
  "can_force_settle a \<longleftrightarrow> asset_flags (options a) AND disable_force_settle = 0"

definition can_global_settle :: "asset_object \<Rightarrow> bool" where
  "can_global_settle a \<longleftrightarrow> issuer_permissions (options a) AND global_settle \<noteq> 0"

definition charges_market_fees :: "asset_object \<Rightarrow> bool" where
  "charges_market_fees a \<longleftrightarrow> asset_flags (options a) AND charge_market_fee \<noteq> 0"

definition is_transfer_restricted :: "asset_object \<Rightarrow> bool" where
  "is_transfer_restricted a \<longleftrightarrow> asset_flags (options a) AND transfer_restricted \<noteq> 0"

definition can_override :: "asset_object \<Rightarrow> bool" where
  "can_override a \<longleftrightarrow> asset_flags (options a) AND override_authority \<noteq> 0"

definition asset_object_validate :: "asset_object \<Rightarrow> unit res" where
  "asset_object_validate a =
    (if is_market_issued a then Inr ()
     else fc_assert (\<not> (asset_flags (options a) AND disable_force_settle \<noteq> 0 \<or> asset_flags (options a) AND global_settle \<noteq> 0))
       (fc_assert (\<not> (issuer_permissions (options a) AND disable_force_settle \<noteq> 0 \<or>
                      issuer_permissions (options a) AND global_settle \<noteq> 0)) (Inr ())))"

definition has_settlement :: "asset_bitasset_data \<Rightarrow> bool" where
  "has_settlement b \<longleftrightarrow> \<not> price_is_null (bit_settlement_price b)"

definition has_special_authority :: "account_object \<Rightarrow> bool" where
  "has_special_authority a \<longleftrightarrow> owner_special_authority a \<noteq> NoSpecialAuthority \<or> active_special_authority a \<noteq> NoSpecialAuthority"

definition is_lifetime_member :: "account_object \<Rightarrow> bool" where
  "is_lifetime_member a \<longleftrightarrow> membership_expiration_date a = 2 ^ 32 - 1"

definition is_basic_account :: "account_object \<Rightarrow> int \<Rightarrow> bool" where
  "is_basic_account a now \<longleftrightarrow> now > membership_expiration_date a"

definition is_annual_member :: "account_object \<Rightarrow> int \<Rightarrow> bool" where
  "is_annual_member a now \<longleftrightarrow> \<not> is_lifetime_member a \<and> \<not> is_basic_account a now"

definition is_member :: "account_object \<Rightarrow> int \<Rightarrow> bool" where
  "is_member a now \<longleftrightarrow> \<not> is_basic_account a now"

definition amount_for_sale :: "limit_order_object \<Rightarrow> asset" where
  "amount_for_sale l = mk_asset (for_sale l) (asset_id (base (sell_price l)))"

definition amount_to_receive :: "limit_order_object \<Rightarrow> asset res" where
  "amount_to_receive l = asset_mul (amount_for_sale l) (sell_price l)"

definition get_collateral :: "call_order_object \<Rightarrow> asset" where
  "get_collateral c = mk_asset (collateral c) (asset_id (base (co_call_price c)))"

definition get_debt :: "call_order_object \<Rightarrow> asset" where
  "get_debt c = mk_asset (debt c) (asset_id (quote (co_call_price c)))"

definition collateralization :: "call_order_object \<Rightarrow> price res" where
  "collateralization c = asset_div (get_collateral c) (get_debt c)"

definition dynamic_reserved :: "asset_object \<Rightarrow> asset_dynamic_data \<Rightarrow> int res" where
  "dynamic_reserved a d = safe_sub (max_supply (options a)) (current_supply d)"

section \<open>Reading and modifying tables\<close>

definition lookup :: "('k, 'v) fmap \<Rightarrow> 'k \<Rightarrow> 'v res" where
  "lookup t i = from_option AssertFail (fmlookup t i)"

lemma lookup_eq_Inr [simp]: "lookup t i = Inr v \<longleftrightarrow> fmlookup t i = Some v"
  by (simp add: lookup_def)

text \<open>A reference to an object of a table: reading it after the object was removed is undefined.\<close>

definition deref :: "('k, 'v) fmap \<Rightarrow> 'k \<Rightarrow> 'v res" where
  "deref t i = from_option UB (fmlookup t i)"

lemma deref_eq_Inr [simp]: "deref t i = Inr v \<longleftrightarrow> fmlookup t i = Some v"
  by (simp add: deref_def)

definition modify_dyn :: "nat \<Rightarrow> (asset_dynamic_data \<Rightarrow> asset_dynamic_data res) \<Rightarrow> chain_state \<Rightarrow> chain_state res" where
  "modify_dyn i f st = rbind (lookup (dyn_data st) i) (\<lambda>d. rbind (f d) (\<lambda>d. Inr (st\<lparr>dyn_data := fmupd i d (dyn_data st)\<rparr>)))"

definition modify_stats :: "nat \<Rightarrow> (account_statistics \<Rightarrow> account_statistics res) \<Rightarrow> chain_state \<Rightarrow> chain_state res" where
  "modify_stats i f st = rbind (lookup (statistics st) i) (\<lambda>d. rbind (f d) (\<lambda>d. Inr (st\<lparr>statistics := fmupd i d (statistics st)\<rparr>)))"

definition modify_account :: "nat \<Rightarrow> (account_object \<Rightarrow> account_object) \<Rightarrow> chain_state \<Rightarrow> chain_state res" where
  "modify_account i f st = rbind (lookup (accounts st) i) (\<lambda>d. Inr (st\<lparr>accounts := fmupd i (f d) (accounts st)\<rparr>))"

definition modify_asset :: "nat \<Rightarrow> (asset_object \<Rightarrow> asset_object) \<Rightarrow> chain_state \<Rightarrow> chain_state res" where
  "modify_asset i f st = rbind (lookup (assets st) i) (\<lambda>d. Inr (st\<lparr>assets := fmupd i (f d) (assets st)\<rparr>))"

definition modify_bitasset :: "nat \<Rightarrow> (asset_bitasset_data \<Rightarrow> asset_bitasset_data res) \<Rightarrow> chain_state \<Rightarrow> chain_state res" where
  "modify_bitasset i f st = rbind (lookup (bitassets st) i) (\<lambda>d. rbind (f d) (\<lambda>d. Inr (st\<lparr>bitassets := fmupd i d (bitassets st)\<rparr>)))"

definition modify_witness :: "nat \<Rightarrow> (witness_object \<Rightarrow> witness_object) \<Rightarrow> chain_state \<Rightarrow> chain_state res" where
  "modify_witness i f st = rbind (lookup (witnesses st) i) (\<lambda>w. Inr (st\<lparr>witnesses := fmupd i (f w) (witnesses st)\<rparr>))"

definition push_applied_operation :: "virtual_op \<Rightarrow> chain_state \<Rightarrow> chain_state" where
  "push_applied_operation v st = st\<lparr>applied_ops := applied_ops st @ [v]\<rparr>"

section \<open>Balances\<close>

definition get_balance :: "chain_state \<Rightarrow> nat \<Rightarrow> nat \<Rightarrow> asset" where
  "get_balance st acct i = mk_asset (case fmlookup (balances st) (acct, i) of None \<Rightarrow> 0 | Some b \<Rightarrow> b) i"

definition adjust_balance :: "nat \<Rightarrow> asset \<Rightarrow> chain_state \<Rightarrow> chain_state res" where
  "adjust_balance acct delta st =
    (if amount delta = 0 then Inr st
     else case fmlookup (balances st) (acct, asset_id delta) of
       None \<Rightarrow> fc_assert (amount delta > 0)
         (Inr (st\<lparr>balances := fmupd (acct, asset_id delta) (amount delta) (balances st)\<rparr>))
     | Some b \<Rightarrow>
         rbind (if amount delta < 0 then rbind (asset_neg delta) (\<lambda>n. fc_assert (b \<ge> amount n) (Inr ())) else Inr ()) (\<lambda>_.
         rbind (safe_add b (amount delta)) (\<lambda>b.
           Inr (st\<lparr>balances := fmupd (acct, asset_id delta) b (balances st)\<rparr>))))"

section \<open>Vesting deposits\<close>

text \<open>\<open>amount.value * policy.vesting_seconds\<close> is a signed 64-bit product.\<close>

definition lazy_vbo :: "nat option \<Rightarrow> int \<Rightarrow> nat \<Rightarrow> chain_state \<Rightarrow> (nat \<times> vesting_balance_object) option res" where
  "lazy_vbo ovbid req_vesting_seconds owner st = (case ovbid of
     None \<Rightarrow> Inr None
   | Some i \<Rightarrow> rbind (lookup (vesting_balances st) i) (\<lambda>vbo. Inr
       (if vb_owner vbo \<noteq> owner then None
        else case vb_policy vbo of
          Linear p \<Rightarrow> None
        | Cdd p \<Rightarrow> if vesting_seconds p \<noteq> req_vesting_seconds then None else Some (i, vbo))))"

definition create_lazy_vbo :: "int \<Rightarrow> int \<Rightarrow> nat \<Rightarrow> bool \<Rightarrow> chain_state \<Rightarrow> (nat option \<times> chain_state) res" where
  "create_lazy_vbo amt req_vesting_seconds owner require_vesting st =
    rassert (require_vesting \<or> in_i64 (amt * req_vesting_seconds)) UB
      (Inr (Some (next_vesting_balance st),
        st\<lparr>vesting_balances := fmupd (next_vesting_balance st)
             \<lparr>vb_owner = owner, vb_balance = mk_asset amt 0,
              vb_policy = Cdd \<lparr>vesting_seconds = req_vesting_seconds,
                coin_seconds_earned = u128 (if require_vesting then 0 else amt * req_vesting_seconds),
                start_claim = 0, coin_seconds_earned_last_update = head_block_time st\<rparr>\<rparr> (vesting_balances st),
           next_vesting_balance := next_vesting_balance st + 1\<rparr>))"

definition deposit_lazy_vesting :: "nat option \<Rightarrow> int \<Rightarrow> int \<Rightarrow> nat \<Rightarrow> bool \<Rightarrow> chain_state \<Rightarrow>
    (nat option \<times> chain_state) res" where
  "deposit_lazy_vesting ovbid amt req_vesting_seconds owner require_vesting st =
    (if amt = 0 then Inr (None, st)
     else rbind (lazy_vbo ovbid req_vesting_seconds owner st) (\<lambda>found.
       case found of
         None \<Rightarrow> create_lazy_vbo amt req_vesting_seconds owner require_vesting st
       | Some (i, vbo) \<Rightarrow>
           rbind (if require_vesting then vb_deposit (head_block_time st) (mk_asset amt 0) vbo
                  else vb_deposit_vested (head_block_time st) (mk_asset amt 0) vbo) (\<lambda>vbo.
             Inr (None, st\<lparr>vesting_balances := fmupd i vbo (vesting_balances st)\<rparr>))))"

definition deposit_cashback :: "nat \<Rightarrow> int \<Rightarrow> bool \<Rightarrow> chain_state \<Rightarrow> chain_state res" where
  "deposit_cashback acct amt require_vesting st =
    rbind (lookup (accounts st) acct) (\<lambda>a.
    if amt = 0 then Inr st
    else if acct \<in> {COMMITTEE_ACCOUNT, WITNESS_ACCOUNT, RELAXED_COMMITTEE_ACCOUNT, NULL_ACCOUNT, TEMP_ACCOUNT} then
      modify_dyn 0 (\<lambda>d. rbind (safe_sub (current_supply d) amt) (\<lambda>s. Inr (d\<lparr>current_supply := s\<rparr>))) st
    else rbind (deposit_lazy_vesting (cashback_vb a) amt (cashback_vesting_period_seconds (params st)) acct
                  require_vesting st) (\<lambda>(new_vbid, st).
      case new_vbid of
        None \<Rightarrow> Inr st
      | Some i \<Rightarrow> modify_account acct (\<lambda>a. a\<lparr>cashback_vb := Some i\<rparr>) st))"

definition deposit_witness_pay :: "nat \<Rightarrow> int \<Rightarrow> chain_state \<Rightarrow> chain_state res" where
  "deposit_witness_pay wit amt st =
    rbind (lookup (witnesses st) wit) (\<lambda>w.
    if amt = 0 then Inr st
    else rbind (deposit_lazy_vesting (pay_vb w) amt (witness_pay_vesting_seconds (params st)) (witness_account w)
                  True st) (\<lambda>(new_vbid, st).
      case new_vbid of
        None \<Rightarrow> Inr st
      | Some i \<Rightarrow> rbind (lookup (witnesses st) wit) (\<lambda>w.
          Inr (st\<lparr>witnesses := fmupd wit (w\<lparr>pay_vb := Some i\<rparr>) (witnesses st)\<rparr>))))"

section \<open>Fees\<close>

definition cut_fee :: "int \<Rightarrow> int \<Rightarrow> int res" where
  "cut_fee a p =
    (if a = 0 \<or> p = 0 then Inr 0
     else if p = 10000 then Inr a
     else rbind (to_uint64 (u128 (u128 a * p) div 10000)) (\<lambda>r. Inr (share_of_u64 r)))"

definition stats_pay_fee :: "int \<Rightarrow> int \<Rightarrow> account_statistics \<Rightarrow> account_statistics res" where
  "stats_pay_fee core_fee cashback_threshold s =
    (if core_fee > cashback_threshold
     then rbind (safe_add (pending_fees s) core_fee) (\<lambda>x. Inr (s\<lparr>pending_fees := x\<rparr>))
     else rbind (safe_add (pending_vested_fees s) core_fee) (\<lambda>x. Inr (s\<lparr>pending_vested_fees := x\<rparr>)))"

definition pay_out_fees :: "nat \<Rightarrow> int \<Rightarrow> bool \<Rightarrow> chain_state \<Rightarrow> chain_state res" where
  "pay_out_fees acct core_fee_total require_vesting st =
    rbind (lookup (accounts st) acct) (\<lambda>a.
    rbind (lookup (accounts st) (referrer a)) (\<lambda>ref.
    rbind (if is_basic_account ref (head_block_time st)
           then modify_account acct (\<lambda>a. a\<lparr>referrer := lifetime_referrer a\<rparr>) st else Inr st) (\<lambda>st.
    rbind (cut_fee core_fee_total (network_fee_percentage a)) (\<lambda>network_cut.
    rbind (cut_fee core_fee_total (lifetime_referrer_fee_percentage a)) (\<lambda>lifetime_cut.
    rbind (rbind (safe_sub core_fee_total network_cut) (\<lambda>x. safe_sub x lifetime_cut)) (\<lambda>referral.
    rbind (modify_dyn 0 (\<lambda>d. rbind (safe_add (accumulated_fees d) network_cut)
             (\<lambda>x. Inr (d\<lparr>accumulated_fees := x\<rparr>))) st) (\<lambda>st.
    rbind (cut_fee referral (referrer_rewards_percentage a)) (\<lambda>referrer_cut.
    rbind (safe_sub referral referrer_cut) (\<lambda>registrar_cut.
    rbind (deposit_cashback (lifetime_referrer a) lifetime_cut require_vesting st) (\<lambda>st.
    rbind (lookup (accounts st) acct) (\<lambda>a.
    rbind (deposit_cashback (referrer a) referrer_cut require_vesting st) (\<lambda>st.
    deposit_cashback (registrar a) registrar_cut require_vesting st))))))))))))"

definition process_fees :: "nat \<Rightarrow> chain_state \<Rightarrow> chain_state res" where
  "process_fees acct st =
    rbind (lookup (statistics st) acct) (\<lambda>s.
    if pending_fees s > 0 \<or> pending_vested_fees s > 0 then
      rbind (pay_out_fees acct (pending_fees s) True st) (\<lambda>st.
      rbind (pay_out_fees acct (pending_vested_fees s) False st) (\<lambda>st.
      modify_stats acct (\<lambda>s.
        rbind (rbind (safe_add (pending_fees s) (pending_vested_fees s)) (safe_add (lifetime_fees_paid s))) (\<lambda>x.
        Inr (s\<lparr>lifetime_fees_paid := x, pending_fees := 0, pending_vested_fees := 0\<rparr>))) st))
    else Inr st)"

section \<open>Whitelists and blacklists\<close>

definition is_authorized_asset :: "chain_state \<Rightarrow> account_object \<Rightarrow> nat \<Rightarrow> asset_object \<Rightarrow> bool" where
  "is_authorized_asset st acct i a =
    (if (case allowed_assets acct of None \<Rightarrow> False | Some l \<Rightarrow> i \<notin> set l) then False
     else if list_ex (\<lambda>x. x \<in> set (blacklist_authorities (options a))) (blacklisting_accounts acct) then False
     else if after_hardfork 415 st \<and> whitelist_authorities (options a) = [] then True
     else list_ex (\<lambda>x. x \<in> set (whitelist_authorities (options a))) (whitelisting_accounts acct))"

section \<open>Feeds and settlement volume\<close>

text \<open>The sum is a signed 64-bit one.\<close>

definition max_force_settlement_volume :: "asset_bitasset_data \<Rightarrow> int \<Rightarrow> int res" where
  "max_force_settlement_volume b supply =
    (if maximum_force_settlement_volume (bit_options b) = 0 then Inr 0
     else if maximum_force_settlement_volume (bit_options b) = 10000 then safe_add supply (force_settled_volume b)
     else rassert (in_i64 (supply + force_settled_volume b)) UB
       (rbind (to_uint64 (u128 (u128 (supply + force_settled_volume b) * maximum_force_settlement_volume (bit_options b)) div 10000))
         (\<lambda>v. Inr (share_of_u64 v))))"

definition null_feed :: price_feed where
  "null_feed = \<lparr>settlement_price = null_price, core_exchange_rate = null_price,
     maintenance_collateral_ratio = 1750, maximum_short_squeeze_ratio = 1500\<rparr>"

text \<open>\<open>std::nth_element\<close> at half of the size: the element that sorting would put there (prices that compare
  equal stand for each other).\<close>

definition median_by :: "('f \<Rightarrow> 'f \<Rightarrow> bool) \<Rightarrow> (price_feed \<Rightarrow> 'f) \<Rightarrow> price_feed list \<Rightarrow> 'f" where
  "median_by lt field fs = sort_by lt (map field fs) ! (length fs div 2)"

definition update_median_feeds :: "int \<Rightarrow> asset_bitasset_data \<Rightarrow> asset_bitasset_data res" where
  "update_median_feeds current_time b =
    (let live = filter (\<lambda>(_, t, _). current_time - t < feed_lifetime_sec (bit_options b) \<and> t \<noteq> 0) (feeds b);
         current_feeds = map (\<lambda>(_, _, f). f) live;
         b = b\<lparr>current_feed_publication_time := fold (\<lambda>(_, t, _) m. min m t) live current_time\<rparr>
     in if int (length current_feeds) < minimum_feeds (bit_options b)
        then Inr (b\<lparr>current_feed_publication_time := current_time, current_feed := null_feed\<rparr>)
        else if length current_feeds = 1 then Inr (b\<lparr>current_feed := hd current_feeds\<rparr>)
        else if current_feeds = [] then Inl UB
        else Inr (b\<lparr>current_feed :=
          \<lparr>settlement_price = median_by price_lt settlement_price current_feeds,
           core_exchange_rate = median_by price_lt core_exchange_rate current_feeds,
           maintenance_collateral_ratio = median_by (<) maintenance_collateral_ratio current_feeds,
           maximum_short_squeeze_ratio = median_by (<) maximum_short_squeeze_ratio current_feeds\<rparr>\<rparr>))"

definition feed_expiration_time :: "asset_bitasset_data \<Rightarrow> int" where
  "feed_expiration_time b = (current_feed_publication_time b + feed_lifetime_sec (bit_options b)) mod 2 ^ 32"

definition feed_is_expired_before_hardfork_615 :: "asset_bitasset_data \<Rightarrow> int \<Rightarrow> bool" where
  "feed_is_expired_before_hardfork_615 b now \<longleftrightarrow> feed_expiration_time b \<ge> now"

definition feed_is_expired :: "asset_bitasset_data \<Rightarrow> int \<Rightarrow> bool" where
  "feed_is_expired b now \<longleftrightarrow> feed_expiration_time b \<le> now"

end
