(* ===== verification/Supply.thy ===== *)
theory Supply
  imports Chain_State
begin

text \<open>What the chain holds of an asset, against its supply.

  \<open>excess st A\<close> adds up everything held in asset \<open>A\<close>, in the way the authors' \<open>verify_asset_supplies\<close> does
  (balances, force settlements, pending and deferred fees, orders, collateral, accumulated fees, fee pools,
  confidential supply, settlement funds, vesting balances, accumulated buyback fees, the witness budget and the genesis
  balances that were not claimed yet), and subtracts the current supply. Every operation of \<open>Chain_State\<close> gets a lemma telling how it changes the excess and which tables it
  leaves alone (\<open>st' = st\<lparr>balances := b\<rparr>\<close>).\<close>

definition part :: "nat \<Rightarrow> asset \<Rightarrow> int" where
  "part A x = (if asset_id x = A then amount x else 0)"

lemma part_mk [simp]: "part A (mk_asset a i) = (if i = A then a else 0)"
  by (simp add: part_def)

definition limit_part :: "nat \<Rightarrow> limit_order_object \<Rightarrow> int" where
  "limit_part A l = part A (amount_for_sale l) + part A (mk_asset (deferred_fee l) 0)"

definition dyn_part :: "nat \<Rightarrow> nat \<Rightarrow> asset_dynamic_data \<Rightarrow> int" where
  "dyn_part A i d = part A (mk_asset (accumulated_fees d + confidential_supply d - current_supply d) i) +
     part A (mk_asset (fee_pool d) 0)"

definition stats_part :: "nat \<Rightarrow> account_statistics \<Rightarrow> int" where
  "stats_part A s = part A (mk_asset (pending_fees s + pending_vested_fees s) 0)"

definition bit_part :: "nat \<Rightarrow> asset_bitasset_data \<Rightarrow> int" where
  "bit_part A b = part A (mk_asset (settlement_fund b) (short_backing_asset (bit_options b)))"

definition excess :: "chain_state \<Rightarrow> nat \<Rightarrow> int" where
  "excess st A =
    fmsum (\<lambda>k b. part A (mk_asset b (snd k))) (balances st) +
    fmsum (\<lambda>_ s. part A (fs_balance s)) (settlements st) +
    fmsum (\<lambda>_. stats_part A) (statistics st) +
    fmsum (\<lambda>_. limit_part A) (limit_orders st) +
    fmsum (\<lambda>_ c. part A (get_collateral c)) (call_orders st) +
    fmsum (dyn_part A) (dyn_data st) +
    fmsum (\<lambda>_. bit_part A) (bitassets st) +
    fmsum (\<lambda>_ v. part A (vb_balance v)) (vesting_balances st) +
    fmsum (\<lambda>_ b. part A (bo_balance b)) (balance_objects st) +
    fmsum (\<lambda>_ f. part A (mk_asset (accumulated_fba_fees f) 0)) (fba_accumulators st) +
    part A (mk_asset (witness_budget (dgp st)) 0)"

section \<open>How the basic operations change it\<close>

lemma adjust_balance_cases:
  assumes "adjust_balance a d st = Inr st'"
  shows "\<exists>b. st' = st\<lparr>balances := b\<rparr> \<and>
    (\<forall>k. fmval (\<lambda>_ x. x) b k = fmval (\<lambda>_ x. x) (balances st) k + (if k = (a, asset_id d) then amount d else 0)) \<and>
    (\<forall>f. (\<forall>k x y. f k (x + y) = f k x + f k y) \<longrightarrow>
      fmsum f b = fmsum f (balances st) + f (a, asset_id d) (amount d)) \<and>
    ((\<forall>k x. fmlookup (balances st) k = Some x \<longrightarrow> 0 \<le> x) \<longrightarrow> (\<forall>k x. fmlookup b k = Some x \<longrightarrow> 0 \<le> x))"
proof (cases "amount d = 0")
  case True
  have "f k 0 = 0" if "\<forall>k x y. f k (x + y) = f k x + f k y" for f :: "nat \<times> nat \<Rightarrow> int \<Rightarrow> int" and k
    using that[rule_format, of k 0 0] by simp
  then show ?thesis using assms True
    by (intro exI[of _ "balances st"]) (auto simp: adjust_balance_def)
next
  case nz: False
  show ?thesis
  proof (cases "fmlookup (balances st) (a, asset_id d)")
    case None
    then have st': "st' = st\<lparr>balances := fmupd (a, asset_id d) (amount d) (balances st)\<rparr>" "0 < amount d"
      using assms nz by (auto simp: adjust_balance_def)
    show ?thesis using None st'(2)
      by (intro exI[of _ "fmupd (a, asset_id d) (amount d) (balances st)"])
        (auto simp: st'(1) fmsum_fmupd fmval_def split: if_splits)
  next
    case (Some b)
    obtain b' where st': "st' = st\<lparr>balances := fmupd (a, asset_id d) b' (balances st)\<rparr>" "b' = b + amount d"
        "amount d < 0 \<longrightarrow> - amount d \<le> b"
      using assms nz Some by (auto simp: adjust_balance_def asset_neg_def split: if_splits dest!: safe_add_Inr safe_neg_Inr)
    show ?thesis using Some st'(2,3)
      by (intro exI[of _ "fmupd (a, asset_id d) b' (balances st)"])
        (auto simp: st'(1) fmsum_fmupd fmval_def split: if_splits)
  qed
qed

lemma adjust_balance_excess:
  assumes "adjust_balance a d st = Inr st'"
  shows "excess st' A = excess st A + part A d"
proof -
  have add: "\<forall>k x y. part A (mk_asset (x + y) (snd k)) = part A (mk_asset x (snd k)) + part A (mk_asset y (snd k))"
    by simp
  show ?thesis using adjust_balance_cases[OF assms] add by (auto simp: excess_def part_def)
qed

lemma adjust_balance_frame: "adjust_balance a d st = Inr st' \<Longrightarrow> \<exists>b. st' = st\<lparr>balances := b\<rparr>"
  using adjust_balance_cases by blast

lemma modify_dyn_excess:
  assumes "modify_dyn i f st = Inr st'"
  shows "\<exists>d d'. fmlookup (dyn_data st) i = Some d \<and> f d = Inr d' \<and>
    st' = st\<lparr>dyn_data := fmupd i d' (dyn_data st)\<rparr> \<and>
    (\<forall>A. excess st' A = excess st A - dyn_part A i d + dyn_part A i d')"
  using assms by (auto simp: modify_dyn_def excess_def fmsum_fmupd)

lemma modify_stats_excess:
  assumes "modify_stats i f st = Inr st'"
  shows "\<exists>d d'. fmlookup (statistics st) i = Some d \<and> f d = Inr d' \<and>
    st' = st\<lparr>statistics := fmupd i d' (statistics st)\<rparr> \<and>
    (\<forall>A. excess st' A = excess st A - stats_part A d + stats_part A d')"
  using assms by (auto simp: modify_stats_def excess_def fmsum_fmupd)

lemma modify_bitasset_excess:
  assumes "modify_bitasset i f st = Inr st'"
  shows "\<exists>d d'. fmlookup (bitassets st) i = Some d \<and> f d = Inr d' \<and>
    st' = st\<lparr>bitassets := fmupd i d' (bitassets st)\<rparr> \<and>
    (\<forall>A. excess st' A = excess st A - bit_part A d + bit_part A d')"
  using assms by (auto simp: modify_bitasset_def excess_def fmsum_fmupd)

lemma modify_account_excess:
  assumes "modify_account i f st = Inr st'"
  shows "\<exists>d. fmlookup (accounts st) i = Some d \<and> st' = st\<lparr>accounts := fmupd i (f d) (accounts st)\<rparr> \<and>
    (\<forall>A. excess st' A = excess st A)"
  using assms by (auto simp: modify_account_def excess_def)

lemma push_applied_excess [simp]: "excess (push_applied_operation v st) A = excess st A"
  by (simp add: push_applied_operation_def excess_def)

section \<open>Well-formed states and moves\<close>

text \<open>\<open>chain_ok\<close>: instance numbers from the next one on are unused, an asset that is not settled has no
  settlement fund and one that is settled has a settlement price in its backing asset, the market fees of every asset are those its options' validation allows, a limit order's
  amount is a 64-bit number and its deferred fee is not negative, the head time fits into 32 bits, genesis
  balances are not negative and vest what they began with, and balances are not negative. \<open>moves D st st'\<close>: the step keeps \<open>chain_ok\<close> and changes
  the excess of each asset by \<open>D\<close>.\<close>

definition unused_from :: "(nat, 'v) fmap \<Rightarrow> nat \<Rightarrow> bool" where
  "unused_from t n \<longleftrightarrow> (\<forall>i\<ge>n. fmlookup t i = None)"

definition bit_ok :: "nat \<Rightarrow> asset_bitasset_data \<Rightarrow> bool" where
  "bit_ok i b \<longleftrightarrow> (if has_settlement b
     then asset_id (base (bit_settlement_price b)) = i \<and>
       asset_id (quote (bit_settlement_price b)) = short_backing_asset (bit_options b)
     else settlement_fund b = 0)"

definition genesis_ok :: "balance_object \<Rightarrow> bool" where
  "genesis_ok b \<longleftrightarrow> 0 \<le> amount (bo_balance b) \<and> (case bo_vesting b of None \<Rightarrow> True
     | Some p \<Rightarrow> 0 \<le> begin_balance p \<and> begin_balance p \<le> MAX_SHARE_SUPPLY \<and> 0 \<le> begin_timestamp p)"

definition chain_ok :: "chain_state \<Rightarrow> bool" where
  "chain_ok st \<longleftrightarrow>
    unused_from (limit_orders st) (next_limit_order st) \<and> unused_from (call_orders st) (next_call_order st) \<and>
    unused_from (settlements st) (next_settlement st) \<and> unused_from (vesting_balances st) (next_vesting_balance st) \<and>
    unused_from (dyn_data st) (next_asset st) \<and> unused_from (bitassets st) (next_asset st) \<and>
    unused_from (statistics st) (next_account st) \<and> dgp_time (dgp st) < 2 ^ 32 \<and>
    (\<forall>i b. fmlookup (balance_objects st) i = Some b \<longrightarrow> genesis_ok b) \<and>
    (\<forall>i b. fmlookup (bitassets st) i = Some b \<longrightarrow> bit_ok i b) \<and>
    (\<forall>i a. fmlookup (assets st) i = Some a \<longrightarrow> 0 \<le> max_market_fee (options a) \<and>
       0 \<le> market_fee_percent (options a) \<and> market_fee_percent (options a) \<le> 10000) \<and>
    (\<forall>i l. fmlookup (limit_orders st) i = Some l \<longrightarrow> in_i64 (for_sale l) \<and> 0 \<le> deferred_fee l) \<and>
    (\<forall>k x. fmlookup (balances st) k = Some x \<longrightarrow> 0 \<le> x)"

definition moves :: "(nat \<Rightarrow> int) \<Rightarrow> chain_state \<Rightarrow> chain_state \<Rightarrow> bool" where
  "moves D st st' \<longleftrightarrow> (chain_ok st \<longrightarrow> chain_ok st' \<and> (\<forall>A. excess st' A = excess st A + D A))"

lemma unused_fmupd: "unused_from t n \<Longrightarrow> fmlookup t i = Some v \<Longrightarrow> unused_from (fmupd i w t) n"
  by (auto simp: unused_from_def)

lemma unused_create: "unused_from t n \<Longrightarrow> unused_from (fmupd n w t) (n + 1)"
  by (auto simp: unused_from_def)

lemma unused_fmdrop: "unused_from t n \<Longrightarrow> unused_from (fmdrop i t) n"
  by (auto simp: unused_from_def)

lemma unused_next [simp]: "unused_from t n \<Longrightarrow> fmlookup t n = None"
  by (simp add: unused_from_def)

lemma moves_refl: "(\<And>A. D A = 0) \<Longrightarrow> moves D st st"
  by (simp add: moves_def)

lemma moves_trans: "moves D st s1 \<Longrightarrow> moves E s1 s2 \<Longrightarrow> (\<And>A. F A = D A + E A) \<Longrightarrow> moves F st s2"
  by (auto simp: moves_def)

lemma moves0_trans: "moves (\<lambda>A. 0) st s1 \<Longrightarrow> moves (\<lambda>A. 0) s1 s2 \<Longrightarrow> moves (\<lambda>A. 0) st s2"
  by (auto simp: moves_def)

lemma moves_seq: "moves D st s1 \<Longrightarrow> moves E s1 s2 \<Longrightarrow> moves (\<lambda>A. D A + E A) st s2"
  by (auto simp: moves_def)

lemma moves_cong: "moves D st s1 \<Longrightarrow> (\<And>A. F A = D A) \<Longrightarrow> moves F st s1"
  by (auto simp: moves_def)

lemma adjust_balance_moves: "adjust_balance a d st = Inr st' \<Longrightarrow> moves (\<lambda>A. part A d) st st'"
  using adjust_balance_cases[of a d st st'] adjust_balance_excess[of a d st st']
  by (auto simp: moves_def chain_ok_def)

lemma modify_dyn_moves:
  assumes "modify_dyn i f st = Inr st'"
  shows "\<exists>d d'. fmlookup (dyn_data st) i = Some d \<and> f d = Inr d' \<and>
    st' = st\<lparr>dyn_data := fmupd i d' (dyn_data st)\<rparr> \<and> moves (\<lambda>A. dyn_part A i d' - dyn_part A i d) st st'"
  using modify_dyn_excess[OF assms] by (auto simp: moves_def chain_ok_def intro: unused_fmupd)

text \<open>The two changes of a supply.\<close>

lemma sub_supply_moves:
  assumes "modify_dyn i (\<lambda>d. rbind (safe_sub (current_supply d) x) (\<lambda>s. Inr (d\<lparr>current_supply := s\<rparr>))) st = Inr st'"
  shows "(\<exists>d. fmlookup (dyn_data st) i = Some d \<and>
      st' = st\<lparr>dyn_data := fmupd i (d\<lparr>current_supply := current_supply d - x\<rparr>) (dyn_data st)\<rparr>) \<and>
    moves (\<lambda>A. part A (mk_asset x i)) st st'"
  using modify_dyn_moves[OF assms]
  by (auto simp: dyn_part_def elim!: moves_cong dest!: safe_sub_Inr)

lemma add_supply_moves:
  assumes "modify_dyn i (\<lambda>d. rbind (safe_add (current_supply d) x) (\<lambda>s. Inr (d\<lparr>current_supply := s\<rparr>))) st = Inr st'"
  shows "(\<exists>d. fmlookup (dyn_data st) i = Some d \<and>
      st' = st\<lparr>dyn_data := fmupd i (d\<lparr>current_supply := current_supply d + x\<rparr>) (dyn_data st)\<rparr>) \<and>
    moves (\<lambda>A. - part A (mk_asset x i)) st st'"
  using modify_dyn_moves[OF assms]
  by (auto simp: dyn_part_def elim!: moves_cong dest!: safe_add_Inr)

lemma modify_stats_moves:
  assumes "modify_stats i f st = Inr st'"
  shows "\<exists>d d'. fmlookup (statistics st) i = Some d \<and> f d = Inr d' \<and>
    st' = st\<lparr>statistics := fmupd i d' (statistics st)\<rparr> \<and> moves (\<lambda>A. stats_part A d' - stats_part A d) st st'"
  using modify_stats_excess[OF assms] by (auto simp: moves_def chain_ok_def intro: unused_fmupd)

lemma modify_account_moves:
  assumes "modify_account i f st = Inr st'"
  shows "\<exists>d. fmlookup (accounts st) i = Some d \<and> st' = st\<lparr>accounts := fmupd i (f d) (accounts st)\<rparr> \<and>
    moves (\<lambda>A. 0) st st'"
  using modify_account_excess[OF assms] by (auto simp: moves_def chain_ok_def)

lemma modify_bitasset_moves:
  assumes "modify_bitasset i f st = Inr st'"
    and "\<And>d d'. fmlookup (bitassets st) i = Some d \<Longrightarrow> f d = Inr d' \<Longrightarrow> bit_ok i d \<Longrightarrow> bit_ok i d'"
  shows "\<exists>d d'. fmlookup (bitassets st) i = Some d \<and> f d = Inr d' \<and>
    st' = st\<lparr>bitassets := fmupd i d' (bitassets st)\<rparr> \<and> moves (\<lambda>A. bit_part A d' - bit_part A d) st st'"
proof -
  obtain d d' where d: "fmlookup (bitassets st) i = Some d" "f d = Inr d'"
      "st' = st\<lparr>bitassets := fmupd i d' (bitassets st)\<rparr>" "\<forall>A. excess st' A = excess st A - bit_part A d + bit_part A d'"
    using modify_bitasset_excess[OF assms(1)] by blast
  have "chain_ok st \<Longrightarrow> chain_ok st'"
    using assms(2)[OF d(1,2)] d(1) by (auto simp: d(3) chain_ok_def intro: unused_fmupd)
  then show ?thesis using d by (auto simp: moves_def)
qed

section \<open>Vesting deposits and fees\<close>

lemma vb_deposit_part:
  "vb_deposit now a vb = Inr vb' \<Longrightarrow> \<forall>A. part A (vb_balance vb') = part A (vb_balance vb) + part A a"
  "vb_deposit_vested now a vb = Inr vb' \<Longrightarrow> \<forall>A. part A (vb_balance vb') = part A (vb_balance vb) + part A a"
  by (auto simp: vb_deposit_def vb_deposit_vested_def asset_add_def part_def dest!: safe_add_Inr)

lemma lazy_vbo_Some:
  "lazy_vbo v secs owner st = Inr (Some (i, vbo)) \<Longrightarrow> fmlookup (vesting_balances st) i = Some vbo"
  by (auto simp: lazy_vbo_def split: option.splits if_splits vesting_policy.splits)

lemma create_lazy_vbo_moves:
  assumes "create_lazy_vbo amt secs owner req st = Inr (r, st')"
  shows "moves (\<lambda>A. part A (mk_asset amt 0)) st st' \<and>
    (\<exists>t n. st' = st\<lparr>vesting_balances := t, next_vesting_balance := n\<rparr>)"
  using assms
  by (auto simp: create_lazy_vbo_def moves_def chain_ok_def excess_def fmsum_fmupd intro: unused_create[simplified])

lemma deposit_lazy_vesting_moves:
  assumes "deposit_lazy_vesting v amt secs owner req st = Inr (r, st')"
  shows "moves (\<lambda>A. part A (mk_asset amt 0)) st st' \<and>
    (\<exists>t n. st' = st\<lparr>vesting_balances := t, next_vesting_balance := n\<rparr>)"
proof (cases "amt = 0")
  case True
  then show ?thesis using assms
    by (auto simp: deposit_lazy_vesting_def intro!: moves_refl exI[of _ "vesting_balances st"] exI[of _ "next_vesting_balance st"])
next
  case nz: False
  then obtain f where f: "lazy_vbo v secs owner st = Inr f" using assms by (auto simp: deposit_lazy_vesting_def)
  show ?thesis
  proof (cases f)
    case None
    then show ?thesis using assms nz f create_lazy_vbo_moves by (simp add: deposit_lazy_vesting_def)
  next
    case (Some p)
    obtain i vb where p: "p = (i, vb)" by (cases p)
    obtain vb' where vb': "(if req then vb_deposit (head_block_time st) (mk_asset amt 0) vb
          else vb_deposit_vested (head_block_time st) (mk_asset amt 0) vb) = Inr vb'"
        "st' = st\<lparr>vesting_balances := fmupd i vb' (vesting_balances st)\<rparr>"
      using assms nz f Some p by (auto simp: deposit_lazy_vesting_def)
    then have "\<forall>A. part A (vb_balance vb') = part A (vb_balance vb) + part A (mk_asset amt 0)"
      using vb_deposit_part by (cases req) force+
    then show ?thesis using vb'(2) lazy_vbo_Some[of v secs owner st i vb] f Some p
      by (auto simp: moves_def chain_ok_def excess_def fmsum_fmupd intro: unused_fmupd
          intro!: exI[of _ "fmupd i vb' (vesting_balances st)"] exI[of _ "next_vesting_balance st"])
  qed
qed

lemma deposit_cashback_moves:
  assumes "deposit_cashback acct amt req st = Inr st'"
  shows "moves (\<lambda>A. part A (mk_asset amt 0)) st st' \<and> statistics st' = statistics st"
proof (cases "amt = 0")
  case True
  then show ?thesis using assms by (auto simp: deposit_cashback_def intro!: moves_refl)
next
  case nz: False
  obtain a where a: "fmlookup (accounts st) acct = Some a" using assms by (auto simp: deposit_cashback_def)
  show ?thesis
  proof (cases "acct \<in> {COMMITTEE_ACCOUNT, WITNESS_ACCOUNT, RELAXED_COMMITTEE_ACCOUNT, NULL_ACCOUNT, TEMP_ACCOUNT}")
    case True
    then have "modify_dyn 0 (\<lambda>d. rbind (safe_sub (current_supply d) amt) (\<lambda>s. Inr (d\<lparr>current_supply := s\<rparr>))) st = Inr st'"
      using assms nz a by (simp add: deposit_cashback_def split: if_splits)
    from modify_dyn_moves[OF this] show ?thesis
      by (auto simp: dyn_part_def elim!: moves_cong dest!: safe_sub_Inr)
  next
    case False
    then obtain v s1 where v: "deposit_lazy_vesting (cashback_vb a) amt (cashback_vesting_period_seconds (params st)) acct req st
        = Inr (v, s1)" and st': "(case v of None \<Rightarrow> Inr s1
        | Some i \<Rightarrow> modify_account acct (\<lambda>a. a\<lparr>cashback_vb := Some i\<rparr>) s1) = Inr st'"
      using assms nz a by (auto simp: deposit_cashback_def)
    note m = deposit_lazy_vesting_moves[OF v]
    show ?thesis
    proof (cases v)
      case None
      then show ?thesis using st' m by auto
    next
      case (Some i)
      then have "modify_account acct (\<lambda>a. a\<lparr>cashback_vb := Some i\<rparr>) s1 = Inr st'" using st' by simp
      note modify_account_moves[OF this]
      then show ?thesis using m moves_trans[OF m[THEN conjunct1], of "\<lambda>A. 0" st'] by auto
    qed
  qed
qed

lemma deposit_witness_pay_moves:
  assumes "deposit_witness_pay w amt st = Inr st'"
  shows "moves (\<lambda>A. part A (mk_asset amt 0)) st st'"
proof (cases "amt = 0")
  case True
  then show ?thesis using assms by (auto simp: deposit_witness_pay_def intro!: moves_refl)
next
  case nz: False
  show ?thesis using assms unfolding deposit_witness_pay_def if_not_P[OF nz]
  proof (elim rbind_pairE rbindE, goal_cases)
    case (1 wo v s1)
    have "moves (\<lambda>A. 0) s1 st'"
      using 1(3) by (auto simp: moves_def chain_ok_def excess_def split: option.splits)
    then show ?case using deposit_lazy_vesting_moves[OF 1(2)] moves_trans by (metis add.right_neutral)
  qed
qed

lemma pay_out_fees_moves:
  assumes "pay_out_fees acct amt req st = Inr st'"
  shows "moves (\<lambda>A. part A (mk_asset amt 0)) st st' \<and> statistics st' = statistics st"
  using assms unfolding pay_out_fees_def
proof (elim rbindE, goal_cases)
  case (1 a ref s1 nc lc rl x0 s2 rc gc s3 a' s4)
  note facts = 1
  have 1: "moves (\<lambda>A. 0) st s1 \<and> statistics s1 = statistics st"
    using facts(3) modify_account_moves[of acct "\<lambda>a. a\<lparr>referrer := lifetime_referrer a\<rparr>" st s1]
    by (auto split: if_splits intro: moves_refl)
  have 2: "moves (\<lambda>A. part A (mk_asset nc 0)) s1 s2 \<and> statistics s2 = statistics s1"
    using facts modify_dyn_moves[of 0 _ s1 s2] by (fastforce simp: dyn_part_def elim!: moves_cong dest!: safe_add_Inr)
  have m: "moves (\<lambda>A. part A (mk_asset lc 0)) s2 s3 \<and> statistics s3 = statistics s2"
    "moves (\<lambda>A. part A (mk_asset rc 0)) s3 s4 \<and> statistics s4 = statistics s3"
    "moves (\<lambda>A. part A (mk_asset gc 0)) s4 st' \<and> statistics st' = statistics s4"
    using facts deposit_cashback_moves by blast+
  have sum: "amt = nc + lc + rc + gc" using facts by (auto dest!: safe_sub_Inr)
  have "moves (\<lambda>A. part A (mk_asset amt 0)) st st'"
    by (rule moves_trans[OF 1[THEN conjunct1] moves_trans[OF 2[THEN conjunct1] moves_trans[OF m(1)[THEN conjunct1]
          moves_trans[OF m(2)[THEN conjunct1] m(3)[THEN conjunct1]]]]]) (auto simp: sum)
  then show ?case using 1 2 m by simp
qed

lemma process_fees_moves:
  assumes "process_fees acct st = Inr st'"
  shows "moves (\<lambda>A. 0) st st'"
proof -
  obtain s where s: "fmlookup (statistics st) acct = Some s" using assms by (auto simp: process_fees_def)
  show ?thesis
  proof (cases "pending_fees s > 0 \<or> pending_vested_fees s > 0")
    case True
    then obtain s1 s2 where p: "pay_out_fees acct (pending_fees s) True st = Inr s1"
      "pay_out_fees acct (pending_vested_fees s) False s1 = Inr s2"
      and m: "modify_stats acct (\<lambda>s.
        rbind (rbind (safe_add (pending_fees s) (pending_vested_fees s)) (safe_add (lifetime_fees_paid s))) (\<lambda>x.
        Inr (s\<lparr>lifetime_fees_paid := x, pending_fees := 0, pending_vested_fees := 0\<rparr>))) s2 = Inr st'"
      using assms s by (auto simp: process_fees_def)
    note p1 = pay_out_fees_moves[OF p(1)] and p2 = pay_out_fees_moves[OF p(2)]
    have "moves (\<lambda>A. - part A (mk_asset (pending_fees s + pending_vested_fees s) 0)) s2 st'"
      using modify_stats_moves[OF m] p1 p2 s by (auto simp: stats_part_def elim!: moves_cong)
    then show ?thesis
      by (intro moves_trans[OF p1[THEN conjunct1] moves_trans[OF p2[THEN conjunct1]]]) auto
  next
    case False
    then show ?thesis using assms s by (auto simp: process_fees_def intro: moves_refl)
  qed
qed

lemma cut_fee_exact:
  assumes "0 \<le> a" "a \<le> MAX_SHARE_SUPPLY" "0 \<le> p" "p \<le> 10000"
  shows "cut_fee a p = Inr (a * p div 10000)"
proof -
  have "a * p \<le> MAX_SHARE_SUPPLY * 10000" using assms by (intro mult_mono) auto
  then have u: "u128 (u128 a * p) = a * p" using assms by (simp add: u128_small MAX_SHARE_SUPPLY_def)
  have "0 \<le> a * p div 10000" "a * p div 10000 \<le> a" using mult_div_le_self[of a p 10000] assms by auto
  then show ?thesis using assms u
    by (auto simp: cut_fee_def to_uint64_def share_of_u64_def MAX_SHARE_SUPPLY_def)
qed

section \<open>Example states\<close>

text \<open>A chain without objects, for the concrete instances of the theorems; all hardforks are past.\<close>

definition empty_chain :: chain_state where
  "empty_chain =
    \<lparr>dgp = \<lparr>head_block_number = 0, dgp_time = 1000, current_witness = 0, next_maintenance_time = 2000,
       last_budget_time = 0, witness_budget = 0, accounts_registered_this_interval = 0, recently_missed_count = 0,
       current_aslot = 0, recent_slots_filled = 0, dynamic_flags = 0, last_irreversible_block_num = 0\<rparr>,
     params = default_parameters, hardfork_time = (\<lambda>_. 0), key_addresses = (\<lambda>k. [k]), skip_flags = 0, active_witnesses = [], active_committee_members = [],
     accounts = fmempty, statistics = fmempty, balances = fmempty, assets = fmempty, dyn_data = fmempty,
     bitassets = fmempty, limit_orders = fmempty, call_orders = fmempty, settlements = fmempty,
     vesting_balances = fmempty, witnesses = fmempty, committee_members = fmempty, withdraw_permissions = fmempty,
     workers = fmempty, balance_objects = fmempty, special_authorities = fmempty, buybacks = fmempty,
     fba_accumulators = fmempty,
     block_summaries = fmempty, current_shuffled_witnesses = [], budget_records = [], pending_parameters = None,
     min_witness_count = 11, min_committee_member_count = 11,
     next_available_vote_id = 0, last_checkpoint = None, next_account = 20, next_asset = 10, next_limit_order = 0,
     next_call_order = 0, next_settlement = 0, next_vesting_balance = 0,
     next_withdraw_permission = 0, next_worker = 0, next_witness = 0, next_committee_member = 0,
     next_special_authority = 0, next_buyback = 0, applied_ops = []\<rparr>"

definition example_account :: "string \<Rightarrow> nat \<Rightarrow> account_object" where
  "example_account n i =
    \<lparr>account_name = n, membership_expiration_date = 2 ^ 32 - 1, registrar = i, referrer = i, lifetime_referrer = i,
     network_fee_percentage = 2000, lifetime_referrer_fee_percentage = 3000, referrer_rewards_percentage = 5000,
     owner_auth = empty_authority, active_auth = empty_authority,
     acct_options = \<lparr>voting_account = 5, num_witness = 0, num_committee = 0, votes = []\<rparr>,
     whitelisting_accounts = [], whitelisted_accounts = [], blacklisted_accounts = [], blacklisting_accounts = [],
     cashback_vb = None, top_n_control_flags = 0, allowed_assets = None,
     owner_special_authority = NoSpecialAuthority, active_special_authority = NoSpecialAuthority\<rparr>"

definition plain_options :: asset_options where
  "plain_options =
    \<lparr>max_supply = MAX_SHARE_SUPPLY, market_fee_percent = 0, max_market_fee = MAX_SHARE_SUPPLY, issuer_permissions = 0,
     asset_flags = 0, opt_core_exchange_rate = null_price, whitelist_authorities = [], blacklist_authorities = [],
     whitelist_markets = [], blacklist_markets = []\<rparr>"

text \<open>Two lifetime members 11 and 12, asset 0 (core) and asset 1 issued by 11, some balances and pending fees.\<close>

definition example_chain :: chain_state where
  "example_chain = empty_chain
    \<lparr>accounts := fmupd 11 (example_account ''alice'' 11) (fmupd 12 (example_account ''bob'' 12) fmempty),
     statistics := fmupd 11 \<lparr>total_core_in_orders = 0, lifetime_fees_paid = 0, pending_fees = 1000, pending_vested_fees = 50\<rparr>
       (fmupd 12 \<lparr>total_core_in_orders = 0, lifetime_fees_paid = 0, pending_fees = 0, pending_vested_fees = 0\<rparr> fmempty),
     assets := fmupd 0 \<lparr>asset_symbol = ''GCS'', asset_precision = 5, issuer = 3, options = plain_options,
         is_market_issued = False, buyback_account = None\<rparr>
       (fmupd 1 \<lparr>asset_symbol = ''COIN'', asset_precision = 2, issuer = 11, options = plain_options,
         is_market_issued = False, buyback_account = None\<rparr> fmempty),
     dyn_data := fmupd 0 \<lparr>current_supply = 100000, confidential_supply = 0, accumulated_fees = 0, fee_pool = 0\<rparr>
       (fmupd 1 \<lparr>current_supply = 700, confidential_supply = 0, accumulated_fees = 0, fee_pool = 0\<rparr> fmempty),
     balances := fmupd (11, 0) 90000 (fmupd (12, 0) 8950 (fmupd (12, 1) 700 fmempty))\<rparr>"

lemmas example_chain_defs = example_chain_def empty_chain_def example_account_def plain_options_def
  default_parameters_def

lemma example_chain_ok: "chain_ok example_chain"
  by (auto simp: chain_ok_def unused_from_def example_chain_defs MAX_SHARE_SUPPLY_def split: if_splits)

section \<open>Properties\<close>

text \<open>C23: \<open>adjust_balance\<close> changes one balance by exactly the amount, or fails and leaves all as it was;
  no balance becomes negative, and it fails exactly when the balance would.\<close>

theorem adjust_balance_exact:
  assumes "\<forall>k x. fmlookup (balances st) k = Some x \<longrightarrow> 0 \<le> x \<and> x \<le> MAX_SHARE_SUPPLY"
    and "\<bar>amount d\<bar> \<le> MAX_SHARE_SUPPLY"
  shows "case adjust_balance a d st of
      Inr st' \<Rightarrow> (\<exists>b. st' = st\<lparr>balances := b\<rparr>) \<and>
        (\<forall>c i. get_balance st' c i = mk_asset (amount (get_balance st c i) +
           (if c = a \<and> i = asset_id d then amount d else 0)) i) \<and>
        (\<forall>k x. fmlookup (balances st') k = Some x \<longrightarrow> 0 \<le> x)
    | Inl e \<Rightarrow> e = AssertFail \<and> amount (get_balance st a (asset_id d)) + amount d < 0"
proof (cases "adjust_balance a d st")
  case (Inr st')
  obtain b where b: "st' = st\<lparr>balances := b\<rparr>"
      "\<forall>k. fmval (\<lambda>_ x. x) b k = fmval (\<lambda>_ x. x) (balances st) k + (if k = (a, asset_id d) then amount d else 0)"
      "\<forall>k x. fmlookup b k = Some x \<longrightarrow> 0 \<le> x"
    using adjust_balance_cases[OF Inr] assms(1) by blast
  have "get_balance st c i = mk_asset (fmval (\<lambda>_ x. x) (balances st) (c, i)) i" for st c i
    by (simp add: get_balance_def fmval_def)
  then show ?thesis using b by (auto simp: Inr)
next
  case (Inl e)
  have small: "safe_neg (amount d) = Inr (- amount d)"
    using assms(2) by (auto simp: safe_neg_def i64_defs MAX_SHARE_SUPPLY_def)
  show ?thesis
  proof (cases "fmlookup (balances st) (a, asset_id d)")
    case None
    then show ?thesis using Inl by (auto simp: adjust_balance_def get_balance_def fc_assert_def rassert_def split: if_splits)
  next
    case (Some b)
    then have "0 \<le> b" "b \<le> MAX_SHARE_SUPPLY" using assms(1) by auto
    then have "safe_add b (amount d) = Inr (b + amount d)"
      using assms(2) by (auto simp: safe_add_def i64_defs MAX_SHARE_SUPPLY_def)
    then show ?thesis using Inl Some small
      by (auto simp: adjust_balance_def get_balance_def fc_assert_def rassert_def asset_neg_def rbind_eq_Inl split: if_splits)
  qed
qed

lemma adjust_balance_exact_witness:
  "case adjust_balance 12 (mk_asset (- 500) 1) example_chain of
      Inr st' \<Rightarrow> (\<exists>b. st' = example_chain\<lparr>balances := b\<rparr>) \<and>
        (\<forall>c i. get_balance st' c i = mk_asset (amount (get_balance example_chain c i) +
           (if c = 12 \<and> i = asset_id (mk_asset (- 500) 1) then amount (mk_asset (- 500) 1) else 0)) i) \<and>
        (\<forall>k x. fmlookup (balances st') k = Some x \<longrightarrow> 0 \<le> x)
    | Inl e \<Rightarrow> e = AssertFail \<and>
        amount (get_balance example_chain 12 (asset_id (mk_asset (- 500) 1))) + amount (mk_asset (- 500) 1) < 0"
  by (rule adjust_balance_exact) (auto simp: example_chain_defs MAX_SHARE_SUPPLY_def split: if_splits)

end
