(* ===== verification/Market.thy ===== *)
theory Market
  imports Supply
begin

text \<open>The market: \<open>chain/db_market.cpp\<close> and \<open>check_for_blackswan\<close> of \<open>chain/db_update.cpp\<close>.

  Objects are passed by their instance number and read where the code reads them through a reference
  (\<open>deref\<close>: reading a removed object is \<open>UB\<close>). An iterator range over an ordered index is the list of the
  objects in it at the time it is formed; an element that the loop itself removes before the iterator moves
  on is again \<open>UB\<close> when it is read. Market operations return whether they filled an order and the new state.\<close>

section \<open>Ordered indices of the market\<close>

text \<open>\<open>by_price\<close> of the limit orders: highest price first, then oldest; the range
  \<open>[lower_bound( hi ), upper_bound( lo ))\<close>.\<close>

definition limit_before :: "nat \<times> limit_order_object \<Rightarrow> nat \<times> limit_order_object \<Rightarrow> bool" where
  "limit_before x y \<longleftrightarrow> price_gt (sell_price (snd x)) (sell_price (snd y)) \<or>
     (\<not> price_gt (sell_price (snd y)) (sell_price (snd x)) \<and> fst x < fst y)"

definition limit_range :: "price \<Rightarrow> price \<Rightarrow> chain_state \<Rightarrow> nat list" where
  "limit_range hi lo st =
    map fst (filter (\<lambda>x. \<not> price_gt (sell_price (snd x)) hi \<and> \<not> price_gt lo (sell_price (snd x)))
      (sort_by limit_before (entries (limit_orders st))))"

text \<open>\<open>by_price\<close> of the call orders: lowest call price first.\<close>

definition call_before :: "nat \<times> call_order_object \<Rightarrow> nat \<times> call_order_object \<Rightarrow> bool" where
  "call_before x y \<longleftrightarrow> price_lt (co_call_price (snd x)) (co_call_price (snd y)) \<or>
     (\<not> price_lt (co_call_price (snd y)) (co_call_price (snd x)) \<and> fst x < fst y)"

definition call_range :: "price \<Rightarrow> price \<Rightarrow> chain_state \<Rightarrow> nat list" where
  "call_range lo hi st =
    map fst (filter (\<lambda>x. \<not> price_lt (co_call_price (snd x)) lo \<and> \<not> price_lt hi (co_call_price (snd x)))
      (sort_by call_before (entries (call_orders st))))"

text \<open>\<open>by_collateral\<close>: the first call order from \<open>lower_bound( lo )\<close> on.\<close>

definition collateral_ratio_of :: "call_order_object \<Rightarrow> price" where
  "collateral_ratio_of c = \<lparr>base = get_collateral c, quote = get_debt c\<rparr>"

definition collateral_before :: "nat \<times> call_order_object \<Rightarrow> nat \<times> call_order_object \<Rightarrow> bool" where
  "collateral_before x y \<longleftrightarrow> price_lt (collateral_ratio_of (snd x)) (collateral_ratio_of (snd y)) \<or>
     (\<not> price_lt (collateral_ratio_of (snd y)) (collateral_ratio_of (snd x)) \<and> fst x < fst y)"

definition least_collateralized :: "price \<Rightarrow> chain_state \<Rightarrow> nat res" where
  "least_collateralized lo st =
    (case filter (\<lambda>x. \<not> price_lt (collateral_ratio_of (snd x)) lo)
        (sort_by collateral_before (entries (call_orders st))) of
      [] \<Rightarrow> Inl UB
    | x # _ \<Rightarrow> Inr (fst x))"

section \<open>Fees and payments\<close>

definition calculate_market_fee :: "asset_object \<Rightarrow> nat \<Rightarrow> asset \<Rightarrow> asset res" where
  "calculate_market_fee a i trade_amount =
    (if \<not> charges_market_fees a then Inr (mk_asset 0 i)
     else if market_fee_percent (options a) = 0 then Inr (mk_asset 0 i)
     else rbind (to_uint64 (u128 (u128 (amount trade_amount) * market_fee_percent (options a)) div 10000)) (\<lambda>x.
       Inr (mk_asset (if share_of_u64 x > max_market_fee (options a) then max_market_fee (options a)
                      else share_of_u64 x) i)))"

definition pay_market_fees :: "nat \<Rightarrow> asset \<Rightarrow> chain_state \<Rightarrow> (asset \<times> chain_state) res" where
  "pay_market_fees i receives st =
    rbind (lookup (assets st) i) (\<lambda>a.
    rbind (calculate_market_fee a i receives) (\<lambda>issuer_fees.
    if amount issuer_fees > 0 then
      rbind (modify_dyn i (\<lambda>d. rbind (safe_add (accumulated_fees d) (amount issuer_fees))
               (\<lambda>x. Inr (d\<lparr>accumulated_fees := x\<rparr>))) st) (\<lambda>st. Inr (issuer_fees, st))
    else Inr (issuer_fees, st)))"

definition less_core_in_orders :: "nat \<Rightarrow> asset \<Rightarrow> chain_state \<Rightarrow> chain_state res" where
  "less_core_in_orders acct a st =
    rbind (lookup (accounts st) acct) (\<lambda>_.
    modify_stats acct (\<lambda>s. if asset_id a = 0
      then rbind (safe_sub (total_core_in_orders s) (amount a)) (\<lambda>x. Inr (s\<lparr>total_core_in_orders := x\<rparr>))
      else Inr s) st)"

definition pay_order :: "nat \<Rightarrow> asset \<Rightarrow> asset \<Rightarrow> chain_state \<Rightarrow> chain_state res" where
  "pay_order receiver receives pays st =
    rbind (less_core_in_orders receiver pays st) (adjust_balance receiver receives)"

section \<open>Cancelling orders\<close>

definition cancel_settle_order :: "nat \<Rightarrow> bool \<Rightarrow> chain_state \<Rightarrow> chain_state res" where
  "cancel_settle_order i create_virtual_op st =
    rbind (deref (settlements st) i) (\<lambda>s.
    rbind (adjust_balance (fs_owner s) (fs_balance s) st) (\<lambda>st.
    let st = (if create_virtual_op then push_applied_operation (AssetSettleCancelOp i (fs_owner s) (fs_balance s)) st else st)
    in Inr (st\<lparr>settlements := fmdrop i (settlements st)\<rparr>)))"

definition cancel_limit_order :: "nat \<Rightarrow> bool \<Rightarrow> chain_state \<Rightarrow> chain_state res" where
  "cancel_limit_order i create_virtual_op st =
    rbind (deref (limit_orders st) i) (\<lambda>l.
    rbind (less_core_in_orders (lo_seller l) (amount_for_sale l) st) (\<lambda>st.
    rbind (adjust_balance (lo_seller l) (amount_for_sale l) st) (\<lambda>st.
    rbind (adjust_balance (lo_seller l) (mk_asset (deferred_fee l) 0) st) (\<lambda>st.
    let st = (if create_virtual_op then push_applied_operation (LimitOrderCancelOp i (lo_seller l)) st else st)
    in Inr (st\<lparr>limit_orders := fmdrop i (limit_orders st)\<rparr>)))))"

definition maybe_cull_small_order :: "nat \<Rightarrow> chain_state \<Rightarrow> (bool \<times> chain_state) res" where
  "maybe_cull_small_order i st =
    rbind (deref (limit_orders st) i) (\<lambda>l.
    rbind (amount_to_receive l) (\<lambda>r.
    if amount r = 0 then rbind (cancel_limit_order i True st) (\<lambda>st. Inr (True, st)) else Inr (False, st)))"

section \<open>Filling orders\<close>

definition fill_limit_order :: "nat \<Rightarrow> asset \<Rightarrow> asset \<Rightarrow> bool \<Rightarrow> chain_state \<Rightarrow> (bool \<times> chain_state) res" where
  "fill_limit_order i pays receives cull_if_small st =
    rbind (deref (limit_orders st) i) (\<lambda>l.
    fc_assert (asset_id (amount_for_sale l) = asset_id pays)
    (fc_assert (asset_id pays \<noteq> asset_id receives)
    (rbind (lookup (accounts st) (lo_seller l)) (\<lambda>_.
    rbind (pay_market_fees (asset_id receives) receives st) (\<lambda>(issuer_fees, st).
    rbind (asset_sub receives issuer_fees) (\<lambda>net.
    rbind (pay_order (lo_seller l) net pays st) (\<lambda>st.
    let st = push_applied_operation (FillOrderOp (LimitRef i) (lo_seller l) pays receives issuer_fees) st in
    rbind (if deferred_fee l > 0
           then modify_stats (lo_seller l) (stats_pay_fee (deferred_fee l) (cashback_vesting_threshold (params st))) st
           else Inr st) (\<lambda>st.
    if pays = amount_for_sale l then Inr (True, st\<lparr>limit_orders := fmdrop i (limit_orders st)\<rparr>)
    else rbind (safe_sub (for_sale l) (amount pays)) (\<lambda>rest.
      let st = st\<lparr>limit_orders := fmupd i (l\<lparr>for_sale := rest, deferred_fee := 0\<rparr>) (limit_orders st)\<rparr> in
      if cull_if_small \<or> head_block_time st < hardfork_time st 555
      then maybe_cull_small_order i st else Inr (False, st))))))))))"

definition fill_call_order :: "nat \<Rightarrow> asset \<Rightarrow> asset \<Rightarrow> chain_state \<Rightarrow> (bool \<times> chain_state) res" where
  "fill_call_order i pays receives st =
    rbind (deref (call_orders st) i) (\<lambda>c.
    fc_assert (asset_id (get_debt c) = asset_id receives)
    (fc_assert (asset_id (get_collateral c) = asset_id pays)
    (rbind (asset_ge (get_collateral c) pays) (\<lambda>enough. fc_assert enough
    (rbind (safe_sub (debt c) (amount receives)) (\<lambda>d.
    rbind (safe_sub (collateral c) (amount pays)) (\<lambda>coll.
    let collateral_freed = (if d = 0 then Some (mk_asset coll (asset_id (get_collateral c))) else None);
        st = st\<lparr>call_orders := fmupd i (c\<lparr>debt := d, collateral := (if d = 0 then 0 else coll)\<rparr>) (call_orders st)\<rparr> in
    rbind (lookup (assets st) (asset_id receives)) (\<lambda>_.
    rbind (modify_dyn (asset_id receives) (\<lambda>dd. rbind (safe_sub (current_supply dd) (amount receives))
             (\<lambda>x. Inr (dd\<lparr>current_supply := x\<rparr>))) st) (\<lambda>st.
    rbind (lookup (accounts st) (borrower c)) (\<lambda>_.
    rbind (if collateral_freed \<noteq> None \<or> asset_id pays = 0 then
        rbind (case collateral_freed of None \<Rightarrow> Inr st | Some f \<Rightarrow> adjust_balance (borrower c) f st) (\<lambda>st.
        modify_stats (borrower c) (\<lambda>s.
          rbind (case collateral_freed of
              Some f \<Rightarrow> if amount f > 0 then safe_sub (total_core_in_orders s) (amount f) else Inr (total_core_in_orders s)
            | None \<Rightarrow> Inr (total_core_in_orders s)) (\<lambda>t.
          rbind (if asset_id pays = 0 then safe_sub t (amount pays) else Inr t) (\<lambda>t.
          Inr (s\<lparr>total_core_in_orders := t\<rparr>)))) st)
      else Inr st) (\<lambda>st.
    let st = push_applied_operation (FillOrderOp (CallRef i) (borrower c) pays receives (mk_asset 0 (asset_id pays))) st in
    Inr (collateral_freed \<noteq> None,
      if collateral_freed \<noteq> None then st\<lparr>call_orders := fmdrop i (call_orders st)\<rparr> else st))))))))))))"

definition fill_settle_order :: "nat \<Rightarrow> asset \<Rightarrow> asset \<Rightarrow> chain_state \<Rightarrow> (bool \<times> chain_state) res" where
  "fill_settle_order i pays receives st =
    rbind (deref (settlements st) i) (\<lambda>s.
    rbind (pay_market_fees (asset_id receives) receives st) (\<lambda>(issuer_fees, st).
    rbind (asset_lt pays (fs_balance s)) (\<lambda>part_only.
    rbind (if part_only then rbind (asset_sub (fs_balance s) pays) (\<lambda>b.
             Inr (st\<lparr>settlements := fmupd i (s\<lparr>fs_balance := b\<rparr>) (settlements st)\<rparr>)) else Inr st) (\<lambda>st.
    rbind (asset_sub receives issuer_fees) (\<lambda>net.
    rbind (adjust_balance (fs_owner s) net st) (\<lambda>st.
    let st = push_applied_operation (FillOrderOp (SettleRef i) (fs_owner s) pays receives issuer_fees) st in
    Inr (\<not> part_only, if part_only then st else st\<lparr>settlements := fmdrop i (settlements st)\<rparr>)))))))"

section \<open>Matching\<close>

definition bits :: "bool \<Rightarrow> bool \<Rightarrow> nat" where
  "bits a b = (if a then 1 else 0) + (if b then 2 else 0)"

definition match_limit :: "nat \<Rightarrow> nat \<Rightarrow> price \<Rightarrow> chain_state \<Rightarrow> (nat \<times> chain_state) res" where
  "match_limit usd core match_price st =
    rbind (deref (limit_orders st) usd) (\<lambda>u. rbind (deref (limit_orders st) core) (\<lambda>c.
    let usd_for_sale = amount_for_sale u; core_for_sale = amount_for_sale c in
    rbind (asset_mul core_for_sale match_price) (\<lambda>core_value.
    rbind (asset_le usd_for_sale core_value) (\<lambda>small.
    rbind (if small then rbind (asset_mul usd_for_sale match_price) (\<lambda>r. Inr (r, usd_for_sale))
           else Inr (core_for_sale, core_value)) (\<lambda>(usd_receives, core_receives).
    let core_pays = usd_receives; usd_pays = core_receives in
    rbind (fill_limit_order usd usd_pays usd_receives False st) (\<lambda>(a, st).
    rbind (fill_limit_order core core_pays core_receives True st) (\<lambda>(b, st).
    Inr (bits a b, st))))))))"

definition asset_min :: "asset \<Rightarrow> asset \<Rightarrow> asset res" where
  "asset_min a b = rbind (asset_lt b a) (\<lambda>x. Inr (if x then b else a))"

definition match_call_settle :: "nat \<Rightarrow> nat \<Rightarrow> price \<Rightarrow> asset \<Rightarrow> chain_state \<Rightarrow> (asset \<times> chain_state) res" where
  "match_call_settle call settle match_price max_settlement st =
    rbind (deref (call_orders st) call) (\<lambda>c. rbind (deref (settlements st) settle) (\<lambda>s.
    fc_assert (asset_id (get_debt c) = asset_id (fs_balance s))
    (fc_assert (debt c > 0 \<and> collateral c > 0 \<and> amount (fs_balance s) > 0)
    (rbind (asset_min (fs_balance s) max_settlement) (\<lambda>settle_for_sale.
    rbind (asset_min settle_for_sale (get_debt c)) (\<lambda>call_receives.
    rbind (asset_mul call_receives match_price) (\<lambda>call_pays.
    rbind (asset_lt call_pays (get_collateral c)) (\<lambda>covered. rassert covered BlackSwan
    (rbind (fill_call_order call call_pays call_receives st) (\<lambda>(_, st).
    rbind (fill_settle_order settle call_receives call_pays st) (\<lambda>(_, st).
    Inr (call_receives, st))))))))))))"

section \<open>Global settlement and margin calls\<close>

text \<open>One step of the loop over the call orders.\<close>

definition settle_call :: "price \<Rightarrow> nat \<Rightarrow> asset \<times> chain_state \<Rightarrow> (asset \<times> chain_state) res" where
  "settle_call sp i gst = (case gst of (gathered, st) \<Rightarrow>
    rbind (deref (call_orders st) i) (\<lambda>c.
    rbind (asset_mul (get_debt c) sp) (\<lambda>pays.
    rbind (asset_gt pays (get_collateral c)) (\<lambda>too_much.
    let pays = (if too_much then get_collateral c else pays) in
    rbind (asset_add gathered pays) (\<lambda>gathered.
    rbind (fill_call_order i pays (get_debt c) st) (\<lambda>(filled, st).
    fc_assert filled (Inr (gathered, st))))))))"

definition globally_settle_asset :: "nat \<Rightarrow> price \<Rightarrow> chain_state \<Rightarrow> chain_state res" where
  "globally_settle_asset mia sp st =
    rbind (deref (bitassets st) mia) (\<lambda>bit.
    fc_assert (\<not> has_settlement bit)
    (let backing = short_backing_asset (bit_options bit) in
    rbind (lookup (assets st) backing) (\<lambda>_.
    rbind (lookup (dyn_data st) mia) (\<lambda>mia_dyn.
    rbind (price_min backing mia) (\<lambda>lo.
    rbind (price_max backing mia) (\<lambda>hi.
    rbind (rfold (settle_call sp) (call_range lo hi st) (mk_asset 0 backing, st)) (\<lambda>(gathered, st).
    rbind (asset_div (mk_asset (current_supply mia_dyn) mia) gathered) (\<lambda>swan.
    rbind (modify_bitasset mia (\<lambda>b. Inr (b\<lparr>bit_settlement_price := swan, settlement_fund := amount gathered\<rparr>)) st) (\<lambda>st.
    modify_dyn mia (\<lambda>d. Inr (d\<lparr>current_supply := current_supply mia_dyn\<rparr>)) st)))))))))"

text \<open>The price of the least collateralized call order, when it shows a black swan.\<close>

definition swan_price :: "nat \<Rightarrow> asset_bitasset_data \<Rightarrow> chain_state \<Rightarrow> price option res" where
  "swan_price mia bad st =
    (let settle_price = settlement_price (current_feed bad); backing = short_backing_asset (bit_options bad) in
    rbind (price_max mia backing) (\<lambda>highest_possible_bid.
    rbind (price_min mia backing) (\<lambda>lowest_possible_bid.
    rbind (price_min backing mia) (\<lambda>call_min.
    rbind (price_max backing mia) (\<lambda>call_max.
    case call_range call_min call_max st of
      [] \<Rightarrow> Inr None
    | i # _ \<Rightarrow>
      rbind (deref (call_orders st) i) (\<lambda>c.
      rbind (case limit_range highest_possible_bid lowest_possible_bid st of
          [] \<Rightarrow> Inr settle_price
        | l # _ \<Rightarrow> rbind (deref (limit_orders st) l) (\<lambda>l.
            Inr (if price_lt (sell_price l) settle_price then settle_price else sell_price l))) (\<lambda>highest.
      rbind (collateralization c) (\<lambda>least_collateral.
      Inr (if price_ge (price_inv least_collateral) highest then Some (price_inv least_collateral) else None)))))))))"

definition check_for_blackswan :: "nat \<Rightarrow> bool \<Rightarrow> chain_state \<Rightarrow> (bool \<times> chain_state) res" where
  "check_for_blackswan mia enable_black_swan st =
    rbind (deref (assets st) mia) (\<lambda>a.
    if \<not> is_market_issued a then Inr (False, st) else
    rbind (lookup (bitassets st) mia) (\<lambda>bit.
    if has_settlement bit then Inr (True, st) else
    if price_is_null (settlement_price (current_feed bit)) then Inr (False, st) else
    rbind (swan_price mia bit st) (\<lambda>swan. case swan of
      None \<Rightarrow> Inr (False, st)
    | Some p \<Rightarrow> fc_assert enable_black_swan (rbind (globally_settle_asset mia p st) (\<lambda>st. Inr (True, st))))))"

text \<open>The loop of \<open>check_call_orders\<close>. \<open>filled_limit\<close> is declared before the loop and never reset.\<close>

declare rbind_cong [fundef_cong] fc_assert_cong [fundef_cong]

function call_loop :: "nat \<Rightarrow> bool \<Rightarrow> price \<Rightarrow> nat list \<Rightarrow> nat list \<Rightarrow> bool \<Rightarrow> bool \<Rightarrow> chain_state
    \<Rightarrow> (bool \<times> chain_state) res" where
  "call_loop mia enable feed_price calls limits filled_limit margin_called st =
    rbind (check_for_blackswan mia enable st) (\<lambda>(swan, st).
    if swan then Inr (margin_called, st) else
    case calls of [] \<Rightarrow> Inr (margin_called, st) | c # cs \<Rightarrow>
    (case limits of [] \<Rightarrow> Inr (margin_called, st) | l # ls \<Rightarrow>
    rbind (deref (limit_orders st) l) (\<lambda>lo.
    rbind (price_validate (sell_price lo)) (\<lambda>_.
    rbind (deref (call_orders st) c) (\<lambda>co.
    let match_price = sell_price lo; usd_for_sale = amount_for_sale lo; usd_to_buy = get_debt co;
        feed_protected = price_gt feed_price (price_inv (co_call_price co)) in
    if feed_protected \<and> after_hardfork 436 st then Inr (margin_called, st) else
    if price_gt match_price (price_inv (co_call_price co)) then Inr (margin_called, st) else
    rbind (asset_mul usd_to_buy match_price) (\<lambda>needed.
    rbind (asset_gt needed (get_collateral co)) (\<lambda>swan.
    if swan then fc_assert enable (rbind (globally_settle_asset mia feed_price st) (\<lambda>st. Inr (True, st))) else
    rbind (asset_ge usd_to_buy usd_for_sale) (\<lambda>fill_limit.
    let filled_limit = (filled_limit \<or> fill_limit);
        filled_call = (fill_limit \<longrightarrow> usd_to_buy = usd_for_sale);
        traded = (if fill_limit then usd_for_sale else usd_to_buy) in
    rbind (asset_mul traded match_price) (\<lambda>price_paid.
    fc_assert (filled_call \<or> filled_limit)
    (rbind (fill_call_order c price_paid traded st) (\<lambda>(_, st).
    rbind (fill_limit_order l traded price_paid True st) (\<lambda>(_, st).
    call_loop mia enable feed_price (if filled_call then cs else calls) (if filled_limit then ls else limits)
      filled_limit True st))))))))))))"
  by pat_completeness auto

termination
  by (relation "measure (\<lambda>(_, _, _, calls, limits, _). length calls + length limits)") (auto split: if_splits)

declare call_loop.simps [simp del]

definition check_call_orders :: "nat \<Rightarrow> bool \<Rightarrow> chain_state \<Rightarrow> (bool \<times> chain_state) res" where
  "check_call_orders mia enable_black_swan st =
    rbind (deref (assets st) mia) (\<lambda>a.
    if \<not> is_market_issued a then Inr (False, st) else
    rbind (check_for_blackswan mia enable_black_swan st) (\<lambda>(swan, st).
    if swan then Inr (False, st) else
    rbind (lookup (bitassets st) mia) (\<lambda>bit.
    if is_prediction_market bit then Inr (False, st) else
    if price_is_null (settlement_price (current_feed bit)) then Inr (False, st) else
    rbind (price_max mia (short_backing_asset (bit_options bit))) (\<lambda>max_price.
    rbind (max_short_squeeze_price (current_feed bit)) (\<lambda>min_price.
    case limit_range max_price min_price st of
      [] \<Rightarrow> Inr (False, st)
    | l # ls \<Rightarrow>
      rbind (price_min (short_backing_asset (bit_options bit)) mia) (\<lambda>call_min.
      rbind (price_max (short_backing_asset (bit_options bit)) mia) (\<lambda>call_max.
      call_loop mia enable_black_swan (settlement_price (current_feed bit)) (call_range call_min call_max st) (l # ls)
        False False st)))))))"

section \<open>New orders\<close>

text \<open>The matching loop goes on while only the old order was filled.\<close>

fun match_loop :: "nat \<Rightarrow> nat list \<Rightarrow> chain_state \<Rightarrow> chain_state res" where
  "match_loop new [] st = Inr st"
| "match_loop new (old # olds) st =
    rbind (deref (limit_orders st) old) (\<lambda>l.
    rbind (match_limit new old (sell_price l) st) (\<lambda>(r, st).
    if r \<noteq> 2 then Inr st else match_loop new olds st))"

definition apply_order :: "nat \<Rightarrow> bool \<Rightarrow> chain_state \<Rightarrow> (bool \<times> chain_state) res" where
  "apply_order i allow_black_swan st =
    rbind (deref (limit_orders st) i) (\<lambda>l.
    let sell_asset = asset_id (amount_for_sale l) in
    rbind (amount_to_receive l) (\<lambda>r.
    let receive_asset = asset_id r in
    rbind (lookup (assets st) sell_asset) (\<lambda>_. rbind (lookup (assets st) receive_asset) (\<lambda>_.
    rbind (check_call_orders sell_asset allow_black_swan st) (\<lambda>(called1, st).
    rbind (check_call_orders receive_asset allow_black_swan st) (\<lambda>(called2, st).
    if (called1 \<or> called2) \<and> fmlookup (limit_orders st) i = None then Inr (True, st) else
    rbind (deref (limit_orders st) i) (\<lambda>l.
    let max_price = price_inv (sell_price l) in
    rbind (price_max (asset_id (base max_price)) (asset_id (quote max_price))) (\<lambda>hi.
    rbind (match_loop i (limit_range hi max_price st) st) (\<lambda>st.
    rbind (check_call_orders sell_asset allow_black_swan st) (\<lambda>(_, st).
    rbind (check_call_orders receive_asset allow_black_swan st) (\<lambda>(_, st).
    case fmlookup (limit_orders st) i of
      None \<Rightarrow> Inr (True, st)
    | Some _ \<Rightarrow>
      if head_block_time st \<le> hardfork_time st 555 then Inr (False, st)
      else maybe_cull_small_order i st)))))))))))"

end
