(* ===== verification/Market_Conservation.thy ===== *)
theory Market_Conservation
  imports Market
begin

text \<open>Trading creates and destroys nothing.

  Filling an order of any kind with \<open>pays\<close> and \<open>receives\<close> changes the excess of an asset by what is received
  less what is paid. The locale \<open>order_kind\<close> states that contract and is interpreted for limit, call and
  force-settlement orders; \<open>trade\<close> combines two kinds whose payments cross and is interpreted for the three
  matches of the code. From it follow the lemmas about margin calls, global settlement and new orders.\<close>

section \<open>Updating the order tables\<close>

lemma limit_update_moves:
  assumes "fmlookup (limit_orders st) i = Some l" "in_i64 (for_sale l')" "0 \<le> deferred_fee l'"
  shows "moves (\<lambda>A. limit_part A l' - limit_part A l) st (st\<lparr>limit_orders := fmupd i l' (limit_orders st)\<rparr>)"
  using assms by (auto simp: moves_def chain_ok_def excess_def fmsum_fmupd intro: unused_fmupd)

lemma limit_remove_moves:
  assumes "fmlookup (limit_orders st) i = Some l"
  shows "moves (\<lambda>A. - limit_part A l) st (st\<lparr>limit_orders := fmdrop i (limit_orders st)\<rparr>)"
  using assms by (auto simp: moves_def chain_ok_def excess_def fmsum_fmdrop intro: unused_fmdrop)

lemma call_update_moves:
  assumes "fmlookup (call_orders st) i = Some c"
  shows "moves (\<lambda>A. part A (get_collateral c') - part A (get_collateral c)) st
    (st\<lparr>call_orders := fmupd i c' (call_orders st)\<rparr>)"
  using assms by (auto simp: moves_def chain_ok_def excess_def fmsum_fmupd intro: unused_fmupd)

lemma call_remove_moves:
  assumes "fmlookup (call_orders st) i = Some c"
  shows "moves (\<lambda>A. - part A (get_collateral c)) st (st\<lparr>call_orders := fmdrop i (call_orders st)\<rparr>)"
  using assms by (auto simp: moves_def chain_ok_def excess_def fmsum_fmdrop intro: unused_fmdrop)

lemma settle_update_moves:
  assumes "fmlookup (settlements st) i = Some s"
  shows "moves (\<lambda>A. part A (fs_balance s') - part A (fs_balance s)) st
    (st\<lparr>settlements := fmupd i s' (settlements st)\<rparr>)"
  using assms by (auto simp: moves_def chain_ok_def excess_def fmsum_fmupd intro: unused_fmupd)

lemma settle_remove_moves:
  assumes "fmlookup (settlements st) i = Some s"
  shows "moves (\<lambda>A. - part A (fs_balance s)) st (st\<lparr>settlements := fmdrop i (settlements st)\<rparr>)"
  using assms by (auto simp: moves_def chain_ok_def excess_def fmsum_fmdrop intro: unused_fmdrop)

lemma push_moves: "moves (\<lambda>A. 0) st (push_applied_operation v st)"
  by (auto simp: moves_def chain_ok_def push_applied_operation_def excess_def)

lemma asset_sub_part: "asset_sub a b = Inr c \<Longrightarrow> part A c = part A a - part A b \<and> asset_id c = asset_id a \<and> asset_id b = asset_id a"
  by (auto simp: asset_sub_def part_def dest!: safe_sub_Inr)

lemma safe_sub_in_i64: "in_i64 a \<Longrightarrow> safe_sub a b = Inr c \<Longrightarrow> in_i64 c"
  by (auto simp: safe_sub_def i64_defs split: if_splits)

section \<open>Fees and payments\<close>

lemma percent_wrapped:
  assumes "- (2 ^ 63) \<le> t" "t < 0" "1 \<le> p" "p \<le> 10000"
  shows "2 ^ 64 \<le> u128 (u128 t * p) div 10000"
proof -
  have "t * p < 0" using assms by (simp add: mult_neg_pos)
  moreover have "- (2 ^ 63) * 10000 \<le> t * p"
    using mult_mono[of "- t" "2 ^ 63" p 10000] assms by simp
  ultimately have b: "0 \<le> 2 ^ 128 + t * p" "2 ^ 128 + t * p < 2 ^ 128" by simp_all
  have "u128 (u128 t * p) = (t * p) mod 2 ^ 128" by (simp add: u128_def mod_mult_left_eq)
  also have "\<dots> = (2 ^ 128 + t * p) mod 2 ^ 128" by simp
  also have "\<dots> = 2 ^ 128 + t * p" using b by (simp only: mod_pos_pos_trivial)
  finally have "u128 (u128 t * p) \<ge> 2 ^ 128 - 2 ^ 63 * 10000" using \<open>- (2 ^ 63) * 10000 \<le> t * p\<close> by simp
  then have "(2 ^ 128 - 2 ^ 63 * 10000) div 10000 \<le> u128 (u128 t * p) div 10000" by (rule zdiv_mono1) simp
  then show ?thesis by simp
qed

lemma calculate_market_fee_bounds:
  assumes "calculate_market_fee a i t = Inr f" "in_i64 (amount t)"
    and "0 \<le> max_market_fee (options a)" "0 \<le> market_fee_percent (options a)" "market_fee_percent (options a) \<le> 10000"
  shows "asset_id f = i \<and> 0 \<le> amount f \<and> (0 \<le> amount t \<longrightarrow> amount f \<le> amount t)"
proof (cases "charges_market_fees a \<and> market_fee_percent (options a) \<noteq> 0")
  case False
  then show ?thesis using assms(1) by (auto simp: calculate_market_fee_def split: if_splits)
next
  case True
  let ?p = "market_fee_percent (options a)" and ?t = "amount t"
  obtain x where x: "to_uint64 (u128 (u128 ?t * ?p) div 10000) = Inr x"
      "f = mk_asset (if share_of_u64 x > max_market_fee (options a) then max_market_fee (options a) else share_of_u64 x) i"
    using assms(1) True by (auto simp: calculate_market_fee_def)
  have "0 \<le> ?t"
  proof (rule ccontr)
    assume "\<not> 0 \<le> ?t"
    then have "2 ^ 64 \<le> u128 (u128 ?t * ?p) div 10000"
      using assms True by (intro percent_wrapped) (auto simp: i64_defs)
    with x(1) show False by (simp add: to_uint64_def)
  qed
  moreover have "?t * ?p \<le> 2 ^ 63 * 10000" using assms calculation by (intro mult_mono) (auto simp: i64_defs)
  ultimately have "u128 (u128 ?t * ?p) = ?t * ?p" using assms by (simp add: u128_small i64_defs)
  then have x': "x = ?t * ?p div 10000" using x(1) by (auto simp: to_uint64_def)
  then have "0 \<le> x" "x \<le> ?t" using mult_div_le_self[of ?t ?p 10000] \<open>0 \<le> ?t\<close> assms by auto
  then show ?thesis using assms x(2) by (auto simp: share_of_u64_def i64_defs)
qed

lemma pay_market_fees_moves:
  assumes "pay_market_fees i r st = Inr (f, st')" "in_i64 (amount r)" "chain_ok st"
  shows "(\<exists>t. st' = st\<lparr>dyn_data := t\<rparr>) \<and> moves (\<lambda>A. part A f) st st'"
proof -
  obtain a where a: "fmlookup (assets st) i = Some a" "calculate_market_fee a i r = Inr f"
    using assms(1) by (auto simp: pay_market_fees_def split: if_splits)
  then have f: "asset_id f = i \<and> 0 \<le> amount f"
    using calculate_market_fee_bounds[OF a(2) assms(2)] assms(3) by (auto simp: chain_ok_def)
  show ?thesis
  proof (cases "amount f > 0")
    case True
    then have "modify_dyn i (\<lambda>d. rbind (safe_add (accumulated_fees d) (amount f)) (\<lambda>x. Inr (d\<lparr>accumulated_fees := x\<rparr>))) st
        = Inr st'"
      using assms(1) a by (auto simp: pay_market_fees_def)
    from modify_dyn_moves[OF this] show ?thesis
      using f by (auto simp: dyn_part_def part_def elim!: moves_cong dest!: safe_add_Inr)
  next
    case False
    then have "amount f = 0" "st' = st" using assms(1) a f by (auto simp: pay_market_fees_def)
    then show ?thesis by (auto simp: part_def intro!: moves_refl exI[of _ "dyn_data st"])
  qed
qed

lemma less_core_moves:
  assumes "less_core_in_orders acct a st = Inr st'"
  shows "(\<exists>t. st' = st\<lparr>statistics := t\<rparr>) \<and> moves (\<lambda>A. 0) st st'"
proof -
  have m: "modify_stats acct (\<lambda>s. if asset_id a = 0
      then rbind (safe_sub (total_core_in_orders s) (amount a)) (\<lambda>x. Inr (s\<lparr>total_core_in_orders := x\<rparr>))
      else Inr s) st = Inr st'"
    using assms by (auto simp: less_core_in_orders_def)
  show ?thesis using modify_stats_moves[OF m]
    by (auto simp: stats_part_def split: if_splits elim!: moves_cong)
qed

lemma pay_order_moves:
  assumes "pay_order acct r p st = Inr st'"
  shows "(\<exists>t b. st' = st\<lparr>statistics := t, balances := b\<rparr>) \<and> moves (\<lambda>A. part A r) st st'"
proof -
  obtain s1 where 1: "less_core_in_orders acct p st = Inr s1" "adjust_balance acct r s1 = Inr st'"
    using assms by (auto simp: pay_order_def)
  show ?thesis
    using less_core_moves[OF 1(1)] adjust_balance_frame[OF 1(2)] adjust_balance_moves[OF 1(2)]
    by (auto intro: moves_trans)
qed

section \<open>Cancelling\<close>

lemma cancel_limit_order_moves:
  assumes "cancel_limit_order i v st = Inr st'"
  shows "moves (\<lambda>A. 0) st st'"
  using assms unfolding cancel_limit_order_def
proof (elim rbindE, goal_cases)
  case (1 l s1 s2 s3)
  define s4 where "s4 = (if v then push_applied_operation (LimitOrderCancelOp i (lo_seller l)) s3 else s3)"
  have 4: "moves (\<lambda>A. 0) s3 s4" by (simp add: s4_def push_moves moves_refl)
  have "limit_orders s4 = limit_orders st"
    using less_core_moves[OF 1(2)] adjust_balance_frame[OF 1(3)] adjust_balance_frame[OF 1(4)]
    by (auto simp: s4_def push_applied_operation_def)
  then have 5: "moves (\<lambda>A. - limit_part A l) s4 st'"
    using 1(1,5) limit_remove_moves[of s4 i l] by (simp add: s4_def Let_def)
  show ?case
    by (rule moves_trans[OF less_core_moves[OF 1(2), THEN conjunct2] moves_trans[OF adjust_balance_moves[OF 1(3)]
          moves_trans[OF adjust_balance_moves[OF 1(4)] moves_trans[OF 4 5]]]]) (auto simp: limit_part_def)
qed

lemma cancel_settle_order_moves:
  assumes "cancel_settle_order i v st = Inr st'"
  shows "moves (\<lambda>A. 0) st st'"
  using assms unfolding cancel_settle_order_def
proof (elim rbindE, goal_cases)
  case (1 s s1)
  define s2 where "s2 = (if v then push_applied_operation (AssetSettleCancelOp i (fs_owner s) (fs_balance s)) s1 else s1)"
  have 2: "moves (\<lambda>A. 0) s1 s2" by (simp add: s2_def push_moves moves_refl)
  have "settlements s2 = settlements st"
    using adjust_balance_frame[OF 1(2)] by (auto simp: s2_def push_applied_operation_def)
  then have 3: "moves (\<lambda>A. - part A (fs_balance s)) s2 st'"
    using 1(1,3) settle_remove_moves[of s2 i s] by (simp add: s2_def Let_def)
  show ?case by (rule moves_trans[OF adjust_balance_moves[OF 1(2)] moves_trans[OF 2 3]]) auto
qed

lemma maybe_cull_moves:
  assumes "maybe_cull_small_order i st = Inr (b, st')"
  shows "moves (\<lambda>A. 0) st st'"
  using assms cancel_limit_order_moves by (auto simp: maybe_cull_small_order_def split: if_splits intro: moves_refl)

section \<open>Filling\<close>

lemma fill_limit_order_moves:
  assumes "fill_limit_order i pays receives cull st = Inr (b, st')" "in_i64 (amount receives)" "chain_ok st"
  shows "moves (\<lambda>A. part A receives - part A pays) st st'"
  using assms(1) unfolding fill_limit_order_def Let_def
proof (elim res_elims, goal_cases)
  case (1 l acct f s1 net s2 s3)
  define s2' where "s2' = push_applied_operation (FillOrderOp (LimitRef i) (lo_seller l) pays receives f) s2"
  have l: "fmlookup (limit_orders st) i = Some l" using 1(1) by simp
  note fee = pay_market_fees_moves[OF 1(5) assms(2,3)]
  note pay = pay_order_moves[OF 1(7)]
  have net: "part A net = part A receives - part A f" for A using asset_sub_part[OF 1(6)] by simp
  have s3: "moves (\<lambda>A. part A (mk_asset (deferred_fee l) 0)) s2' s3 \<and> (\<exists>t. s3 = s2'\<lparr>statistics := t\<rparr>)"
  proof (cases "deferred_fee l > 0")
    case True
    then have "modify_stats (lo_seller l) (stats_pay_fee (deferred_fee l) (cashback_vesting_threshold (params s2'))) s2' = Inr s3"
      using 1(8) by (simp add: s2'_def)
    from modify_stats_moves[OF this] show ?thesis
      by (auto simp: stats_pay_fee_def stats_part_def split: if_splits elim!: moves_cong dest!: safe_add_Inr)
  next
    case False
    then have "deferred_fee l = 0" using assms(3) l by (auto simp: chain_ok_def intro: antisym)
    moreover have "s3 = s2'" using 1(8) False by (simp add: s2'_def)
    ultimately show ?thesis by (auto intro!: moves_refl exI[of _ "statistics s2'"])
  qed
  have upto: "moves (\<lambda>A. part A receives + part A (mk_asset (deferred_fee l) 0)) st s3"
    by (rule moves_cong[OF moves_seq[OF fee[THEN conjunct2] moves_seq[OF pay[THEN conjunct2]
          moves_seq[OF push_moves s3[THEN conjunct1, unfolded s2'_def]]]]]) (simp add: net)
  have l3: "fmlookup (limit_orders s3) i = Some l"
    using l fee pay s3 by (auto simp: s2'_def push_applied_operation_def)
  have id: "asset_id (amount_for_sale l) = asset_id pays" using 1(2) by simp
  show ?case
  proof (cases "pays = amount_for_sale l")
    case True
    then have "st' = s3\<lparr>limit_orders := fmdrop i (limit_orders s3)\<rparr>" using 1(9) by simp
    with limit_remove_moves[OF l3] show ?thesis using True
      by (auto intro!: moves_trans[OF upto] simp: limit_part_def)
  next
    case False
    then obtain rest where rest: "safe_sub (for_sale l) (amount pays) = Inr rest"
      and st': "(if cull \<or> head_block_time s3 < hardfork_time s3 555
          then maybe_cull_small_order i (s3\<lparr>limit_orders := fmupd i (l\<lparr>for_sale := rest, deferred_fee := 0\<rparr>) (limit_orders s3)\<rparr>)
          else Inr (False, s3\<lparr>limit_orders := fmupd i (l\<lparr>for_sale := rest, deferred_fee := 0\<rparr>) (limit_orders s3)\<rparr>))
        = Inr (b, st')"
      using 1(9) by (auto simp: head_block_time_def)
    define s4 where "s4 = s3\<lparr>limit_orders := fmupd i (l\<lparr>for_sale := rest, deferred_fee := 0\<rparr>) (limit_orders s3)\<rparr>"
    have "in_i64 rest" using safe_sub_in_i64[OF _ rest] assms(3) l by (auto simp: chain_ok_def)
    then have 4: "moves (\<lambda>A. limit_part A (l\<lparr>for_sale := rest, deferred_fee := 0\<rparr>) - limit_part A l) s3 s4"
      unfolding s4_def by (intro limit_update_moves[OF l3]) auto
    have 5: "moves (\<lambda>A. 0) s4 st'"
      using st' maybe_cull_moves[of i s4 b st'] by (auto simp flip: s4_def split: if_splits intro: moves_refl)
    show ?thesis
      by (rule moves_cong[OF moves_seq[OF upto moves_seq[OF 4 5]]])
        (use safe_sub_Inr[OF rest] id in \<open>auto simp: limit_part_def amount_for_sale_def part_def\<close>)
  qed
qed

text \<open>The call order's part of the fill after the supply was reduced: returning freed collateral and counting it.\<close>

lemma free_collateral_moves:
  assumes "rbind (case freed of None \<Rightarrow> Inr st | Some f \<Rightarrow> adjust_balance acct f st) (\<lambda>st.
        modify_stats acct (\<lambda>s.
          rbind (case freed of
              Some f \<Rightarrow> if amount f > 0 then safe_sub (total_core_in_orders s) (amount f) else Inr (total_core_in_orders s)
            | None \<Rightarrow> Inr (total_core_in_orders s)) (\<lambda>t.
          rbind (if asset_id pays = 0 then safe_sub t (amount pays) else Inr t) (\<lambda>t.
          Inr (s\<lparr>total_core_in_orders := t\<rparr>)))) st) = Inr st'"
  shows "(\<exists>b t. st' = st\<lparr>balances := b, statistics := t\<rparr>) \<and>
    moves (\<lambda>A. case freed of None \<Rightarrow> 0 | Some f \<Rightarrow> part A f) st st'"
  using assms
proof (elim rbindE, goal_cases)
  case (1 s1)
  have 2: "(\<exists>b. s1 = st\<lparr>balances := b\<rparr>) \<and> moves (\<lambda>A. case freed of None \<Rightarrow> 0 | Some f \<Rightarrow> part A f) st s1"
    using 1(1) adjust_balance_frame adjust_balance_moves
    by (cases freed) (auto intro!: moves_refl exI[of _ "balances st"])
  from modify_stats_moves[OF 1(2)] have 3: "(\<exists>t. st' = s1\<lparr>statistics := t\<rparr>) \<and> moves (\<lambda>A. 0) s1 st'"
    by (auto simp: stats_part_def elim!: moves_cong)
  show ?case using 2 3 by (auto intro: moves_trans)
qed

lemma fill_call_order_moves:
  assumes "fill_call_order i pays receives st = Inr (b, st')"
  shows "moves (\<lambda>A. part A receives - part A pays) st st'"
    and "limit_orders st' = limit_orders st \<and> settlements st' = settlements st \<and> bitassets st' = bitassets st \<and>
      assets st' = assets st \<and> (\<forall>j. j \<noteq> i \<longrightarrow> fmlookup (call_orders st') j = fmlookup (call_orders st) j) \<and>
      (\<forall>j. j \<noteq> asset_id receives \<longrightarrow> fmlookup (dyn_data st') j = fmlookup (dyn_data st) j) \<and>
      (\<exists>d d'. fmlookup (dyn_data st) (asset_id receives) = Some d \<and> fmlookup (dyn_data st') (asset_id receives) = Some d' \<and>
        d' = d\<lparr>current_supply := current_supply d - amount receives\<rparr>)"
proof -
  have "moves (\<lambda>A. part A receives - part A pays) st st' \<and> (limit_orders st' = limit_orders st \<and>
      settlements st' = settlements st \<and> bitassets st' = bitassets st \<and>
      assets st' = assets st \<and> (\<forall>j. j \<noteq> i \<longrightarrow> fmlookup (call_orders st') j = fmlookup (call_orders st) j) \<and>
      (\<forall>j. j \<noteq> asset_id receives \<longrightarrow> fmlookup (dyn_data st') j = fmlookup (dyn_data st) j) \<and>
      (\<exists>d d'. fmlookup (dyn_data st) (asset_id receives) = Some d \<and> fmlookup (dyn_data st') (asset_id receives) = Some d' \<and>
        d' = d\<lparr>current_supply := current_supply d - amount receives\<rparr>))"
    using assms unfolding fill_call_order_def Let_def
  proof (elim res_elims, goal_cases)
    case (1 c enough d coll a s2 acct s3)
    define freed where "freed = (if d = 0 then Some (mk_asset coll (asset_id (get_collateral c))) else None)"
    define c' where "c' = c\<lparr>debt := d, collateral := (if d = 0 then 0 else coll)\<rparr>"
    define s1 where "s1 = st\<lparr>call_orders := fmupd i c' (call_orders st)\<rparr>"
    have c: "fmlookup (call_orders st) i = Some c" using 1(1) by simp
    have coll: "coll = collateral c - amount pays" using 1(7) by (rule safe_sub_Inr)
    have id: "asset_id pays = asset_id (get_collateral c)" using 1(3) by simp
    have m1: "moves (\<lambda>A. part A (get_collateral c') - part A (get_collateral c)) st s1"
      unfolding s1_def by (rule call_update_moves[OF c])
    have dyn: "modify_dyn (asset_id receives) (\<lambda>dd. rbind (safe_sub (current_supply dd) (amount receives))
        (\<lambda>x. Inr (dd\<lparr>current_supply := x\<rparr>))) s1 = Inr s2"
      using 1(9) by (simp add: s1_def c'_def)
    note sup = sub_supply_moves[OF dyn]
    obtain dd where dd: "fmlookup (dyn_data st) (asset_id receives) = Some dd"
      "s2 = s1\<lparr>dyn_data := fmupd (asset_id receives) (dd\<lparr>current_supply := current_supply dd - amount receives\<rparr>) (dyn_data s1)\<rparr>"
      using sup by (auto simp: s1_def)
    have m2: "moves (\<lambda>A. part A receives) s1 s2" by (rule moves_cong[OF sup[THEN conjunct2]]) (simp add: part_def)
    have m3: "(\<exists>b t. s3 = s2\<lparr>balances := b, statistics := t\<rparr>) \<and>
        moves (\<lambda>A. case freed of None \<Rightarrow> 0 | Some f \<Rightarrow> part A f) s2 s3"
    proof (cases "freed \<noteq> None \<or> asset_id pays = 0")
      case True
      then show ?thesis using 1(11) free_collateral_moves[where freed = freed and st = s2 and acct = "borrower c" and pays = pays and st' = s3]
        by (simp flip: freed_def)
    next
      case False
      then have "s3 = s2" using 1(11) by (simp flip: freed_def)
      then show ?thesis using False by (auto intro!: moves_refl exI[of _ "balances s2"] exI[of _ "statistics s2"])
    qed
    define s4 where "s4 = push_applied_operation (FillOrderOp (CallRef i) (borrower c) pays receives (mk_asset 0 (asset_id pays))) s3"
    have c4: "fmlookup (call_orders s4) i = Some c'"
      using m3 dd(2) by (auto simp: s4_def push_applied_operation_def s1_def)
    have st': "st' = (if freed \<noteq> None then s4\<lparr>call_orders := fmdrop i (call_orders s4)\<rparr> else s4)"
      using 1(12) by (auto simp: s4_def simp flip: freed_def)
    have m5: "moves (\<lambda>A. if freed \<noteq> None then - part A (get_collateral c') else 0) s4 st'"
      using call_remove_moves[OF c4] by (auto simp: st' intro: moves_refl)
    have "moves (\<lambda>A. part A receives - part A pays) st st'"
      by (rule moves_cong[OF moves_seq[OF m1 moves_seq[OF m2 moves_seq[OF m3[THEN conjunct2] moves_seq[OF push_moves m5[unfolded s4_def]]]]]])
        (use coll id in \<open>auto simp: freed_def c'_def get_collateral_def part_def\<close>)
    then show ?case using m3 dd by (auto simp: st' s4_def push_applied_operation_def s1_def)
  qed
  then show "moves (\<lambda>A. part A receives - part A pays) st st'"
    and "limit_orders st' = limit_orders st \<and> settlements st' = settlements st \<and> bitassets st' = bitassets st \<and>
      assets st' = assets st \<and> (\<forall>j. j \<noteq> i \<longrightarrow> fmlookup (call_orders st') j = fmlookup (call_orders st) j) \<and>
      (\<forall>j. j \<noteq> asset_id receives \<longrightarrow> fmlookup (dyn_data st') j = fmlookup (dyn_data st) j) \<and>
      (\<exists>d d'. fmlookup (dyn_data st) (asset_id receives) = Some d \<and> fmlookup (dyn_data st') (asset_id receives) = Some d' \<and>
        d' = d\<lparr>current_supply := current_supply d - amount receives\<rparr>)" by blast+
qed

lemma fill_settle_order_moves:
  assumes "fill_settle_order i pays receives st = Inr (b, st')" "in_i64 (amount receives)" "chain_ok st"
    and "\<forall>s. fmlookup (settlements st) i = Some s \<longrightarrow> amount pays \<le> amount (fs_balance s)"
  shows "moves (\<lambda>A. part A receives - part A pays) st st'"
  using assms(1) unfolding fill_settle_order_def Let_def
proof (elim res_elims, goal_cases)
  case (1 s f s1 po s2 net s3)
  note fee = pay_market_fees_moves[OF 1(2) assms(2,3)]
  have s: "fmlookup (settlements st) i = Some s" "fmlookup (settlements s1) i = Some s" using 1(1) fee by auto
  have lt: "asset_id pays = asset_id (fs_balance s)" "po \<longleftrightarrow> amount pays < amount (fs_balance s)"
    using 1(3) by (auto simp: asset_lt_def)
  have net: "part A net = part A receives - part A f" for A using asset_sub_part[OF 1(5)] by simp
  have m2: "moves (\<lambda>A. if po then - part A pays else 0) s1 s2 \<and> (\<not> po \<longrightarrow> s2 = s1)"
  proof (cases po)
    case True
    then obtain rest where r: "asset_sub (fs_balance s) pays = Inr rest"
      "s2 = s1\<lparr>settlements := fmupd i (s\<lparr>fs_balance := rest\<rparr>) (settlements s1)\<rparr>" using 1(4) by auto
    show ?thesis using settle_update_moves[OF s(2), of "s\<lparr>fs_balance := rest\<rparr>"] asset_sub_part[OF r(1)] True
      by (auto simp: r(2) elim!: moves_cong)
  qed (use 1(4) in \<open>auto intro: moves_refl\<close>)
  define s4 where "s4 = push_applied_operation (FillOrderOp (SettleRef i) (fs_owner s) pays receives f) s3"
  have st': "st' = (if po then s4 else s4\<lparr>settlements := fmdrop i (settlements s4)\<rparr>)" using 1(7) by (auto simp: s4_def)
  have "fmlookup (settlements s4) i = Some s" if "\<not> po"
    using that m2 s adjust_balance_frame[OF 1(6)] by (auto simp: s4_def push_applied_operation_def)
  then have m5: "moves (\<lambda>A. if po then 0 else - part A (fs_balance s)) s4 st'"
    using settle_remove_moves[of s4 i s] by (auto simp: st' intro: moves_refl)
  have part_eq: "part A (fs_balance s) = part A pays" if "\<not> po" for A
    using that lt assms(4) s(1) by (auto simp: part_def)
  show ?case
    by (rule moves_cong[OF moves_seq[OF fee[THEN conjunct2] moves_seq[OF m2[THEN conjunct1]
          moves_seq[OF adjust_balance_moves[OF 1(6)] moves_seq[OF push_moves m5[unfolded s4_def]]]]]])
      (use lt assms(4) s(1) in \<open>auto simp: net part_eq\<close>)
qed

section \<open>Trades\<close>

locale order_kind =
  fixes fill :: "nat \<Rightarrow> asset \<Rightarrow> asset \<Rightarrow> chain_state \<Rightarrow> (bool \<times> chain_state) res"
    and ready :: "nat \<Rightarrow> asset \<Rightarrow> asset \<Rightarrow> chain_state \<Rightarrow> bool"
  assumes fill_moves: "fill i pays receives st = Inr (b, st') \<Longrightarrow> ready i pays receives st \<Longrightarrow>
    moves (\<lambda>A. part A receives - part A pays) st st'"

locale trade = left: order_kind fill1 ready1 + right: order_kind fill2 ready2
  for fill1 ready1 fill2 ready2
begin

text \<open>What one side pays the other receives: the trade moves nothing in or out.\<close>

lemma zero_sum:
  assumes "fill1 i p r st = Inr (b, s1)" "ready1 i p r st" "fill2 j r p s1 = Inr (c, s2)" "ready2 j r p s1"
  shows "moves (\<lambda>A. 0) st s2"
  by (rule moves_cong[OF moves_seq[OF left.fill_moves[OF assms(1,2)] right.fill_moves[OF assms(3,4)]]]) simp

end

definition limit_ready :: "nat \<Rightarrow> asset \<Rightarrow> asset \<Rightarrow> chain_state \<Rightarrow> bool" where
  "limit_ready i pays receives st \<longleftrightarrow> in_i64 (amount receives)"

definition call_ready :: "nat \<Rightarrow> asset \<Rightarrow> asset \<Rightarrow> chain_state \<Rightarrow> bool" where
  "call_ready i pays receives st \<longleftrightarrow> True"

definition settle_ready :: "nat \<Rightarrow> asset \<Rightarrow> asset \<Rightarrow> chain_state \<Rightarrow> bool" where
  "settle_ready i pays receives st \<longleftrightarrow> in_i64 (amount receives) \<and>
    (\<forall>s. fmlookup (settlements st) i = Some s \<longrightarrow> amount pays \<le> amount (fs_balance s))"

interpretation limit_kind: order_kind "\<lambda>i p r. fill_limit_order i p r cull" limit_ready for cull
  by unfold_locales (metis fill_limit_order_moves limit_ready_def moves_def)

interpretation call_kind: order_kind fill_call_order call_ready
  by unfold_locales (rule fill_call_order_moves)

interpretation settle_kind: order_kind fill_settle_order settle_ready
  by unfold_locales (metis fill_settle_order_moves settle_ready_def moves_def)

interpretation limit_trade: trade "\<lambda>i p r. fill_limit_order i p r False" limit_ready
    "\<lambda>i p r. fill_limit_order i p r True" limit_ready
  by unfold_locales

interpretation margin_trade: trade fill_call_order call_ready "\<lambda>i p r. fill_limit_order i p r True" limit_ready
  by unfold_locales

interpretation settle_trade: trade fill_call_order call_ready fill_settle_order settle_ready
  by unfold_locales

lemma asset_mul_range: "asset_mul a p = Inr r \<Longrightarrow> 0 \<le> amount r \<and> amount r \<le> MAX_SHARE_SUPPLY"
  by (auto simp: asset_mul_def Let_def u128_def pos_imp_zdiv_nonneg_iff split: if_splits)

lemma asset_mul_in_i64: "asset_mul a p = Inr r \<Longrightarrow> in_i64 (amount r)"
  using asset_mul_range[of a p r] by (simp add: i64_defs MAX_SHARE_SUPPLY_def)

lemma match_limit_moves:
  assumes "match_limit usd core mp st = Inr (n, st')"
  shows "moves (\<lambda>A. 0) st st'"
proof (cases "chain_ok st")
  case ok: True
  show ?thesis using assms unfolding match_limit_def Let_def
  proof (elim res_elims, goal_cases)
    case (1 u c cv small ur cr a s1 b s2)
    have for_sale: "in_i64 (for_sale l)" if "fmlookup (limit_orders st) i = Some l" for i l
      using ok that by (auto simp: chain_ok_def)
    have r: "in_i64 (amount ur) \<and> in_i64 (amount cr)"
      using 1(1-5) for_sale asset_mul_in_i64 by (auto simp: amount_for_sale_def split: if_splits)
    show ?case using limit_trade.zero_sum[OF 1(6) _ 1(7)] r 1(8) by (simp add: limit_ready_def)
  qed
qed (simp add: moves_def)

lemma asset_min_le: "asset_min a b = Inr c \<Longrightarrow> amount c \<le> amount a \<and> amount c \<le> amount b \<and> asset_id c = asset_id a"
  by (auto simp: asset_min_def asset_lt_def)

lemma match_call_settle_moves:
  assumes "match_call_settle call settle mp mx st = Inr (a, st')"
  shows "moves (\<lambda>A. 0) st st'"
  using assms unfolding match_call_settle_def
proof (elim res_elims, goal_cases)
  case (1 c s sfs cr cp cov f1 s1 f2 s2)
  have "amount cr \<le> amount (fs_balance s)" using asset_min_le[OF 1(5)] asset_min_le[OF 1(6)] by simp
  moreover have "settlements s1 = settlements st" using fill_call_order_moves(2)[OF 1(10)] by simp
  ultimately have "settle_ready settle cr cp s1"
    using 1(2) asset_mul_in_i64[OF 1(7)] by (auto simp: settle_ready_def)
  then show ?case using settle_trade.zero_sum[OF 1(10) _ 1(11)] 1(12) by (simp add: call_ready_def)
qed

lemma match_loop_moves: "match_loop new olds st = Inr st' \<Longrightarrow> moves (\<lambda>A. 0) st st'"
proof (induction new olds st rule: match_loop.induct)
  case (2 new old olds st)
  obtain l r s1 where l: "fmlookup (limit_orders st) old = Some l" "match_limit new old (sell_price l) st = Inr (r, s1)"
    "(if r \<noteq> 2 then Inr s1 else match_loop new olds s1) = Inr st'"
    using 2(2) by auto
  have 1: "moves (\<lambda>A. 0) st s1" by (rule match_limit_moves[OF l(2)])
  have "moves (\<lambda>A. 0) s1 st'"
  proof (cases "r = 2")
    case True
    show ?thesis by (rule 2(1)[of l "(r, s1)"]) (use l True in simp_all)
  qed (use l(3) in \<open>auto intro: moves_refl\<close>)
  with 1 show ?case by (rule moves0_trans)
qed (auto intro: moves_refl)

section \<open>Global settlement\<close>

lemma price_bounds_ids:
  assumes "price_min b q = Inr lo" "price_max b q = Inr hi" "\<not> price_lt p lo" "\<not> price_lt hi p"
  shows "asset_id (base p) = b \<and> asset_id (quote p) = q"
  using assms by (auto simp: price_min_def price_max_def asset_div_def price_lt_def split: if_splits)

lemma call_range_members:
  assumes "i \<in> set (call_range lo hi st)" "price_min b q = Inr lo" "price_max b q = Inr hi"
  shows "\<exists>c. fmlookup (call_orders st) i = Some c \<and> asset_id (get_collateral c) = b \<and> asset_id (get_debt c) = q"
proof -
  obtain c where c: "(i, c) \<in> set (entries (call_orders st))" "\<not> price_lt (co_call_price c) lo" "\<not> price_lt hi (co_call_price c)"
    using assms(1) by (auto simp: call_range_def)
  then show ?thesis using price_bounds_ids[OF assms(2,3) c(2,3)]
    by (auto simp: set_entries get_collateral_def get_debt_def)
qed

lemma distinct_map_filter: "distinct (map f xs) \<Longrightarrow> distinct (map f (filter P xs))"
  by (induction xs) auto

lemma distinct_map_sort_by: "distinct (map f xs) \<Longrightarrow> distinct (map f (sort_by lt xs))"
  by (metis mset_map mset_sort_by mset_eq_imp_distinct_iff)

lemma distinct_call_range: "distinct (call_range lo hi st)"
  unfolding call_range_def by (intro distinct_map_filter distinct_map_sort_by distinct_entries)

text \<open>The loop: the debts \<open>S\<close> leave the supply, the payments leave the collateral.\<close>

lemma settle_call_step:
  assumes "settle_call sp i (g, st) = Inr (g1, s1)"
  shows "\<exists>c paid. fmlookup (call_orders st) i = Some c \<and> asset_add g paid = Inr g1 \<and>
    fill_call_order i paid (get_debt c) st = Inr (True, s1)"
  using assms unfolding settle_call_def Let_def prod.case
  by (elim res_elims) (simp, blast)

lemma settle_calls_moves:
  assumes "rfold (settle_call sp) ids (g, st) = Inr (g', st')" "distinct ids"
    and "\<forall>j\<in>set ids. \<exists>c. fmlookup (call_orders st) j = Some c \<and> asset_id (get_debt c) = mia"
  shows "\<exists>S. moves (\<lambda>A. part A (mk_asset S mia) - (part A g' - part A g)) st st' \<and> asset_id g' = asset_id g \<and>
    bitassets st' = bitassets st \<and> assets st' = assets st \<and> limit_orders st' = limit_orders st \<and>
    (\<forall>d. fmlookup (dyn_data st) mia = Some d \<longrightarrow>
       fmlookup (dyn_data st') mia = Some (d\<lparr>current_supply := current_supply d - S\<rparr>))"
  using assms
proof (induction ids arbitrary: g st)
  case Nil
  then show ?case by (intro exI[of _ 0]) (auto intro: moves_refl)
next
  case (Cons i ids)
  obtain g1 s1 where step: "settle_call sp i (g, st) = Inr (g1, s1)"
    and rest: "rfold (settle_call sp) ids (g1, s1) = Inr (g', st')"
    using Cons.prems(1) by auto
  obtain c paid where c: "fmlookup (call_orders st) i = Some c" and add: "asset_add g paid = Inr g1"
    and fill: "fill_call_order i paid (get_debt c) st = Inr (True, s1)"
    using settle_call_step[OF step] by blast
  have mia: "asset_id (get_debt c) = mia" using Cons.prems(3) c by auto
  note f = fill_call_order_moves[OF fill]
  have g1: "part A g1 = part A g + part A paid" "asset_id g1 = asset_id g" for A
    using add by (auto simp: asset_add_def part_def dest!: safe_add_Inr)
  have "\<forall>j\<in>set ids. \<exists>c. fmlookup (call_orders s1) j = Some c \<and> asset_id (get_debt c) = mia"
    using Cons.prems(2,3) f(2) by fastforce
  then obtain S where S: "moves (\<lambda>A. part A (mk_asset S mia) - (part A g' - part A g1)) s1 st'" "asset_id g' = asset_id g1"
      "bitassets st' = bitassets s1" "assets st' = assets s1" "limit_orders st' = limit_orders s1"
      "\<forall>d. fmlookup (dyn_data s1) mia = Some d \<longrightarrow>
        fmlookup (dyn_data st') mia = Some (d\<lparr>current_supply := current_supply d - S\<rparr>)"
    using Cons.IH[OF rest] Cons.prems(2) by auto
  have "moves (\<lambda>A. part A (mk_asset (S + amount (get_debt c)) mia) - (part A g' - part A g)) st st'"
    by (rule moves_cong[OF moves_seq[OF f(1) S(1)]]) (use mia g1 in \<open>auto simp: part_def\<close>)
  then show ?case using S f(2) mia g1(2)
    by (intro exI[of _ "S + amount (get_debt c)"]) (auto simp: algebra_simps)
qed

lemma globally_settle_moves:
  assumes "globally_settle_asset mia sp st = Inr st'"
  shows "moves (\<lambda>A. 0) st st'"
proof (cases "chain_ok st")
  case ok: True
  show ?thesis using assms unfolding globally_settle_asset_def Let_def
  proof (elim res_elims, goal_cases)
    case (1 bit ba md lo hi g s1 swan s2)
    let ?b = "short_backing_asset (bit_options bit)"
    have bit: "fmlookup (bitassets st) mia = Some bit" "\<not> has_settlement bit" using 1(1,2) by auto
    have members: "\<forall>j\<in>set (call_range lo hi st). \<exists>c. fmlookup (call_orders st) j = Some c \<and> asset_id (get_debt c) = mia"
      using call_range_members[OF _ 1(5,6)] by blast
    obtain S where S: "moves (\<lambda>A. part A (mk_asset S mia) - (part A g - part A (mk_asset 0 ?b))) st s1"
        "asset_id g = ?b" "bitassets s1 = bitassets st"
        "fmlookup (dyn_data s1) mia = Some (md\<lparr>current_supply := current_supply md - S\<rparr>)"
      using settle_calls_moves[OF 1(7) distinct_call_range, of mia] members 1(4) by auto
    have swan: "bit_ok mia (bit\<lparr>bit_settlement_price := swan, settlement_fund := f\<rparr>)" for f
      using 1(8) S(2) by (auto simp: bit_ok_def has_settlement_def price_is_null_def price_eq_def asset_div_def null_price_def)
    have m2: "s2 = s1\<lparr>bitassets := fmupd mia (bit\<lparr>bit_settlement_price := swan, settlement_fund := amount g\<rparr>) (bitassets s1)\<rparr> \<and>
        moves (\<lambda>A. part A g) s1 s2"
    proof -
      let ?new = "bit\<lparr>bit_settlement_price := swan, settlement_fund := amount g\<rparr>"
      have "settlement_fund bit = 0" using ok bit by (auto simp: chain_ok_def bit_ok_def)
      moreover have "s2 = s1\<lparr>bitassets := fmupd mia ?new (bitassets s1)\<rparr> \<and>
          moves (\<lambda>A. bit_part A ?new - bit_part A bit) s1 s2"
        using modify_bitasset_moves[OF 1(9)] bit S(3) swan by auto
      ultimately show ?thesis using S(2) by (auto simp: bit_part_def part_def elim: moves_cong)
    qed
    have "moves (\<lambda>A. - part A (mk_asset S mia)) s2 st'"
      using modify_dyn_moves[OF 1(10)] m2 S(4) by (auto simp: dyn_part_def elim!: moves_cong)
    then show ?case
      by (intro moves_cong[OF moves_seq[OF S(1) moves_seq[OF m2[THEN conjunct2]]]]) auto
  qed
qed (simp add: moves_def)

section \<open>Margin calls\<close>

lemma check_for_blackswan_moves:
  assumes "check_for_blackswan mia en st = Inr (b, st')"
  shows "moves (\<lambda>A. 0) st st' \<and> (\<not> b \<longrightarrow> st' = st)"
proof -
  obtain a where a: "fmlookup (assets st) mia = Some a" using assms by (auto simp: check_for_blackswan_def)
  show ?thesis
  proof (cases "is_market_issued a")
    case True
    then obtain bit where bit: "fmlookup (bitassets st) mia = Some bit"
      using assms a by (auto simp: check_for_blackswan_def)
    show ?thesis
    proof (cases "has_settlement bit \<or> price_is_null (settlement_price (current_feed bit))")
      case False
      then obtain swan where swan: "swan_price mia bit st = Inr swan"
        using assms a True bit by (auto simp: check_for_blackswan_def)
      show ?thesis
        using assms a True bit False swan globally_settle_moves
        by (cases swan) (auto simp: check_for_blackswan_def intro: moves_refl)
    qed (use assms a True bit in \<open>auto simp: check_for_blackswan_def split: if_splits intro: moves_refl\<close>)
  qed (use assms a in \<open>auto simp: check_for_blackswan_def intro: moves_refl\<close>)
qed

text \<open>One round of the loop that the black swan check lets through: it ends with the state unchanged, settles
  the asset, or trades the least collateralised position with the best order and goes on.\<close>

lemma call_loop_round:
  assumes "call_loop mia en fp (c # cs) (l # ls) fl mc st = Inr (b, st')"
    "check_for_blackswan mia en st = Inr (False, s0)"
  obtains (stop) "st' = s0" | (settle) "globally_settle_asset mia fp s0 = Inr st'"
  | (trade) match_price traded paid f1 s1 f2 s2 calls' limits' fl' where "asset_mul traded match_price = Inr paid"
      "fill_call_order c paid traded s0 = Inr (f1, s1)" "fill_limit_order l traded paid True s1 = Inr (f2, s2)"
      "call_loop mia en fp calls' limits' fl' True s2 = Inr (b, st')"
      "length calls' + length limits' < length cs + length ls + 2"
proof -
  show thesis
    using assms(1)
    apply (subst (asm) call_loop.simps)
    apply (simp only: assms(2) rbind.simps prod.case list.case if_False Let_def)
    apply (elim res_elims)
    apply ((simp only: split: if_split_asm); (elim res_elims)?; (simp only: split: if_split_asm)?; (elim res_elims)?;
      (simp add: stop settle)?)
    apply (rule trade, assumption, assumption, assumption, assumption)
    apply (auto split: if_splits)
    done
qed

lemma call_loop_moves:
  "call_loop mia en fp calls limits fl mc st = Inr (b, st') \<Longrightarrow> moves (\<lambda>A. 0) st st'"
proof (induction "length calls + length limits" arbitrary: calls limits fl mc st rule: less_induct)
  case less
  obtain swan s0 where swan: "check_for_blackswan mia en st = Inr (swan, s0)"
    using less(2) by (subst (asm) call_loop.simps) auto
  have m0: "moves (\<lambda>A. 0) st s0" using check_for_blackswan_moves[OF swan] by simp
  show ?case
  proof (cases "swan \<or> calls = [] \<or> limits = []")
    case True
    then have "st' = s0" using less(2) swan by (subst (asm) call_loop.simps) (auto split: list.splits if_splits)
    with m0 show ?thesis by simp
  next
    case False
    then obtain c cs l ls where cl: "calls = c # cs" "limits = l # ls" and ns: "\<not> swan"
      by (cases calls; cases limits) auto
    have "call_loop mia en fp (c # cs) (l # ls) fl mc st = Inr (b, st')"
      "check_for_blackswan mia en st = Inr (False, s0)" using less(2) cl swan ns by auto
    then have "moves (\<lambda>A. 0) s0 st'"
    proof (cases rule: call_loop_round)
      case (trade match_price traded paid f1 s1 f2 s2 calls' limits' fl')
      have "moves (\<lambda>A. 0) s0 s2"
        using margin_trade.zero_sum[OF trade(2) _ trade(3)] asset_mul_in_i64[OF trade(1)]
        by (simp add: call_ready_def limit_ready_def)
      moreover have "moves (\<lambda>A. 0) s2 st'" using less(1)[OF _ trade(4)] trade(5) cl by simp
      ultimately show ?thesis by (rule moves0_trans)
    qed (simp_all add: globally_settle_moves moves_refl)
    with m0 show ?thesis by (rule moves0_trans)
  qed
qed

lemmas blackswan_moves0 = check_for_blackswan_moves[THEN conjunct1]

lemma check_call_orders_moves:
  assumes "check_call_orders mia en st = Inr (b, st')"
  shows "moves (\<lambda>A. 0) st st'"
  using assms unfolding check_call_orders_def
  apply (elim run_elims; (simp add: moves_refl)?)
      apply (erule blackswan_moves0 | (rule moves0_trans, erule blackswan_moves0, erule call_loop_moves))+
  done

lemma apply_order_moves:
  assumes "apply_order i sw st = Inr (b, st')"
  shows "moves (\<lambda>A. 0) st st'"
  using assms unfolding apply_order_def
  apply (elim run_elims; simp?)
     apply (erule check_call_orders_moves | erule match_loop_moves | erule maybe_cull_moves
       | (rule moves0_trans, (erule check_call_orders_moves | erule match_loop_moves)))+
  done

end
