(* ===== verification/Names.thy ===== *)
theory Names
  imports Prelude "HOL-Library.Char_ord"
begin

text \<open>Account names and asset symbols: \<open>is_valid_name\<close> and \<open>is_cheap_name\<close> of \<open>chain/protocol/account.cpp\<close> and
  \<open>is_valid_symbol\<close> of \<open>chain/protocol/asset_ops.cpp\<close>.

  The loop of \<open>is_valid_name\<close> walks over the labels between the dots; it is shown equal to the grammar that the comment
  above it gives (a dot-separated sequence of labels). Whether the clock of the node is before hardfork 385 is the
  argument \<open>early\<close>.\<close>

definition isupper :: "char \<Rightarrow> bool" where
  "isupper c \<longleftrightarrow> 65 \<le> (of_char c :: nat) \<and> (of_char c :: nat) \<le> 90"

definition islower :: "char \<Rightarrow> bool" where
  "islower c \<longleftrightarrow> 97 \<le> (of_char c :: nat) \<and> (of_char c :: nat) \<le> 122"

definition isalpha :: "char \<Rightarrow> bool" where "isalpha c \<longleftrightarrow> isupper c \<or> islower c"

definition isdigit :: "char \<Rightarrow> bool" where
  "isdigit c \<longleftrightarrow> 48 \<le> (of_char c :: nat) \<and> (of_char c :: nat) \<le> 57"

section \<open>Asset symbols\<close>

fun symbol_chars :: "bool \<Rightarrow> string \<Rightarrow> bool" where
  "symbol_chars dot [] = True"
| "symbol_chars dot (c # cs) =
    (if (isalpha c \<and> isupper c) \<or> isdigit c then symbol_chars dot cs
     else if c = CHR ''.'' then (if dot then False else symbol_chars True cs)
     else False)"

definition is_valid_symbol :: "string \<Rightarrow> bool" where
  "is_valid_symbol s =
    (if length s < 3 then False
     else if take 3 s = ''BIT'' then False
     else if length s > 16 then False
     else if \<not> isalpha (hd s) then False
     else if \<not> isalpha (last s) then False
     else symbol_chars False s)"

section \<open>Account names\<close>

definition MIN_ACCOUNT_NAME_LENGTH :: nat where "MIN_ACCOUNT_NAME_LENGTH = 1"
definition MAX_ACCOUNT_NAME_LENGTH :: nat where "MAX_ACCOUNT_NAME_LENGTH = 63"

text \<open>The loop body for the label that starts at \<open>begin\<close>, and the loop over the labels.\<close>

definition name_label :: "string \<Rightarrow> bool" where
  "name_label label =
    (if length label < MIN_ACCOUNT_NAME_LENGTH then False
     else if \<not> islower (hd label) then False
     else if \<not> (islower (last label) \<or> isdigit (last label)) then False
     else list_all (\<lambda>c. islower c \<or> isdigit c \<or> c = CHR ''-'') (butlast (tl label)))"

function name_labels :: "string \<Rightarrow> bool" where
  "name_labels name =
    (if \<not> name_label (takeWhile (\<lambda>c. c \<noteq> CHR ''.'') name) then False
     else case dropWhile (\<lambda>c. c \<noteq> CHR ''.'') name of [] \<Rightarrow> True | _ # rest \<Rightarrow> name_labels rest)"
  by pat_completeness auto

termination
proof (relation "measure length")
  fix name :: string and c :: char and rest :: string
  assume "dropWhile (\<lambda>c. c \<noteq> CHR ''.'') name = c # rest"
  then show "(rest, name) \<in> measure length"
    using length_dropWhile_le[of "\<lambda>c. c \<noteq> CHR ''.''" name] by simp
qed simp

declare name_labels.simps [simp del]

definition is_valid_name :: "bool \<Rightarrow> string \<Rightarrow> bool res" where
  "is_valid_name early name =
    rbind (if early then fc_assert (length name \<ge> 3) (Inr ()) else Inr ()) (\<lambda>_.
    Inr (if length name < MIN_ACCOUNT_NAME_LENGTH then False
         else if length name > MAX_ACCOUNT_NAME_LENGTH then False
         else name_labels name))"

fun cheap_chars :: "bool \<Rightarrow> string \<Rightarrow> bool" where
  "cheap_chars v [] = (\<not> v)"
| "cheap_chars v (c # cs) =
    (if isdigit c then True
     else if c = CHR ''.'' \<or> c = CHR ''-'' \<or> c = CHR ''/'' then True
     else cheap_chars (v \<or> c \<in> set ''aeiouy'') cs)"

definition is_cheap_name :: "string \<Rightarrow> bool" where
  "is_cheap_name n = cheap_chars False n"

section \<open>The grammar\<close>

text \<open>\<open><label> ::= <letter> [ [ <let-dig-hyp>+ ] <let-dig> ]\<close> and \<open><subdomain> ::= <label> ("." <label>)*\<close>.\<close>

definition let_dig :: "char \<Rightarrow> bool" where "let_dig c \<longleftrightarrow> islower c \<or> isdigit c"

inductive label :: "string \<Rightarrow> bool" where
  "islower c \<Longrightarrow> label [c]"
| "islower c \<Longrightarrow> list_all (\<lambda>x. let_dig x \<or> x = CHR ''-'') hyp \<Longrightarrow> let_dig d \<Longrightarrow> label (c # hyp @ [d])"

inductive subdomain :: "string \<Rightarrow> bool" where
  "label l \<Longrightarrow> subdomain l"
| "label l \<Longrightarrow> subdomain s \<Longrightarrow> subdomain (l @ CHR ''.'' # s)"

lemma label_chars: "label l \<Longrightarrow> \<forall>c\<in>set l. c \<noteq> CHR ''.''"
  by (induction rule: label.induct) (auto simp: let_dig_def islower_def isdigit_def list_all_iff)

lemma name_label_iff: "name_label l \<longleftrightarrow> label l"
proof
  assume n: "name_label l"
  then obtain c cs where l: "l = c # cs" by (cases l) (auto simp: name_label_def MIN_ACCOUNT_NAME_LENGTH_def)
  show "label l"
  proof (cases cs rule: rev_cases)
    case Nil
    then show ?thesis using n l by (auto simp: name_label_def intro: label.intros split: if_splits)
  next
    case (snoc hyp d)
    then show ?thesis using n l
      by (auto simp: name_label_def let_dig_def intro!: label.intros(2) split: if_splits elim!: list.pred_mono_strong)
  qed
next
  assume "label l"
  then show "name_label l"
    by (cases rule: label.cases)
      (auto simp: name_label_def MIN_ACCOUNT_NAME_LENGTH_def let_dig_def butlast_append elim!: list.pred_mono_strong)
qed

lemma name_labels_iff: "name_labels s \<longleftrightarrow> subdomain s"
proof
  show "name_labels s \<Longrightarrow> subdomain s"
  proof (induction s rule: name_labels.induct)
    case (1 s)
    define l where "l = takeWhile (\<lambda>c. c \<noteq> CHR ''.'') s"
    have l: "label l" using 1(2) by (subst (asm) name_labels.simps) (simp add: l_def name_label_iff split: if_splits)
    show ?case
    proof (cases "dropWhile (\<lambda>c. c \<noteq> CHR ''.'') s")
      case Nil
      then have "s = l" using takeWhile_dropWhile_id[of "\<lambda>c. c \<noteq> CHR ''.''" s] unfolding l_def
        by (metis append_Nil2)
      then show ?thesis using l by (auto intro: subdomain.intros)
    next
      case (Cons c rest)
      have "c = CHR ''.''" using Cons hd_dropWhile[of "\<lambda>c. c \<noteq> CHR ''.''" s] by auto
      then have "s = l @ CHR ''.'' # rest" using Cons takeWhile_dropWhile_id[of "\<lambda>c. c \<noteq> CHR ''.''" s] by (simp add: l_def)
      moreover have "name_labels rest"
        using 1(2) Cons by (subst (asm) name_labels.simps) (simp split: if_splits)
      then have "subdomain rest" using 1(1)[OF _ Cons] l by (simp add: l_def name_label_iff)
      ultimately show ?thesis using l by (auto intro: subdomain.intros)
    qed
  qed
next
  have tw: "takeWhile (\<lambda>c. c \<noteq> CHR ''.'') (l @ CHR ''.'' # s) = l" "dropWhile (\<lambda>c. c \<noteq> CHR ''.'') (l @ CHR ''.'' # s) = CHR ''.'' # s"
    "takeWhile (\<lambda>c. c \<noteq> CHR ''.'') l = l" "dropWhile (\<lambda>c. c \<noteq> CHR ''.'') l = []" if "label l" for l s
    using label_chars[OF that] by (auto simp: takeWhile_eq_all_conv)
  show "subdomain s \<Longrightarrow> name_labels s"
    by (induction rule: subdomain.induct) (subst name_labels.simps, simp add: tw name_label_iff)+
qed

section \<open>Properties\<close>


end
