(* ===== verification/Operations.thy ===== *)
theory Operations
  imports Market_Properties Names
begin

text \<open>The operations of the protocol, as the structs of \<open>chain/include/graphene/chain/protocol/*.hpp\<close>, with the stateless
  validation of \<open>chain/protocol/*.cpp\<close>: transfers, orders, assets, vesting balances, accounts, witnesses, committee
  members, workers, withdrawal permissions, genesis balances, assertions and custom operations. Proposals and
  confidential transfers are not among them.

  Memo texts, descriptions and empty extensions are left out (only their size matters, for the fee). \<open>operation\<close> is the
  variant of these structs; \<open>op_fee\<close>, \<open>fee_payer\<close> and \<open>op_validate\<close> are its visitors. Validation of a name looks at
  the clock of the node: \<open>early\<close> says that it is before hardfork 385.\<close>

section \<open>Structs\<close>

record transfer_operation =
  tr_fee :: asset
  tr_from :: nat
  tr_to :: nat
  tr_amount :: asset

record override_transfer_operation =
  ot_fee :: asset
  ot_issuer :: nat
  ot_from :: nat
  ot_to :: nat
  ot_amount :: asset

record limit_order_create_operation =
  lc_fee :: asset
  lc_seller :: nat
  amount_to_sell :: asset
  min_to_receive :: asset
  lc_expiration :: int
  fill_or_kill :: bool

record limit_order_cancel_operation =
  lx_fee :: asset
  lx_order :: nat
  fee_paying_account :: nat

record call_order_update_operation =
  cu_fee :: asset
  funding_account :: nat
  delta_collateral :: asset
  delta_debt :: asset

record asset_create_operation =
  ac_fee :: asset
  ac_issuer :: nat
  symbol :: string
  precision :: nat
  common_options :: asset_options
  bitasset_opts :: "bitasset_options option"
  ac_prediction_market :: bool

record asset_update_operation =
  au_fee :: asset
  au_issuer :: nat
  asset_to_update :: nat
  new_issuer :: "nat option"
  new_options :: asset_options

record asset_update_bitasset_operation =
  ab_fee :: asset
  ab_issuer :: nat
  ab_asset :: nat
  ab_options :: bitasset_options

record asset_update_feed_producers_operation =
  af_fee :: asset
  af_issuer :: nat
  af_asset :: nat
  new_feed_producers :: "nat list"

record asset_issue_operation =
  ai_fee :: asset
  ai_issuer :: nat
  asset_to_issue :: asset
  issue_to_account :: nat

record asset_reserve_operation =
  ar_fee :: asset
  payer :: nat
  amount_to_reserve :: asset

record asset_fund_fee_pool_operation =
  ff_fee :: asset
  from_account :: nat
  ff_asset :: nat
  ff_amount :: int

record asset_settle_operation =
  as_fee :: asset
  as_account :: nat
  as_amount :: asset

record asset_global_settle_operation =
  ag_fee :: asset
  ag_issuer :: nat
  asset_to_settle :: nat
  settle_price :: price

record asset_publish_feed_operation =
  pf_fee :: asset
  publisher :: nat
  pf_asset :: nat
  feed :: price_feed

record asset_claim_fees_operation =
  cf_fee :: asset
  cf_issuer :: nat
  amount_to_claim :: asset

datatype vesting_policy_initializer =
    LinearInit int int int   \<comment> \<open>\<open>begin_timestamp\<close>, \<open>vesting_cliff_seconds\<close>, \<open>vesting_duration_seconds\<close>\<close>
  | CddInit int int          \<comment> \<open>\<open>start_claim\<close>, \<open>vesting_seconds\<close>\<close>

record vesting_balance_create_operation =
  vc_fee :: asset
  creator :: nat
  vc_owner :: nat
  vc_amount :: asset
  policy :: vesting_policy_initializer

record vesting_balance_withdraw_operation =
  vw_fee :: asset
  vw_vesting_balance :: nat
  vw_owner :: nat
  vw_amount :: asset

record buyback_account_options =
  asset_to_buy :: nat
  asset_to_buy_issuer :: nat
  bb_markets :: "nat list"

record account_create_operation =
  cr_fee :: asset
  cr_registrar :: nat
  cr_referrer :: nat
  referrer_percent :: int
  cr_name :: string
  cr_owner :: authority
  cr_active :: authority
  cr_options :: account_options
  cr_null_ext :: bool
  cr_owner_special :: "special_authority option"
  cr_active_special :: "special_authority option"
  cr_buyback :: "buyback_account_options option"

record account_update_operation =
  up_fee :: asset
  up_account :: nat
  up_owner :: "authority option"
  up_active :: "authority option"
  up_options :: "account_options option"
  up_null_ext :: bool
  up_owner_special :: "special_authority option"
  up_active_special :: "special_authority option"

record account_whitelist_operation =
  wl_fee :: asset
  authorizing_account :: nat
  account_to_list :: nat
  new_listing :: "8 word"

record account_upgrade_operation =
  ug_fee :: asset
  account_to_upgrade :: nat
  upgrade_to_lifetime_member :: bool

record witness_create_operation =
  wc_fee :: asset
  wc_account :: nat
  wc_url :: string
  block_signing_key :: nat

record witness_update_operation =
  wu_fee :: asset
  wu_witness :: nat
  wu_account :: nat
  wu_url :: "string option"
  new_signing_key :: "nat option"

record committee_member_create_operation =
  cc_fee :: asset
  cc_account :: nat
  cc_url :: string

record committee_member_update_operation =
  mu_fee :: asset
  mu_member :: nat
  mu_account :: nat
  mu_url :: "string option"

record committee_member_update_global_parameters_operation =
  gp_fee :: asset
  new_parameters :: chain_parameters

datatype worker_initializer = RefundInit | VestingInit int | BurnInit

record worker_create_operation =
  wk_fee :: asset
  wk_owner :: nat
  wk_begin_date :: int
  wk_end_date :: int
  wk_daily_pay :: int
  wk_name :: string
  wk_url :: string
  initializer :: worker_initializer

record withdraw_permission_create_operation =
  pc_fee :: asset
  pc_from :: nat
  pc_authorized :: nat
  pc_limit :: asset
  pc_period_sec :: int
  pc_periods :: int
  pc_start :: int

record withdraw_permission_update_operation =
  pu_fee :: asset
  pu_from :: nat
  pu_authorized :: nat
  permission_to_update :: nat
  pu_limit :: asset
  pu_period_sec :: int
  pu_start :: int
  pu_periods :: int

record withdraw_permission_claim_operation =
  pl_fee :: asset
  withdraw_permission :: nat
  pl_from :: nat
  withdraw_to_account :: nat
  amount_to_withdraw :: asset

record withdraw_permission_delete_operation =
  pd_fee :: asset
  pd_from :: nat
  pd_authorized :: nat
  withdrawal_permission :: nat

record balance_claim_operation =
  bc_fee :: asset
  deposit_to_account :: nat
  balance_to_claim :: nat
  balance_owner_key :: nat
  total_claimed :: asset

datatype predicate =
    AccountNameEqLit nat string
  | AssetSymbolEqLit nat string
  | BlockIdPredicate block_id

record assert_operation =
  at_fee :: asset
  at_payer :: nat
  predicates :: "predicate list"

record custom_operation =
  cs_fee :: asset
  cs_payer :: nat

datatype operation =
    Transfer transfer_operation
  | OverrideTransfer override_transfer_operation
  | LimitOrderCreate limit_order_create_operation
  | LimitOrderCancel limit_order_cancel_operation
  | CallOrderUpdate call_order_update_operation
  | AssetCreate asset_create_operation
  | AssetUpdate asset_update_operation
  | AssetUpdateBitasset asset_update_bitasset_operation
  | AssetUpdateFeedProducers asset_update_feed_producers_operation
  | AssetIssue asset_issue_operation
  | AssetReserve asset_reserve_operation
  | AssetFundFeePool asset_fund_fee_pool_operation
  | AssetSettle asset_settle_operation
  | AssetGlobalSettle asset_global_settle_operation
  | AssetPublishFeed asset_publish_feed_operation
  | AssetClaimFees asset_claim_fees_operation
  | VestingBalanceCreate vesting_balance_create_operation
  | VestingBalanceWithdraw vesting_balance_withdraw_operation
  | AccountCreate account_create_operation
  | AccountUpdate account_update_operation
  | AccountWhitelist account_whitelist_operation
  | AccountUpgrade account_upgrade_operation
  | WitnessCreate witness_create_operation
  | WitnessUpdate witness_update_operation
  | CommitteeMemberCreate committee_member_create_operation
  | CommitteeMemberUpdate committee_member_update_operation
  | UpdateGlobalParameters committee_member_update_global_parameters_operation
  | WorkerCreate worker_create_operation
  | WithdrawPermissionCreate withdraw_permission_create_operation
  | WithdrawPermissionUpdate withdraw_permission_update_operation
  | WithdrawPermissionClaim withdraw_permission_claim_operation
  | WithdrawPermissionDelete withdraw_permission_delete_operation
  | BalanceClaim balance_claim_operation
  | AssertOp assert_operation
  | Custom custom_operation

fun op_fee :: "operation \<Rightarrow> asset" where
  "op_fee (Transfer op) = tr_fee op"
| "op_fee (OverrideTransfer op) = ot_fee op"
| "op_fee (LimitOrderCreate op) = lc_fee op"
| "op_fee (LimitOrderCancel op) = lx_fee op"
| "op_fee (CallOrderUpdate op) = cu_fee op"
| "op_fee (AssetCreate op) = ac_fee op"
| "op_fee (AssetUpdate op) = au_fee op"
| "op_fee (AssetUpdateBitasset op) = ab_fee op"
| "op_fee (AssetUpdateFeedProducers op) = af_fee op"
| "op_fee (AssetIssue op) = ai_fee op"
| "op_fee (AssetReserve op) = ar_fee op"
| "op_fee (AssetFundFeePool op) = ff_fee op"
| "op_fee (AssetSettle op) = as_fee op"
| "op_fee (AssetGlobalSettle op) = ag_fee op"
| "op_fee (AssetPublishFeed op) = pf_fee op"
| "op_fee (AssetClaimFees op) = cf_fee op"
| "op_fee (VestingBalanceCreate op) = vc_fee op"
| "op_fee (VestingBalanceWithdraw op) = vw_fee op"
| "op_fee (AccountCreate op) = cr_fee op"
| "op_fee (AccountUpdate op) = up_fee op"
| "op_fee (AccountWhitelist op) = wl_fee op"
| "op_fee (AccountUpgrade op) = ug_fee op"
| "op_fee (WitnessCreate op) = wc_fee op"
| "op_fee (WitnessUpdate op) = wu_fee op"
| "op_fee (CommitteeMemberCreate op) = cc_fee op"
| "op_fee (CommitteeMemberUpdate op) = mu_fee op"
| "op_fee (UpdateGlobalParameters op) = gp_fee op"
| "op_fee (WorkerCreate op) = wk_fee op"
| "op_fee (WithdrawPermissionCreate op) = pc_fee op"
| "op_fee (WithdrawPermissionUpdate op) = pu_fee op"
| "op_fee (WithdrawPermissionClaim op) = pl_fee op"
| "op_fee (WithdrawPermissionDelete op) = pd_fee op"
| "op_fee (BalanceClaim op) = bc_fee op"
| "op_fee (AssertOp op) = at_fee op"
| "op_fee (Custom op) = cs_fee op"

fun fee_payer :: "operation \<Rightarrow> nat" where
  "fee_payer (Transfer op) = tr_from op"
| "fee_payer (OverrideTransfer op) = ot_issuer op"
| "fee_payer (LimitOrderCreate op) = lc_seller op"
| "fee_payer (LimitOrderCancel op) = fee_paying_account op"
| "fee_payer (CallOrderUpdate op) = funding_account op"
| "fee_payer (AssetCreate op) = ac_issuer op"
| "fee_payer (AssetUpdate op) = au_issuer op"
| "fee_payer (AssetUpdateBitasset op) = ab_issuer op"
| "fee_payer (AssetUpdateFeedProducers op) = af_issuer op"
| "fee_payer (AssetIssue op) = ai_issuer op"
| "fee_payer (AssetReserve op) = payer op"
| "fee_payer (AssetFundFeePool op) = from_account op"
| "fee_payer (AssetSettle op) = as_account op"
| "fee_payer (AssetGlobalSettle op) = ag_issuer op"
| "fee_payer (AssetPublishFeed op) = publisher op"
| "fee_payer (AssetClaimFees op) = cf_issuer op"
| "fee_payer (VestingBalanceCreate op) = creator op"
| "fee_payer (VestingBalanceWithdraw op) = vw_owner op"
| "fee_payer (AccountCreate op) = cr_registrar op"
| "fee_payer (AccountUpdate op) = up_account op"
| "fee_payer (AccountWhitelist op) = authorizing_account op"
| "fee_payer (AccountUpgrade op) = account_to_upgrade op"
| "fee_payer (WitnessCreate op) = wc_account op"
| "fee_payer (WitnessUpdate op) = wu_account op"
| "fee_payer (CommitteeMemberCreate op) = cc_account op"
| "fee_payer (CommitteeMemberUpdate op) = mu_account op"
| "fee_payer (UpdateGlobalParameters op) = 0"
| "fee_payer (WorkerCreate op) = wk_owner op"
| "fee_payer (WithdrawPermissionCreate op) = pc_from op"
| "fee_payer (WithdrawPermissionUpdate op) = pu_from op"
| "fee_payer (WithdrawPermissionClaim op) = withdraw_to_account op"
| "fee_payer (WithdrawPermissionDelete op) = pd_from op"
| "fee_payer (BalanceClaim op) = deposit_to_account op"
| "fee_payer (AssertOp op) = at_payer op"
| "fee_payer (Custom op) = cs_payer op"

section \<open>Validation\<close>

definition ASSET_ISSUER_PERMISSION_MASK :: "16 word" where
  "ASSET_ISSUER_PERMISSION_MASK = charge_market_fee OR white_list OR override_authority OR transfer_restricted OR
     disable_force_settle OR global_settle OR disable_confidential OR witness_fed_asset OR committee_fed_asset"

definition asset_options_validate :: "asset_options \<Rightarrow> unit res" where
  "asset_options_validate ao =
    fc_assert (max_supply ao > 0) (fc_assert (max_supply ao \<le> MAX_SHARE_SUPPLY)
    (fc_assert (market_fee_percent ao \<le> 10000)
    (fc_assert (max_market_fee ao \<ge> 0 \<and> max_market_fee ao \<le> MAX_SHARE_SUPPLY)
    (fc_assert (issuer_permissions ao AND NOT ASSET_ISSUER_PERMISSION_MASK = 0)
    (fc_assert (asset_flags ao AND global_settle = 0)
    (fc_assert (asset_flags ao AND (witness_fed_asset OR committee_fed_asset) \<noteq> witness_fed_asset OR committee_fed_asset)
    (rbind (price_validate (opt_core_exchange_rate ao)) (\<lambda>_.
    fc_assert (asset_id (base (opt_core_exchange_rate ao)) = 0 \<or> asset_id (quote (opt_core_exchange_rate ao)) = 0)
    (fc_assert ((whitelist_authorities ao \<noteq> [] \<or> blacklist_authorities ao \<noteq> []) \<longrightarrow> asset_flags ao AND white_list \<noteq> 0)
    (fc_assert (list_all (\<lambda>i. i \<notin> set (blacklist_markets ao)) (whitelist_markets ao))
    (fc_assert (list_all (\<lambda>i. i \<notin> set (whitelist_markets ao)) (blacklist_markets ao)) (Inr ()))))))))))))"

definition bitasset_options_validate :: "bitasset_options \<Rightarrow> unit res" where
  "bitasset_options_validate bo =
    fc_assert (minimum_feeds bo > 0) (fc_assert (force_settlement_offset_percent bo \<le> 10000)
    (fc_assert (maximum_force_settlement_volume bo \<le> 10000) (Inr ())))"

definition asset_create_validate :: "asset_create_operation \<Rightarrow> unit res" where
  "asset_create_validate op =
    fc_assert (amount (ac_fee op) \<ge> 0) (fc_assert (is_valid_symbol (symbol op))
    (rbind (asset_options_validate (common_options op)) (\<lambda>_.
    fc_assert (issuer_permissions (common_options op) AND (disable_force_settle OR global_settle) \<noteq> 0 \<longrightarrow>
               bitasset_opts op \<noteq> None)
    (fc_assert (ac_prediction_market op \<longrightarrow>
        bitasset_opts op \<noteq> None \<and> issuer_permissions (common_options op) AND global_settle \<noteq> 0)
    (rbind (case bitasset_opts op of None \<Rightarrow> Inr () | Some bo \<Rightarrow> bitasset_options_validate bo) (\<lambda>_.
    rbind (asset_mul (mk_asset 1 0) (opt_core_exchange_rate (common_options op))) (\<lambda>dummy.
    fc_assert (asset_id dummy = 1) (fc_assert (precision op \<le> 12) (Inr ())))))))))"

definition asset_update_validate :: "asset_update_operation \<Rightarrow> unit res" where
  "asset_update_validate op =
    fc_assert (amount (au_fee op) \<ge> 0)
    (fc_assert (case new_issuer op of None \<Rightarrow> True | Some i \<Rightarrow> au_issuer op \<noteq> i)
    (rbind (asset_options_validate (new_options op)) (\<lambda>_.
    rbind (asset_mul (mk_asset 1 (asset_to_update op)) (opt_core_exchange_rate (new_options op))) (\<lambda>dummy.
    fc_assert (asset_id dummy = 0) (Inr ())))))"

definition asset_publish_feed_validate :: "asset_publish_feed_operation \<Rightarrow> unit res" where
  "asset_publish_feed_validate op =
    fc_assert (amount (pf_fee op) \<ge> 0)
    (rbind (price_feed_validate (feed op)) (\<lambda>_.
    let cer = core_exchange_rate (feed op); sp = settlement_price (feed op) in
    rbind (if price_is_null cer then Inr () else price_validate cer) (\<lambda>_.
    fc_assert (\<not> price_is_null sp \<and> \<not> price_is_null cer \<longrightarrow> asset_id (base sp) = asset_id (base cer))
    (fc_assert (\<not> price_is_null sp) (fc_assert (\<not> price_is_null cer)
    (fc_assert (price_feed_is_for (feed op) (pf_asset op)) (Inr ())))))))"

definition account_options_validate :: "account_options \<Rightarrow> unit res" where
  "account_options_validate ao =
    (let (needed_witnesses, needed_committee) = fold (\<lambda>id (w, c).
         if vote_type_get id = Witness \<and> w \<noteq> 0 then (w - 1, c)
         else if vote_type_get id = Committee \<and> c \<noteq> 0 then (w, c - 1) else (w, c)) (votes ao) (num_witness ao, num_committee ao)
     in fc_assert (needed_witnesses = 0 \<and> needed_committee = 0) (Inr ()))"

fun validate_special_authority :: "special_authority \<Rightarrow> unit res" where
  "validate_special_authority NoSpecialAuthority = Inr ()"
| "validate_special_authority (TopHoldersSpecialAuthority a n) = fc_assert (n > 0) (Inr ())"

definition validate_new_authority :: "authority \<Rightarrow> unit res" where
  "validate_new_authority a =
    fc_assert (num_auths a \<noteq> 0) (fc_assert (address_auths a = []) (fc_assert (\<not> is_impossible a) (Inr ())))"

definition if_given :: "'a option \<Rightarrow> ('a \<Rightarrow> unit res) \<Rightarrow> unit res" where
  "if_given x f = (case x of None \<Rightarrow> Inr () | Some a \<Rightarrow> f a)"

definition validate_buyback :: "account_create_operation \<Rightarrow> buyback_account_options \<Rightarrow> unit res" where
  "validate_buyback op bb =
    fc_assert (cr_owner_special op = None) (fc_assert (cr_active_special op = None)
    (fc_assert (cr_owner op = null_authority) (fc_assert (cr_active op = null_authority)
    (fc_assert (bb_markets bb \<noteq> []) (fc_assert (list_all (\<lambda>m. m \<noteq> asset_to_buy bb) (bb_markets bb)) (Inr ()))))))"

definition account_create_validate :: "bool \<Rightarrow> account_create_operation \<Rightarrow> unit res" where
  "account_create_validate early op =
    fc_assert (amount (cr_fee op) \<ge> 0)
    (rbind (is_valid_name early (cr_name op)) (\<lambda>valid. fc_assert valid
    (fc_assert (referrer_percent op \<le> 10000)
    (rbind (validate_new_authority (cr_owner op)) (\<lambda>_. rbind (validate_new_authority (cr_active op)) (\<lambda>_.
    rbind (account_options_validate (cr_options op)) (\<lambda>_.
    rbind (if_given (cr_owner_special op) validate_special_authority) (\<lambda>_.
    rbind (if_given (cr_active_special op) validate_special_authority) (\<lambda>_.
    if_given (cr_buyback op) (validate_buyback op))))))))))"

definition account_update_validate :: "account_update_operation \<Rightarrow> unit res" where
  "account_update_validate op =
    fc_assert (up_account op \<noteq> TEMP_ACCOUNT) (fc_assert (amount (up_fee op) \<ge> 0) (fc_assert (up_account op \<noteq> 0)
    (fc_assert (up_owner op \<noteq> None \<or> up_active op \<noteq> None \<or> up_options op \<noteq> None \<or> up_owner_special op \<noteq> None \<or>
       up_active_special op \<noteq> None)
    (rbind (if_given (up_owner op) validate_new_authority) (\<lambda>_.
    rbind (if_given (up_active op) validate_new_authority) (\<lambda>_.
    rbind (if_given (up_options op) account_options_validate) (\<lambda>_.
    rbind (if_given (up_owner_special op) validate_special_authority) (\<lambda>_.
    if_given (up_active_special op) validate_special_authority))))))))"

text \<open>The difference of the two proposal periods is a 32-bit unsigned one; validating the fee schedule does nothing.\<close>

definition chain_parameters_validate :: "chain_parameters \<Rightarrow> unit res" where
  "chain_parameters_validate p =
    fc_assert (reserve_percent_of_fee p \<le> 10000) (fc_assert (network_percent_of_fee p \<le> 10000)
    (fc_assert (lifetime_referrer_percent_of_fee p \<le> 10000)
    (fc_assert (network_percent_of_fee p + lifetime_referrer_percent_of_fee p \<le> 10000)
    (fc_assert (block_interval p \<ge> 1) (fc_assert (block_interval p \<le> 30) (fc_assert (block_interval p > 0)
    (fc_assert (maintenance_interval p > block_interval p)
    (fc_assert (maintenance_interval p mod block_interval p = 0)
    (fc_assert (maximum_transaction_size p \<ge> 1024) (fc_assert (maximum_block_size p \<ge> 5 * 1024)
    (fc_assert (maximum_time_until_expiration p > block_interval p)
    (fc_assert ((maximum_proposal_lifetime p - committee_proposal_review_period p) mod 2 ^ 32 > block_interval p)
      (Inr ())))))))))))))"

definition worker_create_validate :: "worker_create_operation \<Rightarrow> unit res" where
  "worker_create_validate op =
    fc_assert (amount (wk_fee op) \<ge> 0) (fc_assert (wk_end_date op > wk_begin_date op)
    (fc_assert (wk_daily_pay op > 0) (fc_assert (wk_daily_pay op < MAX_SHARE_SUPPLY)
    (fc_assert (length (wk_name op) < 63) (fc_assert (length (wk_url op) < 127) (Inr ()))))))"

text \<open>The answer of a predicate's validation is dropped, only its exceptions count.\<close>

fun predicate_validate :: "bool \<Rightarrow> predicate \<Rightarrow> bool res" where
  "predicate_validate early (AccountNameEqLit i n) = is_valid_name early n"
| "predicate_validate early (AssetSymbolEqLit i s) = Inr (is_valid_symbol s)"
| "predicate_validate early (BlockIdPredicate i) = Inr True"

definition assert_validate :: "bool \<Rightarrow> assert_operation \<Rightarrow> unit res" where
  "assert_validate early op =
    fc_assert (amount (at_fee op) \<ge> 0)
    (rfold (\<lambda>p _. rbind (predicate_validate early p) (\<lambda>_. Inr ())) (predicates op) ())"

fun op_validate :: "bool \<Rightarrow> operation \<Rightarrow> unit res" where
  "op_validate early (Transfer op) =
    fc_assert (amount (tr_fee op) \<ge> 0) (fc_assert (tr_from op \<noteq> tr_to op) (fc_assert (amount (tr_amount op) > 0) (Inr ())))"
| "op_validate early (OverrideTransfer op) =
    fc_assert (amount (ot_fee op) \<ge> 0) (fc_assert (ot_from op \<noteq> ot_to op) (fc_assert (amount (ot_amount op) > 0)
    (fc_assert (ot_issuer op \<noteq> ot_from op) (Inr ()))))"
| "op_validate early (LimitOrderCreate op) =
    fc_assert (asset_id (amount_to_sell op) \<noteq> asset_id (min_to_receive op)) (fc_assert (amount (lc_fee op) \<ge> 0)
    (fc_assert (amount (amount_to_sell op) > 0) (fc_assert (amount (min_to_receive op) > 0) (Inr ()))))"
| "op_validate early (LimitOrderCancel op) = fc_assert (amount (lx_fee op) \<ge> 0) (Inr ())"
| "op_validate early (CallOrderUpdate op) =
    fc_assert (amount (cu_fee op) \<ge> 0) (fc_assert (asset_id (delta_collateral op) \<noteq> asset_id (delta_debt op))
    (fc_assert (amount (delta_collateral op) \<noteq> 0 \<or> amount (delta_debt op) \<noteq> 0) (Inr ())))"
| "op_validate early (AssetCreate op) = asset_create_validate op"
| "op_validate early (AssetUpdate op) = asset_update_validate op"
| "op_validate early (AssetUpdateBitasset op) =
    fc_assert (amount (ab_fee op) \<ge> 0) (bitasset_options_validate (ab_options op))"
| "op_validate early (AssetUpdateFeedProducers op) = fc_assert (amount (af_fee op) \<ge> 0) (Inr ())"
| "op_validate early (AssetIssue op) =
    fc_assert (amount (ai_fee op) \<ge> 0) (fc_assert (amount (asset_to_issue op) \<le> MAX_SHARE_SUPPLY)
    (fc_assert (amount (asset_to_issue op) > 0) (fc_assert (asset_id (asset_to_issue op) \<noteq> 0) (Inr ()))))"
| "op_validate early (AssetReserve op) =
    fc_assert (amount (ar_fee op) \<ge> 0) (fc_assert (amount (amount_to_reserve op) \<le> MAX_SHARE_SUPPLY)
    (fc_assert (amount (amount_to_reserve op) > 0) (Inr ())))"
| "op_validate early (AssetFundFeePool op) =
    fc_assert (amount (ff_fee op) \<ge> 0) (fc_assert (asset_id (ff_fee op) = 0) (fc_assert (ff_amount op > 0) (Inr ())))"
| "op_validate early (AssetSettle op) = fc_assert (amount (as_fee op) \<ge> 0) (fc_assert (amount (as_amount op) \<ge> 0) (Inr ()))"
| "op_validate early (AssetGlobalSettle op) =
    fc_assert (amount (ag_fee op) \<ge> 0) (fc_assert (asset_to_settle op = asset_id (base (settle_price op))) (Inr ()))"
| "op_validate early (AssetPublishFeed op) = asset_publish_feed_validate op"
| "op_validate early (AssetClaimFees op) =
    fc_assert (amount (cf_fee op) \<ge> 0) (fc_assert (amount (amount_to_claim op) > 0) (Inr ()))"
| "op_validate early (VestingBalanceCreate op) =
    fc_assert (amount (vc_fee op) \<ge> 0) (fc_assert (amount (vc_amount op) > 0) (Inr ()))"
| "op_validate early (VestingBalanceWithdraw op) =
    fc_assert (amount (vw_fee op) \<ge> 0) (fc_assert (amount (vw_amount op) > 0) (Inr ()))"
| "op_validate early (AccountCreate op) = account_create_validate early op"
| "op_validate early (AccountUpdate op) = account_update_validate op"
| "op_validate early (AccountWhitelist op) = fc_assert (amount (wl_fee op) \<ge> 0) (fc_assert (new_listing op < 4) (Inr ()))"
| "op_validate early (AccountUpgrade op) = fc_assert (amount (ug_fee op) \<ge> 0) (Inr ())"
| "op_validate early (WitnessCreate op) = fc_assert (amount (wc_fee op) \<ge> 0) (fc_assert (length (wc_url op) < 127) (Inr ()))"
| "op_validate early (WitnessUpdate op) =
    fc_assert (amount (wu_fee op) \<ge> 0) (if_given (wu_url op) (\<lambda>u. fc_assert (length u < 127) (Inr ())))"
| "op_validate early (CommitteeMemberCreate op) =
    fc_assert (amount (cc_fee op) \<ge> 0) (fc_assert (length (cc_url op) < 127) (Inr ()))"
| "op_validate early (CommitteeMemberUpdate op) =
    fc_assert (amount (mu_fee op) \<ge> 0) (if_given (mu_url op) (\<lambda>u. fc_assert (length u < 127) (Inr ())))"
| "op_validate early (UpdateGlobalParameters op) =
    fc_assert (amount (gp_fee op) \<ge> 0) (chain_parameters_validate (new_parameters op))"
| "op_validate early (WorkerCreate op) = worker_create_validate op"
| "op_validate early (WithdrawPermissionCreate op) =
    fc_assert (amount (pc_fee op) \<ge> 0) (fc_assert (pc_from op \<noteq> pc_authorized op) (fc_assert (amount (pc_limit op) > 0)
    (fc_assert (pc_period_sec op > 0) (fc_assert (pc_periods op > 0) (Inr ())))))"
| "op_validate early (WithdrawPermissionUpdate op) =
    fc_assert (amount (pu_limit op) > 0) (fc_assert (amount (pu_fee op) \<ge> 0) (fc_assert (pu_period_sec op > 0)
    (fc_assert (pu_from op \<noteq> pu_authorized op) (fc_assert (pu_periods op > 0) (Inr ())))))"
| "op_validate early (WithdrawPermissionClaim op) =
    fc_assert (withdraw_to_account op \<noteq> pl_from op) (fc_assert (amount (amount_to_withdraw op) > 0)
    (fc_assert (amount (pl_fee op) \<ge> 0) (Inr ())))"
| "op_validate early (WithdrawPermissionDelete op) =
    fc_assert (amount (pd_fee op) \<ge> 0) (fc_assert (pd_from op \<noteq> pd_authorized op) (Inr ()))"
| "op_validate early (BalanceClaim op) =
    fc_assert (bc_fee op = mk_asset 0 0) (fc_assert (balance_owner_key op \<noteq> 0) (Inr ()))"
| "op_validate early (AssertOp op) = assert_validate early op"
| "op_validate early (Custom op) = fc_assert (amount (cs_fee op) > 0) (Inr ())"

text \<open>The market fee options that validation lets through are what trading needs; unsigned fields are not negative.\<close>

lemma asset_options_validate_fees:
  "asset_options_validate ao = Inr u \<Longrightarrow> market_fee_percent ao \<le> 10000 \<and> 0 \<le> max_market_fee ao"
  by (simp add: asset_options_validate_def)

end
