(* ===== verification/Evaluators.thy ===== *)
theory Evaluators
  imports Operations
begin

text \<open>How operations are evaluated: \<open>evaluator.hpp\<close> and \<open>evaluator.cpp\<close> (the fee framework around every evaluator) and
  the evaluators of \<open>transfer_evaluator.cpp\<close>, \<open>market_evaluator.cpp\<close>, \<open>asset_evaluator.cpp\<close> and
  \<open>vesting_balance_evaluator.cpp\<close>.

  An evaluator object lives for one operation. Its pointer members are references to database objects, which the model
  reads again by their instance number where the code dereferences them; its other members (\<open>core_fee_paid\<close>,
  \<open>_deferred_fee\<close>) are passed from \<open>do_evaluate\<close> to \<open>do_apply\<close>. The fee schedule's answer is an argument.\<close>

section \<open>The fee framework\<close>

record transaction_evaluation_state =
  skip_fee :: bool
  skip_fee_schedule_check :: bool
  is_proposed_trx :: bool

datatype operation_result = VoidResult | ObjectResult nat | AssetResult asset

definition prepare_fee :: "nat \<Rightarrow> asset \<Rightarrow> chain_state \<Rightarrow> int res" where
  "prepare_fee account fee st =
    fc_assert (amount fee \<ge> 0)
    (rbind (lookup (accounts st) account) (\<lambda>acct. rbind (lookup (statistics st) account) (\<lambda>_.
    rbind (lookup (assets st) (asset_id fee)) (\<lambda>fee_asset. rbind (lookup (dyn_data st) (asset_id fee)) (\<lambda>dyn.
    fc_assert (after_hardfork 419 st \<longrightarrow> is_authorized_asset st acct (asset_id fee) fee_asset)
    (if asset_id fee = 0 then Inr (amount fee)
     else rbind (asset_mul fee (opt_core_exchange_rate (options fee_asset))) (\<lambda>fee_from_pool.
       fc_assert (asset_id fee_from_pool = 0)
       (fc_assert (amount fee_from_pool \<le> fee_pool dyn) (Inr (amount fee_from_pool))))))))))"

definition convert_fee :: "transaction_evaluation_state \<Rightarrow> asset \<Rightarrow> int \<Rightarrow> chain_state \<Rightarrow> chain_state res" where
  "convert_fee es fee core_fee_paid st =
    (if \<not> skip_fee es \<and> asset_id fee \<noteq> 0 then
       modify_dyn (asset_id fee) (\<lambda>d.
         rbind (safe_add (accumulated_fees d) (amount fee)) (\<lambda>a.
         rbind (safe_sub (fee_pool d) core_fee_paid) (\<lambda>p.
         Inr (d\<lparr>accumulated_fees := a, fee_pool := p\<rparr>)))) st
     else Inr st)"

text \<open>\<open>pay_fee\<close> returns the deferred fee, which is zero here and changed by the limit order evaluator.\<close>

definition pay_fee :: "transaction_evaluation_state \<Rightarrow> nat \<Rightarrow> int \<Rightarrow> chain_state \<Rightarrow> (int \<times> chain_state) res" where
  "pay_fee es account core_fee_paid st =
    (if skip_fee es then Inr (0, st)
     else rbind (modify_stats account (stats_pay_fee core_fee_paid (cashback_vesting_threshold (params st))) st)
       (\<lambda>st. Inr (0, st)))"

definition limit_order_pay_fee :: "transaction_evaluation_state \<Rightarrow> nat \<Rightarrow> int \<Rightarrow> chain_state \<Rightarrow> (int \<times> chain_state) res" where
  "limit_order_pay_fee es account core_fee_paid st =
    (if \<not> after_hardfork 445 st then pay_fee es account core_fee_paid st else Inr (core_fee_paid, st))"

text \<open>\<open>evaluator<T>::evaluate\<close> followed by \<open>evaluator<T>::apply\<close>, as \<open>start_evaluate\<close> runs them.\<close>

definition start_evaluate :: "transaction_evaluation_state \<Rightarrow> int res \<Rightarrow> nat \<Rightarrow> asset \<Rightarrow>
    (int \<Rightarrow> chain_state \<Rightarrow> int res) \<Rightarrow>
    (transaction_evaluation_state \<Rightarrow> nat \<Rightarrow> int \<Rightarrow> chain_state \<Rightarrow> (int \<times> chain_state) res) \<Rightarrow>
    (int \<Rightarrow> int \<Rightarrow> chain_state \<Rightarrow> (operation_result \<times> chain_state) res) \<Rightarrow>
    chain_state \<Rightarrow> (operation_result \<times> chain_state) res" where
  "start_evaluate es required_fee account fee do_evaluate pay do_apply st =
    rbind (prepare_fee account fee st) (\<lambda>core_fee_paid.
    rbind (if skip_fee_schedule_check es then Inr ()
           else rbind required_fee (\<lambda>r. rassert (core_fee_paid \<ge> r) InsufficientFee (Inr ()))) (\<lambda>_.
    rbind (do_evaluate core_fee_paid st) (\<lambda>core_fee_paid.
    rbind (convert_fee es fee core_fee_paid st) (\<lambda>st.
    rbind (pay es account core_fee_paid st) (\<lambda>(deferred_fee, st).
    rbind (do_apply core_fee_paid deferred_fee st) (\<lambda>(result, st).
    rbind (asset_neg fee) (\<lambda>charge.
    rbind (adjust_balance account charge st) (\<lambda>st. Inr (result, st)))))))))"

section \<open>Transfers\<close>

definition transfer_evaluate :: "transfer_operation \<Rightarrow> chain_state \<Rightarrow> unit res" where
  "transfer_evaluate op st =
    rbind (lookup (accounts st) (tr_from op)) (\<lambda>from. rbind (lookup (accounts st) (tr_to op)) (\<lambda>to.
    rbind (lookup (assets st) (asset_id (tr_amount op))) (\<lambda>a.
    rassert (is_authorized_asset st from (asset_id (tr_amount op)) a) OtherError
    (rassert (is_authorized_asset st to (asset_id (tr_amount op)) a) OtherError
    (rassert (is_transfer_restricted a \<longrightarrow> tr_from op = issuer a \<or> tr_to op = issuer a) OtherError
    (fc_assert (amount (get_balance st (tr_from op) (asset_id (tr_amount op))) \<ge> amount (tr_amount op)) (Inr ())))))))"

definition move_balance :: "nat \<Rightarrow> nat \<Rightarrow> asset \<Rightarrow> chain_state \<Rightarrow> chain_state res" where
  "move_balance from to a st =
    rbind (asset_neg a) (\<lambda>n. rbind (adjust_balance from n st) (adjust_balance to a))"

definition transfer_apply :: "transfer_operation \<Rightarrow> chain_state \<Rightarrow> chain_state res" where
  "transfer_apply op st = move_balance (tr_from op) (tr_to op) (tr_amount op) st"

definition override_transfer_evaluate :: "override_transfer_operation \<Rightarrow> chain_state \<Rightarrow> unit res" where
  "override_transfer_evaluate op st =
    rbind (lookup (assets st) (asset_id (ot_amount op))) (\<lambda>a.
    rassert (can_override a) OtherError
    (fc_assert (issuer a = ot_issuer op)
    (rbind (lookup (accounts st) (ot_from op)) (\<lambda>from. rbind (lookup (accounts st) (ot_to op)) (\<lambda>to.
    fc_assert (is_authorized_asset st to (asset_id (ot_amount op)) a)
    (fc_assert (is_authorized_asset st from (asset_id (ot_amount op)) a)
    (fc_assert (\<not> after_hardfork 419 st \<longrightarrow> is_authorized_asset st from (asset_id (ot_amount op)) a)
    (fc_assert (amount (get_balance st (ot_from op) (asset_id (ot_amount op))) \<ge> amount (ot_amount op)) (Inr ())))))))))"

definition override_transfer_apply :: "override_transfer_operation \<Rightarrow> chain_state \<Rightarrow> chain_state res" where
  "override_transfer_apply op st = move_balance (ot_from op) (ot_to op) (ot_amount op) st"

section \<open>Orders\<close>

definition limit_order_create_evaluate :: "limit_order_create_operation \<Rightarrow> chain_state \<Rightarrow> unit res" where
  "limit_order_create_evaluate op st =
    (let sell_id = asset_id (amount_to_sell op); receive_id = asset_id (min_to_receive op) in
    fc_assert (lc_expiration op \<ge> head_block_time st)
    (rbind (lookup (accounts st) (lc_seller op)) (\<lambda>seller.
    rbind (lookup (assets st) sell_id) (\<lambda>sell. rbind (lookup (assets st) receive_id) (\<lambda>receive.
    fc_assert (whitelist_markets (options sell) \<noteq> [] \<longrightarrow> receive_id \<in> set (whitelist_markets (options sell)))
    (fc_assert (blacklist_markets (options sell) \<noteq> [] \<longrightarrow> receive_id \<notin> set (blacklist_markets (options sell)))
    (fc_assert (is_authorized_asset st seller sell_id sell) (fc_assert (is_authorized_asset st seller receive_id receive)
    (rbind (asset_ge (get_balance st (lc_seller op) sell_id) (amount_to_sell op)) (\<lambda>enough.
    fc_assert enough (Inr ())))))))))))"

definition limit_order_create_apply :: "limit_order_create_operation \<Rightarrow> int \<Rightarrow> chain_state \<Rightarrow> (nat \<times> chain_state) res" where
  "limit_order_create_apply op deferred st =
    rbind (modify_stats (lc_seller op) (\<lambda>s.
      if asset_id (amount_to_sell op) = 0
      then rbind (safe_add (total_core_in_orders s) (amount (amount_to_sell op))) (\<lambda>t. Inr (s\<lparr>total_core_in_orders := t\<rparr>))
      else Inr s) st) (\<lambda>st.
    rbind (asset_neg (amount_to_sell op)) (\<lambda>n.
    rbind (adjust_balance (lc_seller op) n st) (\<lambda>st.
    rbind (asset_div (amount_to_sell op) (min_to_receive op)) (\<lambda>p.
    let i = next_limit_order st;
        st = st\<lparr>limit_orders := fmupd i \<lparr>lo_expiration = lc_expiration op, lo_seller = lc_seller op,
                for_sale = amount (amount_to_sell op), sell_price = p, deferred_fee = deferred\<rparr> (limit_orders st),
              next_limit_order := i + 1\<rparr> in
    rbind (apply_order i True st) (\<lambda>(filled, st).
    fc_assert (\<not> fill_or_kill op \<or> filled) (Inr (i, st)))))))"

definition limit_order_cancel_evaluate :: "limit_order_cancel_operation \<Rightarrow> chain_state \<Rightarrow> unit res" where
  "limit_order_cancel_evaluate op st =
    rbind (lookup (limit_orders st) (lx_order op)) (\<lambda>l. fc_assert (lo_seller l = fee_paying_account op) (Inr ()))"

definition limit_order_cancel_apply :: "limit_order_cancel_operation \<Rightarrow> chain_state \<Rightarrow> (asset \<times> chain_state) res" where
  "limit_order_cancel_apply op st =
    rbind (deref (limit_orders st) (lx_order op)) (\<lambda>l.
    rbind (cancel_limit_order (lx_order op) False st) (\<lambda>st.
    rbind (lookup (assets st) (asset_id (base (sell_price l)))) (\<lambda>_.
    rbind (check_call_orders (asset_id (base (sell_price l))) True st) (\<lambda>(_, st).
    rbind (lookup (assets st) (asset_id (quote (sell_price l)))) (\<lambda>_.
    rbind (check_call_orders (asset_id (quote (sell_price l))) True st) (\<lambda>(_, st).
    Inr (amount_for_sale l, st)))))))"

definition call_order_update_evaluate :: "call_order_update_operation \<Rightarrow> chain_state \<Rightarrow> unit res" where
  "call_order_update_evaluate op st =
    rbind (lookup (accounts st) (funding_account op)) (\<lambda>_.
    rbind (lookup (assets st) (asset_id (delta_debt op))) (\<lambda>a.
    fc_assert (is_market_issued a)
    (rbind (lookup (bitassets st) (asset_id (delta_debt op))) (\<lambda>b.
    fc_assert (\<not> has_settlement b)
    (fc_assert (asset_id (delta_collateral op) = short_backing_asset (bit_options b))
    (rbind (if is_prediction_market b then fc_assert (amount (delta_collateral op) = amount (delta_debt op)) (Inr ())
            else rassert (\<not> price_is_null (settlement_price (current_feed b))) OtherError (Inr ())) (\<lambda>_.
    rbind (if amount (delta_debt op) < 0
           then rbind (asset_ge (get_balance st (funding_account op) (asset_id (delta_debt op))) (delta_debt op)) (\<lambda>ok.
             fc_assert ok (Inr ())) else Inr ()) (\<lambda>_.
    if amount (delta_collateral op) > 0
    then rbind (lookup (assets st) (short_backing_asset (bit_options b))) (\<lambda>_.
      rbind (asset_ge (get_balance st (funding_account op) (short_backing_asset (bit_options b))) (delta_collateral op)) (\<lambda>ok.
      fc_assert ok (Inr ())))
    else Inr ())))))))) "

definition find_call_order :: "nat \<Rightarrow> nat \<Rightarrow> chain_state \<Rightarrow> (nat \<times> call_order_object) option" where
  "find_call_order acct debt_type st =
    find (\<lambda>(_, c). borrower c = acct \<and> asset_id (get_debt c) = debt_type) (entries (call_orders st))"

text \<open>The part of \<open>do_apply\<close> that moves the two balances, and the part that changes the position.\<close>

definition call_order_take :: "call_order_update_operation \<Rightarrow> chain_state \<Rightarrow> chain_state res" where
  "call_order_take op st =
    rbind (if amount (delta_debt op) \<noteq> 0
      then rbind (adjust_balance (funding_account op) (delta_debt op) st) (\<lambda>st.
        modify_dyn (asset_id (delta_debt op)) (\<lambda>d. rbind (safe_add (current_supply d) (amount (delta_debt op)))
          (\<lambda>s. Inr (d\<lparr>current_supply := s\<rparr>))) st)
      else Inr st) (\<lambda>st.
    if amount (delta_collateral op) \<noteq> 0
    then rbind (asset_neg (delta_collateral op)) (\<lambda>n. rbind (adjust_balance (funding_account op) n st) (\<lambda>st.
      if asset_id (delta_collateral op) = 0
      then modify_stats (funding_account op) (\<lambda>s. rbind (safe_add (total_core_in_orders s) (amount (delta_collateral op)))
        (\<lambda>t. Inr (s\<lparr>total_core_in_orders := t\<rparr>))) st
      else Inr st))
    else Inr st)"

definition call_order_put :: "call_order_update_operation \<Rightarrow> int \<Rightarrow> chain_state \<Rightarrow> (nat \<times> chain_state) res" where
  "call_order_put op mcr st = (case find_call_order (funding_account op) (asset_id (delta_debt op)) st of
     None \<Rightarrow>
       fc_assert (amount (delta_collateral op) > 0) (fc_assert (amount (delta_debt op) > 0)
       (rbind (call_price (delta_debt op) (delta_collateral op) mcr) (\<lambda>p.
       Inr (next_call_order st, st\<lparr>call_orders := fmupd (next_call_order st)
           \<lparr>borrower = funding_account op, collateral = amount (delta_collateral op), debt = amount (delta_debt op),
            co_call_price = p\<rparr> (call_orders st), next_call_order := next_call_order st + 1\<rparr>))))
   | Some (i, c) \<Rightarrow>
       rbind (safe_add (collateral c) (amount (delta_collateral op))) (\<lambda>coll.
       rbind (safe_add (debt c) (amount (delta_debt op))) (\<lambda>d.
       let c = c\<lparr>collateral := coll, debt := d\<rparr> in
       rbind (if d > 0 then rbind (call_price (get_debt c) (get_collateral c) mcr) (\<lambda>p. Inr (c\<lparr>co_call_price := p\<rparr>))
              else Inr c) (\<lambda>c.
       Inr (i, st\<lparr>call_orders := fmupd i c (call_orders st)\<rparr>)))))"

definition call_order_update_apply :: "call_order_update_operation \<Rightarrow> chain_state \<Rightarrow> chain_state res" where
  "call_order_update_apply op st =
    rbind (call_order_take op st) (\<lambda>st.
    rbind (lookup (bitassets st) (asset_id (delta_debt op))) (\<lambda>b.
    rbind (call_order_put op (maintenance_collateral_ratio (current_feed b)) st) (\<lambda>(i, st).
    rbind (deref (call_orders st) i) (\<lambda>c.
    if debt c = 0 then fc_assert (collateral c = 0) (Inr (st\<lparr>call_orders := fmdrop i (call_orders st)\<rparr>))
    else fc_assert (collateral c > 0 \<and> debt c > 0)
      (if is_prediction_market b then Inr st
       else rbind (check_call_orders (asset_id (delta_debt op)) False st) (\<lambda>(called, st).
         if called then rassert (fmlookup (call_orders st) i = None) OtherError (Inr st)
         else rbind (lookup (call_orders st) i) (\<lambda>c.
           rbind (lookup (bitassets st) (asset_id (delta_debt op))) (\<lambda>b.
           rassert (price_lt (price_inv (co_call_price c)) (settlement_price (current_feed b))) OtherError (Inr st)))))))))"

end
