(* ===== verification/Asset_Evaluators.thy ===== *)
theory Asset_Evaluators
  imports Evaluators
begin

text \<open>The evaluators of \<open>asset_evaluator.cpp\<close> and \<open>vesting_balance_evaluator.cpp\<close>.\<close>

section \<open>Creating assets\<close>

definition find_symbol :: "string \<Rightarrow> chain_state \<Rightarrow> asset_object option" where
  "find_symbol s st = map_option snd (find (\<lambda>(_, a). asset_symbol a = s) (entries (assets st)))"

definition before_first_dot :: "string \<Rightarrow> string option" where
  "before_first_dot s = (if CHR ''.'' \<in> set s then Some (takeWhile (\<lambda>c. c \<noteq> CHR ''.'') s) else None)"

definition before_last_dot :: "string \<Rightarrow> string option" where
  "before_last_dot s = (if CHR ''.'' \<in> set s
     then Some (rev (tl (dropWhile (\<lambda>c. c \<noteq> CHR ''.'') (rev s)))) else None)"

definition all_accounts_exist :: "nat list \<Rightarrow> chain_state \<Rightarrow> unit res" where
  "all_accounts_exist ids st = rfold (\<lambda>i _. rbind (lookup (accounts st) i) (\<lambda>_. Inr ())) ids ()"

text \<open>Who may register a sub-asset. Before hardfork 409 the lookup is with the whole symbol, not the prefix.\<close>

definition check_symbol_issuer :: "asset_create_operation \<Rightarrow> chain_state \<Rightarrow> unit res" where
  "check_symbol_issuer op st =
    (if after_hardfork 385 st then
       if \<not> after_hardfork 409 st then
         (case before_first_dot (symbol op) of None \<Rightarrow> Inr ()
          | Some prefix \<Rightarrow> rbind (from_option AssertFail (find_symbol (symbol op) st)) (\<lambda>a.
              fc_assert (issuer a = ac_issuer op) (Inr ())))
       else
         (case before_last_dot (symbol op) of None \<Rightarrow> Inr ()
          | Some prefix \<Rightarrow> rbind (from_option AssertFail (find_symbol prefix st)) (\<lambda>a.
              fc_assert (issuer a = ac_issuer op) (Inr ())))
     else Inr ())"

definition check_new_bitasset :: "asset_create_operation \<Rightarrow> bitasset_options \<Rightarrow> chain_state \<Rightarrow> unit res" where
  "check_new_bitasset op bo st =
    rbind (lookup (assets st) (short_backing_asset bo)) (\<lambda>backing.
    rbind (if is_market_issued backing then
        rbind (lookup (bitassets st) (short_backing_asset bo)) (\<lambda>bb.
        rbind (lookup (assets st) (short_backing_asset (bit_options bb))) (\<lambda>backing_backing.
        fc_assert (\<not> is_market_issued backing_backing)
        (fc_assert (ac_issuer op \<noteq> COMMITTEE_ACCOUNT \<or> short_backing_asset (bit_options bb) = 0) (Inr ()))))
      else fc_assert (ac_issuer op \<noteq> COMMITTEE_ACCOUNT \<or> short_backing_asset bo = 0) (Inr ())) (\<lambda>_.
    fc_assert (feed_lifetime_sec bo > block_interval (params st) \<and>
               force_settlement_delay_sec bo > block_interval (params st)) (Inr ())))"

text \<open>\<open>do_evaluate\<close> halves \<open>core_fee_paid\<close>, rounding up; the half that is left is paid as fee and funds the fee pool.\<close>

definition asset_create_evaluate :: "asset_create_operation \<Rightarrow> int \<Rightarrow> chain_state \<Rightarrow> int res" where
  "asset_create_evaluate op core_fee_paid st =
    fc_assert (int (length (whitelist_authorities (common_options op))) \<le> maximum_asset_whitelist_authorities (params st))
    (fc_assert (int (length (blacklist_authorities (common_options op))) \<le> maximum_asset_whitelist_authorities (params st))
    (rbind (all_accounts_exist (whitelist_authorities (common_options op)) st) (\<lambda>_.
    rbind (all_accounts_exist (blacklist_authorities (common_options op)) st) (\<lambda>_.
    fc_assert (find_symbol (symbol op) st = None)
    (rbind (check_symbol_issuer op st) (\<lambda>_.
    rbind (safe_sub core_fee_paid (core_fee_paid div 2)) (\<lambda>core_fee_paid.
    rbind (case bitasset_opts op of None \<Rightarrow> Inr () | Some bo \<Rightarrow> check_new_bitasset op bo st) (\<lambda>_.
    rbind (if ac_prediction_market op then
        rbind (from_option AssertFail (bitasset_opts op)) (\<lambda>bo.
        rbind (lookup (assets st) (short_backing_asset bo)) (\<lambda>backing.
        fc_assert (precision op = asset_precision backing) (Inr ()))) else Inr ()) (\<lambda>_.
    Inr core_fee_paid)))))))))"

definition asset_create_apply :: "asset_create_operation \<Rightarrow> int \<Rightarrow> chain_state \<Rightarrow> (nat \<times> chain_state) res" where
  "asset_create_apply op core_fee_paid st =
    (let i = next_asset st;
         cer = opt_core_exchange_rate (common_options op);
         cer = (if asset_id (base cer) = 0 then cer\<lparr>quote := (quote cer)\<lparr>asset_id := i\<rparr>\<rparr>
                else cer\<lparr>base := (base cer)\<lparr>asset_id := i\<rparr>\<rparr>) in
    Inr (i, st\<lparr>assets := fmupd i \<lparr>asset_symbol = symbol op, asset_precision = precision op, issuer = ac_issuer op,
             options = (common_options op)\<lparr>opt_core_exchange_rate := cer\<rparr>,
             is_market_issued = (bitasset_opts op \<noteq> None), buyback_account = None\<rparr> (assets st),
          dyn_data := fmupd i \<lparr>current_supply = 0, confidential_supply = 0, accumulated_fees = 0,
             fee_pool = core_fee_paid\<rparr> (dyn_data st),
          bitassets := (case bitasset_opts op of None \<Rightarrow> bitassets st | Some bo \<Rightarrow> fmupd i
             \<lparr>bit_options = bo, feeds = [], current_feed = null_feed, current_feed_publication_time = 0,
              is_prediction_market = ac_prediction_market op, force_settled_volume = 0,
              bit_settlement_price = null_price, settlement_fund = 0\<rparr> (bitassets st)),
          next_asset := i + 1\<rparr>))"

section \<open>Issuing, reserving, funding and claiming\<close>

definition asset_issue_evaluate :: "asset_issue_operation \<Rightarrow> chain_state \<Rightarrow> unit res" where
  "asset_issue_evaluate op st =
    rbind (lookup (assets st) (asset_id (asset_to_issue op))) (\<lambda>a.
    fc_assert (ai_issuer op = issuer a) (fc_assert (\<not> is_market_issued a)
    (rbind (lookup (accounts st) (issue_to_account op)) (\<lambda>to.
    fc_assert (is_authorized_asset st to (asset_id (asset_to_issue op)) a)
    (rbind (lookup (dyn_data st) (asset_id (asset_to_issue op))) (\<lambda>d.
    rbind (safe_add (current_supply d) (amount (asset_to_issue op))) (\<lambda>s.
    fc_assert (s \<le> max_supply (options a)) (Inr ()))))))))"

definition asset_issue_apply :: "asset_issue_operation \<Rightarrow> chain_state \<Rightarrow> chain_state res" where
  "asset_issue_apply op st =
    rbind (adjust_balance (issue_to_account op) (asset_to_issue op) st)
    (modify_dyn (asset_id (asset_to_issue op)) (\<lambda>d. rbind (safe_add (current_supply d) (amount (asset_to_issue op)))
      (\<lambda>s. Inr (d\<lparr>current_supply := s\<rparr>))))"

definition asset_reserve_evaluate :: "asset_reserve_operation \<Rightarrow> chain_state \<Rightarrow> unit res" where
  "asset_reserve_evaluate op st =
    rbind (lookup (assets st) (asset_id (amount_to_reserve op))) (\<lambda>a.
    rassert (\<not> is_market_issued a) OtherError
    (rbind (lookup (accounts st) (payer op)) (\<lambda>from.
    fc_assert (is_authorized_asset st from (asset_id (amount_to_reserve op)) a)
    (rbind (lookup (dyn_data st) (asset_id (amount_to_reserve op))) (\<lambda>d.
    rbind (safe_sub (current_supply d) (amount (amount_to_reserve op))) (\<lambda>s.
    fc_assert (s \<ge> 0) (Inr ())))))))"

definition asset_reserve_apply :: "asset_reserve_operation \<Rightarrow> chain_state \<Rightarrow> chain_state res" where
  "asset_reserve_apply op st =
    rbind (asset_neg (amount_to_reserve op)) (\<lambda>n.
    rbind (adjust_balance (payer op) n st)
    (modify_dyn (asset_id (amount_to_reserve op)) (\<lambda>d. rbind (safe_sub (current_supply d) (amount (amount_to_reserve op)))
      (\<lambda>s. Inr (d\<lparr>current_supply := s\<rparr>)))))"

definition asset_fund_fee_pool_evaluate :: "asset_fund_fee_pool_operation \<Rightarrow> chain_state \<Rightarrow> unit res" where
  "asset_fund_fee_pool_evaluate op st =
    rbind (lookup (assets st) (ff_asset op)) (\<lambda>_. rbind (lookup (dyn_data st) (ff_asset op)) (\<lambda>_. Inr ()))"

definition asset_fund_fee_pool_apply :: "asset_fund_fee_pool_operation \<Rightarrow> chain_state \<Rightarrow> chain_state res" where
  "asset_fund_fee_pool_apply op st =
    rbind (safe_neg (ff_amount op)) (\<lambda>n.
    rbind (adjust_balance (from_account op) (mk_asset n 0) st)
    (modify_dyn (ff_asset op) (\<lambda>d. rbind (safe_add (fee_pool d) (ff_amount op)) (\<lambda>p. Inr (d\<lparr>fee_pool := p\<rparr>)))))"

definition asset_claim_fees_evaluate :: "asset_claim_fees_operation \<Rightarrow> chain_state \<Rightarrow> unit res" where
  "asset_claim_fees_evaluate op st =
    fc_assert (after_hardfork 413 st)
    (rbind (lookup (assets st) (asset_id (amount_to_claim op))) (\<lambda>a. fc_assert (issuer a = cf_issuer op) (Inr ())))"

definition asset_claim_fees_apply :: "asset_claim_fees_operation \<Rightarrow> chain_state \<Rightarrow> chain_state res" where
  "asset_claim_fees_apply op st =
    rbind (lookup (assets st) (asset_id (amount_to_claim op))) (\<lambda>_.
    rbind (lookup (dyn_data st) (asset_id (amount_to_claim op))) (\<lambda>d.
    fc_assert (amount (amount_to_claim op) \<le> accumulated_fees d)
    (rbind (modify_dyn (asset_id (amount_to_claim op)) (\<lambda>d.
       rbind (safe_sub (accumulated_fees d) (amount (amount_to_claim op))) (\<lambda>f. Inr (d\<lparr>accumulated_fees := f\<rparr>))) st)
    (adjust_balance (cf_issuer op) (amount_to_claim op)))))"

section \<open>Updating assets\<close>

definition check_committee_backing :: "nat \<Rightarrow> chain_state \<Rightarrow> unit res" where
  "check_committee_backing i st =
    rbind (lookup (bitassets st) i) (\<lambda>b.
    let backing_id = short_backing_asset (bit_options b) in
    rbind (lookup (assets st) backing_id) (\<lambda>backing.
    if is_market_issued backing then
      rbind (lookup (bitassets st) backing_id) (\<lambda>bb.
      rbind (lookup (assets st) (short_backing_asset (bit_options bb))) (\<lambda>_.
      fc_assert (short_backing_asset (bit_options bb) = 0) (Inr ())))
    else fc_assert (backing_id = 0) (Inr ())))"

definition asset_update_evaluate :: "asset_update_operation \<Rightarrow> chain_state \<Rightarrow> unit res" where
  "asset_update_evaluate op st =
    rbind (lookup (assets st) (asset_to_update op)) (\<lambda>a.
    rbind (asset_object_validate (a\<lparr>options := new_options op\<rparr>)) (\<lambda>_.
    rbind (case new_issuer op of None \<Rightarrow> Inr () | Some i \<Rightarrow>
        fc_assert (fmlookup (accounts st) i \<noteq> None)
        (if is_market_issued a \<and> i = COMMITTEE_ACCOUNT then check_committee_backing (asset_to_update op) st else Inr ())) (\<lambda>_.
    rbind (if head_block_time st < hardfork_time st 572 then Inr True
           else rbind (lookup (dyn_data st) (asset_to_update op)) (\<lambda>d. Inr (current_supply d \<noteq> 0))) (\<lambda>restricted.
    fc_assert (restricted \<longrightarrow> issuer_permissions (new_options op) AND NOT (issuer_permissions (options a)) = 0)
    (fc_assert ((asset_flags (new_options op) XOR asset_flags (options a)) AND NOT (issuer_permissions (options a)) = 0)
    (fc_assert (au_issuer op = issuer a)
    (fc_assert (int (length (whitelist_authorities (new_options op))) \<le> maximum_asset_whitelist_authorities (params st))
    (rbind (all_accounts_exist (whitelist_authorities (new_options op)) st) (\<lambda>_.
    fc_assert (int (length (blacklist_authorities (new_options op))) \<le> maximum_asset_whitelist_authorities (params st))
    (all_accounts_exist (blacklist_authorities (new_options op)) st))))))))))"

text \<open>\<open>by_expiration\<close> of the force settlements: by asset, date and number.\<close>

definition settlement_before :: "nat \<times> force_settlement_object \<Rightarrow> nat \<times> force_settlement_object \<Rightarrow> bool" where
  "settlement_before x y \<longleftrightarrow>
    (let a = asset_id (fs_balance (snd x)); b = asset_id (fs_balance (snd y)) in
     a < b \<or> a = b \<and> (settlement_date (snd x) < settlement_date (snd y) \<or>
       settlement_date (snd x) = settlement_date (snd y) \<and> fst x < fst y))"

definition settlements_of :: "nat \<Rightarrow> chain_state \<Rightarrow> nat list" where
  "settlements_of i st = map fst (filter (\<lambda>x. asset_id (fs_balance (snd x)) = i)
     (sort_by settlement_before (entries (settlements st))))"

definition asset_update_apply :: "asset_update_operation \<Rightarrow> chain_state \<Rightarrow> chain_state res" where
  "asset_update_apply op st =
    rbind (lookup (assets st) (asset_to_update op)) (\<lambda>a.
    rbind (if asset_flags (new_options op) AND disable_force_settle \<noteq> 0 \<and> can_force_settle a
           then rfold (\<lambda>i. cancel_settle_order i True) (settlements_of (asset_to_update op) st) st
           else Inr st) (\<lambda>st.
    modify_asset (asset_to_update op) (\<lambda>a. a\<lparr>issuer := (case new_issuer op of None \<Rightarrow> issuer a | Some i \<Rightarrow> i),
      options := new_options op\<rparr>) st))"

definition asset_update_bitasset_evaluate :: "asset_update_bitasset_operation \<Rightarrow> chain_state \<Rightarrow> unit res" where
  "asset_update_bitasset_evaluate op st =
    rbind (lookup (assets st) (ab_asset op)) (\<lambda>a.
    fc_assert (is_market_issued a)
    (rbind (lookup (bitassets st) (ab_asset op)) (\<lambda>b.
    fc_assert (\<not> has_settlement b)
    (rbind (if short_backing_asset (ab_options op) \<noteq> short_backing_asset (bit_options b) then
        rbind (lookup (dyn_data st) (ab_asset op)) (\<lambda>d.
        fc_assert (current_supply d = 0)
        (fc_assert (fmlookup (assets st) (short_backing_asset (ab_options op)) \<noteq> None)
        (if issuer a = COMMITTEE_ACCOUNT then check_committee_backing (ab_asset op) st else Inr ())))
      else Inr ()) (\<lambda>_.
    fc_assert (ab_issuer op = issuer a) (Inr ()))))))"

definition asset_update_bitasset_apply :: "asset_update_bitasset_operation \<Rightarrow> chain_state \<Rightarrow> chain_state res" where
  "asset_update_bitasset_apply op st =
    modify_bitasset (ab_asset op) (\<lambda>b.
      if minimum_feeds (ab_options op) \<noteq> minimum_feeds (bit_options b)
      then update_median_feeds (head_block_time st) (b\<lparr>bit_options := ab_options op\<rparr>)
      else Inr (b\<lparr>bit_options := ab_options op\<rparr>)) st"

section \<open>Feeds\<close>

definition asset_update_feed_producers_evaluate :: "asset_update_feed_producers_operation \<Rightarrow> chain_state \<Rightarrow> unit res" where
  "asset_update_feed_producers_evaluate op st =
    fc_assert (int (length (new_feed_producers op)) \<le> maximum_asset_feed_publishers (params st))
    (rbind (all_accounts_exist (new_feed_producers op) st) (\<lambda>_.
    rbind (lookup (assets st) (af_asset op)) (\<lambda>a.
    fc_assert (is_market_issued a)
    (fc_assert (asset_flags (options a) AND committee_fed_asset = 0)
    (fc_assert (asset_flags (options a) AND witness_fed_asset = 0)
    (rbind (lookup (bitassets st) (af_asset op)) (\<lambda>_. fc_assert (issuer a = af_issuer op) (Inr ()))))))))"

definition keep_feeds :: "nat list \<Rightarrow> (nat \<times> int \<times> price_feed) list \<Rightarrow> (nat \<times> int \<times> price_feed) list" where
  "keep_feeds producers fs =
    fold (\<lambda>i fs. if i \<in> set (map fst fs) then fs else flat_put i (0, null_feed) fs) producers
      (filter (\<lambda>(i, _). i \<in> set producers) fs)"

definition asset_update_feed_producers_apply :: "asset_update_feed_producers_operation \<Rightarrow> chain_state \<Rightarrow> chain_state res" where
  "asset_update_feed_producers_apply op st =
    rbind (modify_bitasset (af_asset op) (\<lambda>b.
      update_median_feeds (head_block_time st) (b\<lparr>feeds := keep_feeds (new_feed_producers op) (feeds b)\<rparr>)) st) (\<lambda>st.
    rbind (lookup (assets st) (af_asset op)) (\<lambda>_.
    rbind (check_call_orders (af_asset op) True st) (\<lambda>(_, st). Inr st)))"

definition asset_publish_feed_evaluate :: "asset_publish_feed_operation \<Rightarrow> chain_state \<Rightarrow> unit res" where
  "asset_publish_feed_evaluate op st =
    rbind (lookup (assets st) (pf_asset op)) (\<lambda>a.
    fc_assert (is_market_issued a)
    (rbind (lookup (bitassets st) (pf_asset op)) (\<lambda>b.
    fc_assert (\<not> has_settlement b)
    (let sp = settlement_price (feed op); cer = core_exchange_rate (feed op) in
    fc_assert (asset_id (quote sp) = short_backing_asset (bit_options b))
    (fc_assert (if after_hardfork 480 st then \<not> price_is_null cer \<longrightarrow> asset_id (quote cer) = 0
                else \<not> price_is_null sp \<and> \<not> price_is_null cer \<longrightarrow> asset_id (quote sp) = asset_id (quote cer))
    (if asset_flags (options a) AND witness_fed_asset \<noteq> 0 then
       rbind (lookup (accounts st) WITNESS_ACCOUNT) (\<lambda>w.
       fc_assert (publisher op \<in> set (map fst (account_auths (active_auth w)))) (Inr ()))
     else if asset_flags (options a) AND committee_fed_asset \<noteq> 0 then
       rbind (lookup (accounts st) COMMITTEE_ACCOUNT) (\<lambda>c.
       fc_assert (publisher op \<in> set (map fst (account_auths (active_auth c)))) (Inr ()))
     else fc_assert (publisher op \<in> set (map fst (feeds b))) (Inr ())))))))"

definition feed_eq :: "price_feed \<Rightarrow> price_feed \<Rightarrow> bool" where
  "feed_eq a b \<longleftrightarrow> price_eq (settlement_price a) (settlement_price b) \<and>
     maintenance_collateral_ratio a = maintenance_collateral_ratio b \<and>
     maximum_short_squeeze_ratio a = maximum_short_squeeze_ratio b"

definition asset_publish_feed_apply :: "asset_publish_feed_operation \<Rightarrow> chain_state \<Rightarrow> chain_state res" where
  "asset_publish_feed_apply op st =
    rbind (lookup (assets st) (pf_asset op)) (\<lambda>_.
    rbind (lookup (bitassets st) (pf_asset op)) (\<lambda>old.
    rbind (modify_bitasset (pf_asset op) (\<lambda>b. update_median_feeds (head_block_time st)
      (b\<lparr>feeds := flat_put (publisher op) (head_block_time st, feed op) (feeds b)\<rparr>)) st) (\<lambda>st.
    rbind (lookup (bitassets st) (pf_asset op)) (\<lambda>b.
    if feed_eq (current_feed old) (current_feed b) then Inr st
    else rbind (check_call_orders (pf_asset op) True st) (\<lambda>(_, st). Inr st)))))"

section \<open>Settlement\<close>

text \<open>The code takes the element at \<open>lower_bound\<close> without testing that there is one.\<close>

definition asset_global_settle_evaluate :: "asset_global_settle_operation \<Rightarrow> chain_state \<Rightarrow> unit res" where
  "asset_global_settle_evaluate op st =
    rbind (lookup (assets st) (asset_to_settle op)) (\<lambda>a.
    fc_assert (is_market_issued a) (fc_assert (can_global_settle a) (fc_assert (issuer a = ag_issuer op)
    (rbind (lookup (dyn_data st) (asset_to_settle op)) (\<lambda>d.
    fc_assert (current_supply d > 0)
    (rbind (lookup (bitassets st) (asset_to_settle op)) (\<lambda>b.
    rbind (price_min (short_backing_asset (bit_options b)) (asset_to_settle op)) (\<lambda>lo.
    rbind (least_collateralized lo st) (\<lambda>i.
    rbind (deref (call_orders st) i) (\<lambda>c.
    rbind (asset_mul (get_debt c) (settle_price op)) (\<lambda>pays.
    rbind (asset_le pays (get_collateral c)) (\<lambda>ok. fc_assert ok (Inr ())))))))))))))"

definition asset_global_settle_apply :: "asset_global_settle_operation \<Rightarrow> chain_state \<Rightarrow> chain_state res" where
  "asset_global_settle_apply op st =
    rbind (lookup (assets st) (asset_to_settle op)) (\<lambda>_.
    globally_settle_asset (asset_to_settle op) (settle_price op) st)"

definition asset_settle_evaluate :: "asset_settle_operation \<Rightarrow> chain_state \<Rightarrow> unit res" where
  "asset_settle_evaluate op st =
    rbind (lookup (assets st) (asset_id (as_amount op))) (\<lambda>a.
    fc_assert (is_market_issued a)
    (rbind (lookup (bitassets st) (asset_id (as_amount op))) (\<lambda>b.
    fc_assert (can_force_settle a \<or> has_settlement b)
    (rbind (if is_prediction_market b then fc_assert (has_settlement b) (Inr ())
            else rassert (\<not> price_is_null (settlement_price (current_feed b))) OtherError (Inr ())) (\<lambda>_.
    rbind (lookup (accounts st) (as_account op)) (\<lambda>_.
    rbind (asset_ge (get_balance st (as_account op) (asset_id (as_amount op))) (as_amount op)) (\<lambda>ok.
    fc_assert ok (Inr ()))))))))"

definition asset_settle_apply :: "asset_settle_operation \<Rightarrow> chain_state \<Rightarrow> (operation_result \<times> chain_state) res" where
  "asset_settle_apply op st =
    (let mia = asset_id (as_amount op) in
    rbind (asset_neg (as_amount op)) (\<lambda>n.
    rbind (adjust_balance (as_account op) n st) (\<lambda>st.
    rbind (lookup (bitassets st) mia) (\<lambda>b.
    if has_settlement b then
      rbind (asset_mul (as_amount op) (bit_settlement_price b)) (\<lambda>settled.
      fc_assert (amount settled \<le> settlement_fund b)
      (rbind (modify_bitasset mia (\<lambda>b. rbind (safe_sub (settlement_fund b) (amount settled))
                (\<lambda>f. Inr (b\<lparr>settlement_fund := f\<rparr>))) st) (\<lambda>st.
      rbind (adjust_balance (as_account op) settled st) (\<lambda>st.
      rbind (modify_dyn mia (\<lambda>d. rbind (safe_sub (current_supply d) (amount (as_amount op)))
               (\<lambda>s. Inr (d\<lparr>current_supply := s\<rparr>))) st) (\<lambda>st.
      Inr (AssetResult settled, st))))))
    else
      Inr (ObjectResult (next_settlement st), st\<lparr>settlements := fmupd (next_settlement st)
          \<lparr>fs_owner = as_account op, fs_balance = as_amount op,
           settlement_date = (head_block_time st + force_settlement_delay_sec (bit_options b)) mod 2 ^ 32\<rparr> (settlements st),
         next_settlement := next_settlement st + 1\<rparr>)))))"

section \<open>Vesting balances\<close>

definition vesting_create_evaluate :: "vesting_balance_create_operation \<Rightarrow> chain_state \<Rightarrow> unit res" where
  "vesting_create_evaluate op st =
    rbind (lookup (accounts st) (creator op)) (\<lambda>_. rbind (lookup (accounts st) (vc_owner op)) (\<lambda>_.
    fc_assert (amount (vc_amount op) > 0)
    (rbind (asset_ge (get_balance st (creator op) (asset_id (vc_amount op))) (vc_amount op)) (\<lambda>ok. fc_assert ok
    (rbind (lookup (assets st) (asset_id (vc_amount op))) (\<lambda>a. fc_assert (\<not> is_transfer_restricted a) (Inr ())))))))"

fun init_policy :: "vesting_policy_initializer \<Rightarrow> int \<Rightarrow> int \<Rightarrow> vesting_policy" where
  "init_policy (LinearInit begin cliff duration) init_balance now =
    Linear \<lparr>begin_timestamp = begin, vesting_cliff_seconds = cliff, vesting_duration_seconds = duration,
      begin_balance = init_balance\<rparr>"
| "init_policy (CddInit start secs) init_balance now =
    Cdd \<lparr>vesting_seconds = secs, coin_seconds_earned = 0, start_claim = start, coin_seconds_earned_last_update = now\<rparr>"

definition vesting_create_apply :: "vesting_balance_create_operation \<Rightarrow> chain_state \<Rightarrow> (nat \<times> chain_state) res" where
  "vesting_create_apply op st =
    rbind (asset_ge (get_balance st (creator op) (asset_id (vc_amount op))) (vc_amount op)) (\<lambda>ok. fc_assert ok
    (rbind (asset_neg (vc_amount op)) (\<lambda>n.
    rbind (adjust_balance (creator op) n st) (\<lambda>st.
    Inr (next_vesting_balance st, st\<lparr>vesting_balances := fmupd (next_vesting_balance st)
        \<lparr>vb_owner = vc_owner op, vb_balance = vc_amount op,
         vb_policy = init_policy (policy op) (amount (vc_amount op)) (head_block_time st)\<rparr> (vesting_balances st),
       next_vesting_balance := next_vesting_balance st + 1\<rparr>)))))"

definition vesting_withdraw_evaluate :: "vesting_balance_withdraw_operation \<Rightarrow> chain_state \<Rightarrow> unit res" where
  "vesting_withdraw_evaluate op st =
    rbind (lookup (vesting_balances st) (vw_vesting_balance op)) (\<lambda>vb.
    fc_assert (vw_owner op = vb_owner vb)
    (rbind (vb_is_withdraw_allowed vb (head_block_time st) (vw_amount op)) (\<lambda>ok. fc_assert ok
    (rbind (lookup (accounts st) (vw_owner op)) (\<lambda>_. Inr ())))))"

definition vesting_withdraw_apply :: "vesting_balance_withdraw_operation \<Rightarrow> chain_state \<Rightarrow> chain_state res" where
  "vesting_withdraw_apply op st =
    rbind (lookup (vesting_balances st) (vw_vesting_balance op)) (\<lambda>vb.
    rbind (vb_withdraw (head_block_time st) (vw_amount op) vb) (\<lambda>vb.
    adjust_balance (vw_owner op) (vw_amount op)
      (st\<lparr>vesting_balances := fmupd (vw_vesting_balance op) vb (vesting_balances st)\<rparr>)))"

end
