(* ===== verification/Governance_Evaluators.thy ===== *)
theory Governance_Evaluators
  imports Evaluators
begin

text \<open>The evaluators of \<open>account_evaluator.cpp\<close>, \<open>witness_evaluator.cpp\<close>, \<open>committee_member_evaluator.cpp\<close>,
  \<open>worker_evaluator.cpp\<close>, \<open>withdraw_permission_evaluator.cpp\<close>, \<open>balance_evaluator.cpp\<close> and \<open>assert_evaluator.cpp\<close>, with
  \<open>special_authority.cpp\<close> and \<open>buyback.cpp\<close>.

  Sorted sets are lists kept sorted. Creating an object fails when a unique index already has its key. Names, URLs and
  memo keys of votable objects are not kept.\<close>

section \<open>Accounts\<close>

definition flat_set_insert :: "nat \<Rightarrow> nat list \<Rightarrow> nat list" where
  "flat_set_insert x xs = (if x \<in> set xs then xs else insort x xs)"

definition flat_set_erase :: "nat \<Rightarrow> nat list \<Rightarrow> nat list" where
  "flat_set_erase x xs = filter (\<lambda>y. y \<noteq> x) xs"

definition verify_authority_accounts :: "authority \<Rightarrow> chain_state \<Rightarrow> unit res" where
  "verify_authority_accounts a st =
    rassert (int (num_auths a) \<le> maximum_authority_membership (params st)) OtherError
    (rfold (\<lambda>(i, _) _. rassert (fmlookup (accounts st) i \<noteq> None) OtherError (Inr ())) (account_auths a) ())"

text \<open>A vote id compares as its instance number, in the index of the workers as well.\<close>

definition verify_account_votes :: "account_options \<Rightarrow> chain_state \<Rightarrow> unit res" where
  "verify_account_votes opts st =
    fc_assert (num_witness opts \<le> maximum_witness_count (params st))
    (fc_assert (num_committee opts \<le> maximum_committee_count (params st))
    (fc_assert (list_all (\<lambda>id. vote_instance id < next_available_vote_id st) (votes opts))
    (if list_ex (\<lambda>id. vote_type_get id = Worker) (votes opts) \<and> head_block_time st \<ge> hardfork_time st 607
     then fc_assert (list_all (\<lambda>id. vote_type_get id = Worker \<longrightarrow>
       \<not> list_ex (\<lambda>(_, w). vote_instance (vote_against w) = vote_instance id) (entries (workers st))) (votes opts)) (Inr ())
     else Inr ())))"

fun evaluate_special_authority :: "chain_state \<Rightarrow> special_authority \<Rightarrow> unit res" where
  "evaluate_special_authority st NoSpecialAuthority = Inr ()"
| "evaluate_special_authority st (TopHoldersSpecialAuthority a n) = rbind (lookup (assets st) a) (\<lambda>_. Inr ())"

definition evaluate_buyback_account_options :: "chain_state \<Rightarrow> buyback_account_options \<Rightarrow> unit res" where
  "evaluate_buyback_account_options st bbo =
    fc_assert (head_block_time st \<ge> hardfork_time st 538)
    (rbind (lookup (assets st) (asset_to_buy bbo)) (\<lambda>a.
    rassert (issuer a = asset_to_buy_issuer bbo) OtherError
    (rassert (buyback_account a = None) OtherError
    (rassert (length (bb_markets bbo) < 4) OtherError (Inr ())))))"

definition account_name_taken :: "string \<Rightarrow> chain_state \<Rightarrow> bool" where
  "account_name_taken n st \<longleftrightarrow> list_ex (\<lambda>(_, a). account_name a = n) (entries (accounts st))"

definition account_create_evaluate :: "account_create_operation \<Rightarrow> chain_state \<Rightarrow> unit res" where
  "account_create_evaluate op st =
    fc_assert (head_block_time st < hardfork_time st 516 \<longrightarrow> cr_owner_special op = None \<and> cr_active_special op = None)
    (fc_assert (head_block_time st < hardfork_time st 599 \<longrightarrow> \<not> cr_null_ext op \<and> cr_owner_special op = None \<and>
       cr_active_special op = None \<and> cr_buyback op = None)
    (fc_assert (fmlookup (accounts st) (voting_account (cr_options op)) \<noteq> None)
    (rbind (lookup (accounts st) (cr_registrar op)) (\<lambda>payer. fc_assert (is_lifetime_member payer)
    (rbind (lookup (accounts st) (cr_referrer op)) (\<lambda>ref. fc_assert (is_member ref (head_block_time st))
    (rbind (verify_authority_accounts (cr_owner op) st) (\<lambda>_.
    rbind (verify_authority_accounts (cr_active op) st) (\<lambda>_.
    rbind (if_given (cr_owner_special op) (evaluate_special_authority st)) (\<lambda>_.
    rbind (if_given (cr_active_special op) (evaluate_special_authority st)) (\<lambda>_.
    rbind (if_given (cr_buyback op) (evaluate_buyback_account_options st)) (\<lambda>_.
    rbind (verify_account_votes (cr_options op) st) (\<lambda>_.
    fc_assert (cr_name op \<noteq> [] \<longrightarrow> \<not> account_name_taken (cr_name op) st) (Inr ()))))))))))))))"

definition new_referrer_percent :: "account_create_operation \<Rightarrow> chain_state \<Rightarrow> int" where
  "new_referrer_percent op st =
    (let has_small_percent = (head_block_time st \<le> hardfork_time st 453 \<and> cr_referrer op \<noteq> cr_registrar op \<and>
           referrer_percent op \<noteq> 0 \<and> referrer_percent op \<le> 256) in
     if has_small_percent then min (referrer_percent op * 100 mod 2 ^ 16) 10000 else referrer_percent op)"

definition new_account :: "account_create_operation \<Rightarrow> chain_state \<Rightarrow> account_object \<Rightarrow> account_object" where
  "new_account op st ref =
    \<lparr>account_name = cr_name op, membership_expiration_date = 0, registrar = cr_registrar op, referrer = cr_referrer op,
     lifetime_referrer = lifetime_referrer ref, network_fee_percentage = network_percent_of_fee (params st),
     lifetime_referrer_fee_percentage = lifetime_referrer_percent_of_fee (params st),
     referrer_rewards_percentage = new_referrer_percent op st, owner_auth = cr_owner op, active_auth = cr_active op,
     acct_options = cr_options op, whitelisting_accounts = [], whitelisted_accounts = [], blacklisted_accounts = [],
     blacklisting_accounts = [], cashback_vb = None, top_n_control_flags = 0,
     allowed_assets = (case cr_buyback op of None \<Rightarrow> None
       | Some bb \<Rightarrow> Some (flat_set_insert (asset_to_buy bb) (bb_markets bb))),
     owner_special_authority = (case cr_owner_special op of None \<Rightarrow> NoSpecialAuthority | Some a \<Rightarrow> a),
     active_special_authority = (case cr_active_special op of None \<Rightarrow> NoSpecialAuthority | Some a \<Rightarrow> a)\<rparr>"

text \<open>The counter of registrations, and the fee that is shifted up at every full step of the scale.\<close>

definition count_registration :: "chain_state \<Rightarrow> chain_state res" where
  "count_registration st =
    (let n = accounts_registered_this_interval (dgp st) + 1;
         st = st\<lparr>dgp := (dgp st)\<lparr>accounts_registered_this_interval := n\<rparr>\<rparr> in
     rassert (accounts_per_fee_scale (params st) \<noteq> 0 \<and> account_fee_scale_bitshifts (params st) < 64) UB
     (Inr (if n mod accounts_per_fee_scale (params st) = 0
           then st\<lparr>params := (params st)\<lparr>account_basic_fee :=
             account_basic_fee (params st) * 2 ^ nat (account_fee_scale_bitshifts (params st)) mod 2 ^ 64\<rparr>\<rparr>
           else st)))"

definition account_create_apply :: "account_create_operation \<Rightarrow> chain_state \<Rightarrow> (nat \<times> chain_state) res" where
  "account_create_apply op st =
    (let i = next_account st in
    rbind (lookup (accounts st) (cr_referrer op)) (\<lambda>ref.
    fc_assert (\<not> account_name_taken (cr_name op) st)
    (rbind (count_registration (st\<lparr>accounts := fmupd i (new_account op st ref) (accounts st),
        statistics := fmupd i \<lparr>total_core_in_orders = 0, lifetime_fees_paid = 0, pending_fees = 0, pending_vested_fees = 0\<rparr>
          (statistics st), next_account := i + 1\<rparr>)) (\<lambda>st.
    let st = (if cr_owner_special op \<noteq> None \<or> cr_active_special op \<noteq> None
              then st\<lparr>special_authorities := fmupd (next_special_authority st) i (special_authorities st),
                      next_special_authority := next_special_authority st + 1\<rparr> else st) in
    case cr_buyback op of
      None \<Rightarrow> Inr (i, st)
    | Some bb \<Rightarrow>
        fc_assert (\<not> list_ex (\<lambda>(_, a). a = asset_to_buy bb) (entries (buybacks st)))
        (rbind (modify_asset (asset_to_buy bb) (\<lambda>a. a\<lparr>buyback_account := Some i\<rparr>)
          (st\<lparr>buybacks := fmupd (next_buyback st) (asset_to_buy bb) (buybacks st), next_buyback := next_buyback st + 1\<rparr>))
        (\<lambda>st. Inr (i, st)))))))"

definition account_update_evaluate :: "account_update_operation \<Rightarrow> chain_state \<Rightarrow> unit res" where
  "account_update_evaluate op st =
    fc_assert (head_block_time st < hardfork_time st 516 \<longrightarrow> up_owner_special op = None \<and> up_active_special op = None)
    (fc_assert (head_block_time st < hardfork_time st 599 \<longrightarrow> \<not> up_null_ext op \<and> up_owner_special op = None \<and>
       up_active_special op = None)
    (rbind (if_given (up_owner op) (\<lambda>a. verify_authority_accounts a st)) (\<lambda>_.
    rbind (if_given (up_active op) (\<lambda>a. verify_authority_accounts a st)) (\<lambda>_.
    rbind (if_given (up_owner_special op) (evaluate_special_authority st)) (\<lambda>_.
    rbind (if_given (up_active_special op) (evaluate_special_authority st)) (\<lambda>_.
    rbind (lookup (accounts st) (up_account op)) (\<lambda>_.
    if_given (up_options op) (\<lambda>o'. verify_account_votes o' st))))))))"

definition update_account :: "account_update_operation \<Rightarrow> account_object \<Rightarrow> account_object" where
  "update_account op a =
    (let a = (case up_owner op of None \<Rightarrow> a | Some x \<Rightarrow> a\<lparr>owner_auth := x, top_n_control_flags := 0\<rparr>);
         a = (case up_active op of None \<Rightarrow> a | Some x \<Rightarrow> a\<lparr>active_auth := x, top_n_control_flags := 0\<rparr>);
         a = (case up_options op of None \<Rightarrow> a | Some x \<Rightarrow> a\<lparr>acct_options := x\<rparr>);
         a = (case up_owner_special op of None \<Rightarrow> a | Some x \<Rightarrow> a\<lparr>owner_special_authority := x, top_n_control_flags := 0\<rparr>)
     in case up_active_special op of None \<Rightarrow> a | Some x \<Rightarrow> a\<lparr>active_special_authority := x, top_n_control_flags := 0\<rparr>)"

definition account_update_apply :: "account_update_operation \<Rightarrow> chain_state \<Rightarrow> chain_state res" where
  "account_update_apply op st =
    rbind (lookup (accounts st) (up_account op)) (\<lambda>a.
    rbind (modify_account (up_account op) (update_account op) st) (\<lambda>st.
    let sa_before = has_special_authority a; sa_after = has_special_authority (update_account op a) in
    if sa_before \<and> \<not> sa_after then
      (case find (\<lambda>(_, x). x = up_account op) (entries (special_authorities st)) of
         None \<Rightarrow> Inl UB
       | Some (i, _) \<Rightarrow> Inr (st\<lparr>special_authorities := fmdrop i (special_authorities st)\<rparr>))
    else if \<not> sa_before \<and> sa_after then
      Inr (st\<lparr>special_authorities := fmupd (next_special_authority st) (up_account op) (special_authorities st),
              next_special_authority := next_special_authority st + 1\<rparr>)
    else Inr st))"

definition account_whitelist_evaluate :: "account_whitelist_operation \<Rightarrow> chain_state \<Rightarrow> unit res" where
  "account_whitelist_evaluate op st =
    rbind (lookup (accounts st) (account_to_list op)) (\<lambda>_.
    if allow_non_member_whitelists (params st) then Inr ()
    else rbind (lookup (accounts st) (authorizing_account op)) (\<lambda>a. fc_assert (is_lifetime_member a) (Inr ())))"

definition list_or_unlist :: "bool \<Rightarrow> nat \<Rightarrow> nat list \<Rightarrow> nat list" where
  "list_or_unlist b x xs = (if b then flat_set_insert x xs else flat_set_erase x xs)"

definition account_whitelist_apply :: "account_whitelist_operation \<Rightarrow> chain_state \<Rightarrow> chain_state res" where
  "account_whitelist_apply op st =
    (let white = (new_listing op AND 1 \<noteq> 0); black = (new_listing op AND 2 \<noteq> 0) in
    rbind (modify_account (account_to_list op) (\<lambda>a.
      a\<lparr>whitelisting_accounts := list_or_unlist white (authorizing_account op) (whitelisting_accounts a),
        blacklisting_accounts := list_or_unlist black (authorizing_account op) (blacklisting_accounts a)\<rparr>) st)
    (modify_account (authorizing_account op) (\<lambda>a.
      a\<lparr>whitelisted_accounts := list_or_unlist white (account_to_list op) (whitelisted_accounts a),
        blacklisted_accounts := list_or_unlist black (account_to_list op) (blacklisted_accounts a)\<rparr>)))"

definition account_upgrade_evaluate :: "account_upgrade_operation \<Rightarrow> chain_state \<Rightarrow> unit res" where
  "account_upgrade_evaluate op st =
    rbind (lookup (accounts st) (account_to_upgrade op)) (\<lambda>a. fc_assert (\<not> is_lifetime_member a) (Inr ()))"

definition account_upgrade_apply :: "account_upgrade_operation \<Rightarrow> chain_state \<Rightarrow> chain_state res" where
  "account_upgrade_apply op st =
    (let i = account_to_upgrade op; now = head_block_time st in
    rbind (lookup (accounts st) i) (\<lambda>a.
    if upgrade_to_lifetime_member op then
      rbind (process_fees i st) (modify_account i (\<lambda>a.
        a\<lparr>membership_expiration_date := 2 ^ 32 - 1, referrer := i, registrar := i, lifetime_referrer := i,
          lifetime_referrer_fee_percentage := (10000 - network_fee_percentage a) mod 2 ^ 16\<rparr>))
    else if is_annual_member a now then
      fc_assert (now \<le> hardfork_time st 613) (fc_assert (membership_expiration_date a - now < 3650 * 86400)
      (modify_account i (\<lambda>a. a\<lparr>membership_expiration_date := (membership_expiration_date a + 365 * 86400) mod 2 ^ 32\<rparr>) st))
    else
      fc_assert (now \<le> hardfork_time st 613)
      (rbind (process_fees i st) (modify_account i (\<lambda>a.
        a\<lparr>referrer := i, membership_expiration_date := (now + 365 * 86400) mod 2 ^ 32\<rparr>)))))"

section \<open>Witnesses, committee members and workers\<close>

definition take_vote_id :: "vote_type \<Rightarrow> chain_state \<Rightarrow> 32 word \<times> chain_state" where
  "take_vote_id t st =
    (case get_next_vote_id (next_available_vote_id st) t of (v, n) \<Rightarrow> (v, st\<lparr>next_available_vote_id := n\<rparr>))"

definition witness_create_evaluate :: "witness_create_operation \<Rightarrow> chain_state \<Rightarrow> unit res" where
  "witness_create_evaluate op st =
    rbind (lookup (accounts st) (wc_account op)) (\<lambda>a. fc_assert (is_lifetime_member a) (Inr ()))"

definition witness_create_apply :: "witness_create_operation \<Rightarrow> chain_state \<Rightarrow> (nat \<times> chain_state) res" where
  "witness_create_apply op st =
    (case take_vote_id Witness st of (v, st) \<Rightarrow>
    fc_assert (\<not> list_ex (\<lambda>(_, w). witness_account w = wc_account op \<or> vote_instance (wit_vote_id w) = vote_instance v)
      (entries (witnesses st)))
    (let i = next_witness st in
     Inr (i, st\<lparr>witnesses := fmupd i \<lparr>witness_account = wc_account op, last_aslot = 0, signing_key = block_signing_key op,
         pay_vb = None, wit_vote_id = v, wit_total_votes = 0, total_missed = 0, last_confirmed_block_num = 0\<rparr> (witnesses st),
       next_witness := i + 1\<rparr>)))"

definition witness_update_evaluate :: "witness_update_operation \<Rightarrow> chain_state \<Rightarrow> unit res" where
  "witness_update_evaluate op st =
    rbind (lookup (witnesses st) (wu_witness op)) (\<lambda>w. fc_assert (witness_account w = wu_account op) (Inr ()))"

definition witness_update_apply :: "witness_update_operation \<Rightarrow> chain_state \<Rightarrow> chain_state res" where
  "witness_update_apply op st =
    modify_witness (wu_witness op) (\<lambda>w. case new_signing_key op of None \<Rightarrow> w | Some k \<Rightarrow> w\<lparr>signing_key := k\<rparr>) st"

definition committee_member_create_evaluate :: "committee_member_create_operation \<Rightarrow> chain_state \<Rightarrow> unit res" where
  "committee_member_create_evaluate op st =
    rbind (lookup (accounts st) (cc_account op)) (\<lambda>a. fc_assert (is_lifetime_member a) (Inr ()))"

definition committee_member_create_apply :: "committee_member_create_operation \<Rightarrow> chain_state \<Rightarrow> (nat \<times> chain_state) res" where
  "committee_member_create_apply op st =
    (case take_vote_id Committee st of (v, st) \<Rightarrow>
    fc_assert (\<not> list_ex (\<lambda>(_, m). committee_member_account m = cc_account op \<or> vote_instance (cm_vote_id m) = vote_instance v)
      (entries (committee_members st)))
    (let i = next_committee_member st in
     Inr (i, st\<lparr>committee_members := fmupd i \<lparr>committee_member_account = cc_account op, cm_vote_id = v, cm_total_votes = 0\<rparr>
         (committee_members st), next_committee_member := i + 1\<rparr>)))"

definition committee_member_update_evaluate :: "committee_member_update_operation \<Rightarrow> chain_state \<Rightarrow> unit res" where
  "committee_member_update_evaluate op st =
    rbind (lookup (committee_members st) (mu_member op)) (\<lambda>m. fc_assert (committee_member_account m = mu_account op) (Inr ()))"

definition committee_member_update_apply :: "committee_member_update_operation \<Rightarrow> chain_state \<Rightarrow> chain_state res" where
  "committee_member_update_apply op st = rbind (lookup (committee_members st) (mu_member op)) (\<lambda>_. Inr st)"

definition update_global_parameters_evaluate :: "transaction_evaluation_state \<Rightarrow> unit res" where
  "update_global_parameters_evaluate es = fc_assert (is_proposed_trx es) (Inr ())"

definition update_global_parameters_apply :: "committee_member_update_global_parameters_operation \<Rightarrow> chain_state \<Rightarrow> chain_state res" where
  "update_global_parameters_apply op st = Inr (st\<lparr>pending_parameters := Some (new_parameters op)\<rparr>)"

definition worker_create_evaluate :: "worker_create_operation \<Rightarrow> chain_state \<Rightarrow> unit res" where
  "worker_create_evaluate op st =
    rbind (lookup (accounts st) (wk_owner op)) (\<lambda>a. fc_assert (is_lifetime_member a)
    (fc_assert (wk_begin_date op \<ge> head_block_time st) (Inr ())))"

fun init_worker :: "worker_initializer \<Rightarrow> nat \<Rightarrow> chain_state \<Rightarrow> worker_type \<times> chain_state" where
  "init_worker RefundInit owner st = (RefundWorker 0, st)"
| "init_worker BurnInit owner st = (BurnWorker 0, st)"
| "init_worker (VestingInit days) owner st =
    (VestingWorker (next_vesting_balance st),
     st\<lparr>vesting_balances := fmupd (next_vesting_balance st)
          \<lparr>vb_owner = owner, vb_balance = mk_asset 0 0,
           vb_policy = Cdd \<lparr>vesting_seconds = days * 86400 mod 2 ^ 32, coin_seconds_earned = 0, start_claim = 0,
             coin_seconds_earned_last_update = head_block_time st\<rparr>\<rparr> (vesting_balances st),
        next_vesting_balance := next_vesting_balance st + 1\<rparr>)"

definition worker_create_apply :: "worker_create_operation \<Rightarrow> chain_state \<Rightarrow> (nat \<times> chain_state) res" where
  "worker_create_apply op st =
    (case take_vote_id Worker st of (for_id, st) \<Rightarrow> case take_vote_id Worker st of (against_id, st) \<Rightarrow>
    case init_worker (initializer op) (wk_owner op) st of (w, st) \<Rightarrow>
    fc_assert (\<not> list_ex (\<lambda>(_, x). vote_instance (vote_for x) = vote_instance for_id \<or>
        vote_instance (vote_against x) = vote_instance against_id) (entries (workers st)))
    (let i = next_worker st in
     Inr (i, st\<lparr>workers := fmupd i \<lparr>worker_account = wk_owner op, work_begin_date = wk_begin_date op,
         work_end_date = wk_end_date op, daily_pay = wk_daily_pay op, worker = w, vote_for = for_id,
         vote_against = against_id, total_votes_for = 0, total_votes_against = 0\<rparr> (workers st), next_worker := i + 1\<rparr>)))"

section \<open>Withdrawal permissions\<close>

definition permission_expiration :: "int \<Rightarrow> int \<Rightarrow> int \<Rightarrow> int" where
  "permission_expiration start periods period_sec = (start + periods * period_sec mod 2 ^ 32) mod 2 ^ 32"

definition available_this_period :: "withdraw_permission_object \<Rightarrow> int \<Rightarrow> asset res" where
  "available_this_period p current_time =
    (if current_time \<ge> (period_start_time p + withdrawal_period_sec p) mod 2 ^ 32 then Inr (withdrawal_limit p)
     else rbind (if amount (withdrawal_limit p) > claimed_this_period p
                 then safe_sub (amount (withdrawal_limit p)) (claimed_this_period p) else Inr 0)
       (\<lambda>a. Inr (mk_asset a (asset_id (withdrawal_limit p)))))"

definition withdraw_permission_create_evaluate :: "withdraw_permission_create_operation \<Rightarrow> chain_state \<Rightarrow> unit res" where
  "withdraw_permission_create_evaluate op st =
    fc_assert (fmlookup (accounts st) (pc_from op) \<noteq> None) (fc_assert (fmlookup (accounts st) (pc_authorized op) \<noteq> None)
    (fc_assert (fmlookup (assets st) (asset_id (pc_limit op)) \<noteq> None)
    (fc_assert (pc_start op > head_block_time st)
    (fc_assert (permission_expiration (pc_start op) (pc_periods op) (pc_period_sec op) > head_block_time st)
    (fc_assert (pc_period_sec op \<ge> block_interval (params st)) (Inr ()))))))"

definition withdraw_permission_create_apply :: "withdraw_permission_create_operation \<Rightarrow> chain_state \<Rightarrow> (nat \<times> chain_state) res" where
  "withdraw_permission_create_apply op st =
    (let i = next_withdraw_permission st in
     Inr (i, st\<lparr>withdraw_permissions := fmupd i
         \<lparr>withdraw_from_account = pc_from op, authorized_account = pc_authorized op, withdrawal_limit = pc_limit op,
          withdrawal_period_sec = pc_period_sec op, period_start_time = pc_start op,
          wp_expiration = permission_expiration (pc_start op) (pc_periods op) (pc_period_sec op),
          claimed_this_period = 0\<rparr> (withdraw_permissions st), next_withdraw_permission := i + 1\<rparr>))"

definition withdraw_permission_update_evaluate :: "withdraw_permission_update_operation \<Rightarrow> chain_state \<Rightarrow> unit res" where
  "withdraw_permission_update_evaluate op st =
    rbind (lookup (withdraw_permissions st) (permission_to_update op)) (\<lambda>p.
    fc_assert (authorized_account p = pu_authorized op) (fc_assert (withdraw_from_account p = pu_from op)
    (fc_assert (fmlookup (assets st) (asset_id (pu_limit op)) \<noteq> None)
    (fc_assert (pu_start op \<ge> head_block_time st)
    (fc_assert (permission_expiration (pu_start op) (pu_periods op) (pu_period_sec op) > head_block_time st)
    (fc_assert (pu_period_sec op \<ge> block_interval (params st)) (Inr ())))))))"

definition modify_permission :: "nat \<Rightarrow> (withdraw_permission_object \<Rightarrow> withdraw_permission_object res) \<Rightarrow> chain_state \<Rightarrow>
    chain_state res" where
  "modify_permission i f st = rbind (lookup (withdraw_permissions st) i) (\<lambda>p. rbind (f p) (\<lambda>p.
    Inr (st\<lparr>withdraw_permissions := fmupd i p (withdraw_permissions st)\<rparr>)))"

definition withdraw_permission_update_apply :: "withdraw_permission_update_operation \<Rightarrow> chain_state \<Rightarrow> chain_state res" where
  "withdraw_permission_update_apply op st =
    modify_permission (permission_to_update op) (\<lambda>p. Inr (p\<lparr>period_start_time := pu_start op,
      wp_expiration := permission_expiration (pu_start op) (pu_periods op) (pu_period_sec op),
      withdrawal_limit := pu_limit op, withdrawal_period_sec := pu_period_sec op\<rparr>)) st"

text \<open>The account called \<open>from\<close> in the code is \<open>withdraw_to_account\<close>, the same account as \<open>to\<close>.\<close>

definition withdraw_permission_claim_evaluate :: "withdraw_permission_claim_operation \<Rightarrow> chain_state \<Rightarrow> unit res" where
  "withdraw_permission_claim_evaluate op st =
    (let i = asset_id (amount_to_withdraw op) in
    rbind (lookup (withdraw_permissions st) (withdraw_permission op)) (\<lambda>p.
    fc_assert (wp_expiration p > head_block_time st) (fc_assert (authorized_account p = withdraw_to_account op)
    (fc_assert (withdraw_from_account p = pl_from op)
    (rbind (available_this_period p (head_block_time st)) (\<lambda>available.
    rbind (asset_le (amount_to_withdraw op) available) (\<lambda>ok. fc_assert ok
    (rbind (asset_ge (get_balance st (pl_from op) i) (amount_to_withdraw op)) (\<lambda>ok. fc_assert ok
    (rbind (lookup (assets st) i) (\<lambda>a.
    fc_assert (is_transfer_restricted a \<longrightarrow> issuer a = authorized_account p \<or> issuer a = withdraw_from_account p)
    (rbind (lookup (accounts st) (withdraw_to_account op)) (\<lambda>from.
    rbind (lookup (accounts st) (authorized_account p)) (\<lambda>to.
    fc_assert (is_authorized_asset st to i a) (fc_assert (is_authorized_asset st from i a) (Inr ()))))))))))))))))"

text \<open>The number of periods is a signed quotient; the start time and its step are 32-bit.\<close>

definition claim_period :: "int \<Rightarrow> int \<Rightarrow> withdraw_permission_object \<Rightarrow> withdraw_permission_object res" where
  "claim_period now amt p =
    rassert (withdrawal_period_sec p \<noteq> 0) UB
    (let periods = (now - period_start_time p) sdiv withdrawal_period_sec p;
         p = p\<lparr>period_start_time := (period_start_time p + periods * withdrawal_period_sec p) mod 2 ^ 32\<rparr> in
     if periods = 0 then rbind (safe_add (claimed_this_period p) amt) (\<lambda>c. Inr (p\<lparr>claimed_this_period := c\<rparr>))
     else Inr (p\<lparr>claimed_this_period := amt\<rparr>))"

definition withdraw_permission_claim_apply :: "withdraw_permission_claim_operation \<Rightarrow> chain_state \<Rightarrow> chain_state res" where
  "withdraw_permission_claim_apply op st =
    rbind (modify_permission (withdraw_permission op) (claim_period (head_block_time st) (amount (amount_to_withdraw op))) st)
      (move_balance (pl_from op) (withdraw_to_account op) (amount_to_withdraw op))"

definition withdraw_permission_delete_evaluate :: "withdraw_permission_delete_operation \<Rightarrow> chain_state \<Rightarrow> unit res" where
  "withdraw_permission_delete_evaluate op st =
    rbind (lookup (withdraw_permissions st) (withdrawal_permission op)) (\<lambda>p.
    fc_assert (authorized_account p = pd_authorized op) (fc_assert (withdraw_from_account p = pd_from op) (Inr ())))"

definition withdraw_permission_delete_apply :: "withdraw_permission_delete_operation \<Rightarrow> chain_state \<Rightarrow> chain_state res" where
  "withdraw_permission_delete_apply op st =
    rbind (lookup (withdraw_permissions st) (withdrawal_permission op)) (\<lambda>_.
    Inr (st\<lparr>withdraw_permissions := fmdrop (withdrawal_permission op) (withdraw_permissions st)\<rparr>))"

section \<open>Genesis balances\<close>

definition balance_ctx :: "balance_object \<Rightarrow> int \<Rightarrow> asset \<Rightarrow> vesting_policy_context" where
  "balance_ctx b now a = \<lparr>ctx_balance = bo_balance b, ctx_now = now, ctx_amount = a\<rparr>"

text \<open>The \<open>if\<close> on the skip flags guards the comparison of the asset types only.\<close>

definition balance_claim_evaluate :: "balance_claim_operation \<Rightarrow> chain_state \<Rightarrow> unit res" where
  "balance_claim_evaluate op st =
    rbind (lookup (balance_objects st) (balance_to_claim op)) (\<lambda>b.
    rassert (bo_owner b \<in> set (key_addresses st (balance_owner_key op))) OtherError
    (fc_assert (skip_flags st AND (64 OR 2) = 0 \<longrightarrow> asset_id (total_claimed op) = asset_id (bo_balance b))
    (case bo_vesting b of
       Some p \<Rightarrow>
         rbind (linear_is_withdraw_allowed p (balance_ctx b (head_block_time st) (total_claimed op))) (\<lambda>ok.
         rassert ok OtherError
         (rassert (head_block_time st - last_claim_date b \<ge> 86400) OtherError (Inr ())))
     | None \<Rightarrow> fc_assert (total_claimed op = bo_balance b) (Inr ()))))"

definition claim_part :: "balance_claim_operation \<Rightarrow> balance_object \<Rightarrow> chain_state \<Rightarrow> chain_state res" where
  "claim_part op b st = (case bo_vesting b of
     None \<Rightarrow> Inr (st\<lparr>balance_objects := fmdrop (balance_to_claim op) (balance_objects st)\<rparr>)
   | Some p \<Rightarrow>
       rbind (asset_lt (total_claimed op) (bo_balance b)) (\<lambda>partial.
       if partial then
         rbind (linear_on_withdraw (balance_ctx b (head_block_time st) (total_claimed op)) p) (\<lambda>p.
         rbind (asset_sub (bo_balance b) (total_claimed op)) (\<lambda>rest.
         Inr (st\<lparr>balance_objects := fmupd (balance_to_claim op)
             (b\<lparr>bo_vesting := Some p, bo_balance := rest, last_claim_date := head_block_time st\<rparr>) (balance_objects st)\<rparr>)))
       else Inr (st\<lparr>balance_objects := fmdrop (balance_to_claim op) (balance_objects st)\<rparr>)))"

definition balance_claim_apply :: "balance_claim_operation \<Rightarrow> chain_state \<Rightarrow> chain_state res" where
  "balance_claim_apply op st =
    rbind (deref (balance_objects st) (balance_to_claim op)) (\<lambda>b.
    rbind (claim_part op b st) (adjust_balance (deposit_to_account op) (total_claimed op)))"

section \<open>Assertions\<close>

fun predicate_which :: "predicate \<Rightarrow> int" where
  "predicate_which (AccountNameEqLit i n) = 0"
| "predicate_which (AssetSymbolEqLit i s) = 1"
| "predicate_which (BlockIdPredicate i) = 2"

fun predicate_evaluate :: "chain_state \<Rightarrow> predicate \<Rightarrow> unit res" where
  "predicate_evaluate st (AccountNameEqLit i n) = rbind (lookup (accounts st) i) (\<lambda>a. fc_assert (account_name a = n) (Inr ()))"
| "predicate_evaluate st (AssetSymbolEqLit i s) = rbind (lookup (assets st) i) (\<lambda>a. fc_assert (asset_symbol a = s) (Inr ()))"
| "predicate_evaluate st (BlockIdPredicate i) =
    rbind (lookup (block_summaries st) (num_from_id i mod 2 ^ 16)) (\<lambda>b. fc_assert (b = i) (Inr ()))"

definition assert_evaluate :: "assert_operation \<Rightarrow> chain_state \<Rightarrow> unit res" where
  "assert_evaluate op st =
    (if skip_flags st AND 256 \<noteq> 0 then Inr ()
     else rfold (\<lambda>p _. fc_assert (predicate_which p < max_predicate_opcode (params st)) (predicate_evaluate st p))
       (predicates op) ())"

end
