(* ===== verification/Dispatch.thy ===== *)
theory Dispatch
  imports Asset_Evaluators Governance_Evaluators
begin

text \<open>The dispatch on the kind of the operation (\<open>evaluate_operation\<close>): the table of evaluators that \<open>db_init.cpp\<close>
  registers and \<open>apply_operation\<close> of \<open>db_block.cpp\<close> consults. The evaluators of \<open>custom\<close> and \<open>assert\<close> operations apply
  nothing.\<close>

definition same_fee :: "(chain_state \<Rightarrow> unit res) \<Rightarrow> int \<Rightarrow> chain_state \<Rightarrow> int res" where
  "same_fee f core_fee_paid st = rbind (f st) (\<lambda>_. Inr core_fee_paid)"

definition no_result :: "(chain_state \<Rightarrow> chain_state res) \<Rightarrow> int \<Rightarrow> int \<Rightarrow> chain_state \<Rightarrow> (operation_result \<times> chain_state) res" where
  "no_result f core_fee_paid deferred st = rbind (f st) (\<lambda>st. Inr (VoidResult, st))"

definition new_object :: "(chain_state \<Rightarrow> (nat \<times> chain_state) res) \<Rightarrow> int \<Rightarrow> int \<Rightarrow> chain_state \<Rightarrow> (operation_result \<times> chain_state) res" where
  "new_object f core_fee_paid deferred st = rbind (f st) (\<lambda>(i, st). Inr (ObjectResult i, st))"

fun do_evaluate :: "transaction_evaluation_state \<Rightarrow> operation \<Rightarrow> int \<Rightarrow> chain_state \<Rightarrow> int res" where
  "do_evaluate es (Transfer op) = same_fee (transfer_evaluate op)"
| "do_evaluate es (OverrideTransfer op) = same_fee (override_transfer_evaluate op)"
| "do_evaluate es (LimitOrderCreate op) = same_fee (limit_order_create_evaluate op)"
| "do_evaluate es (LimitOrderCancel op) = same_fee (limit_order_cancel_evaluate op)"
| "do_evaluate es (CallOrderUpdate op) = same_fee (call_order_update_evaluate op)"
| "do_evaluate es (AssetCreate op) = asset_create_evaluate op"
| "do_evaluate es (AssetUpdate op) = same_fee (asset_update_evaluate op)"
| "do_evaluate es (AssetUpdateBitasset op) = same_fee (asset_update_bitasset_evaluate op)"
| "do_evaluate es (AssetUpdateFeedProducers op) = same_fee (asset_update_feed_producers_evaluate op)"
| "do_evaluate es (AssetIssue op) = same_fee (asset_issue_evaluate op)"
| "do_evaluate es (AssetReserve op) = same_fee (asset_reserve_evaluate op)"
| "do_evaluate es (AssetFundFeePool op) = same_fee (asset_fund_fee_pool_evaluate op)"
| "do_evaluate es (AssetSettle op) = same_fee (asset_settle_evaluate op)"
| "do_evaluate es (AssetGlobalSettle op) = same_fee (asset_global_settle_evaluate op)"
| "do_evaluate es (AssetPublishFeed op) = same_fee (asset_publish_feed_evaluate op)"
| "do_evaluate es (AssetClaimFees op) = same_fee (asset_claim_fees_evaluate op)"
| "do_evaluate es (VestingBalanceCreate op) = same_fee (vesting_create_evaluate op)"
| "do_evaluate es (VestingBalanceWithdraw op) = same_fee (vesting_withdraw_evaluate op)"
| "do_evaluate es (AccountCreate op) = same_fee (account_create_evaluate op)"
| "do_evaluate es (AccountUpdate op) = same_fee (account_update_evaluate op)"
| "do_evaluate es (AccountWhitelist op) = same_fee (account_whitelist_evaluate op)"
| "do_evaluate es (AccountUpgrade op) = same_fee (account_upgrade_evaluate op)"
| "do_evaluate es (WitnessCreate op) = same_fee (witness_create_evaluate op)"
| "do_evaluate es (WitnessUpdate op) = same_fee (witness_update_evaluate op)"
| "do_evaluate es (CommitteeMemberCreate op) = same_fee (committee_member_create_evaluate op)"
| "do_evaluate es (CommitteeMemberUpdate op) = same_fee (committee_member_update_evaluate op)"
| "do_evaluate es (UpdateGlobalParameters op) = same_fee (\<lambda>_. update_global_parameters_evaluate es)"
| "do_evaluate es (WorkerCreate op) = same_fee (worker_create_evaluate op)"
| "do_evaluate es (WithdrawPermissionCreate op) = same_fee (withdraw_permission_create_evaluate op)"
| "do_evaluate es (WithdrawPermissionUpdate op) = same_fee (withdraw_permission_update_evaluate op)"
| "do_evaluate es (WithdrawPermissionClaim op) = same_fee (withdraw_permission_claim_evaluate op)"
| "do_evaluate es (WithdrawPermissionDelete op) = same_fee (withdraw_permission_delete_evaluate op)"
| "do_evaluate es (BalanceClaim op) = same_fee (balance_claim_evaluate op)"
| "do_evaluate es (AssertOp op) = same_fee (assert_evaluate op)"
| "do_evaluate es (Custom op) = same_fee (\<lambda>_. Inr ())"

fun op_pay_fee :: "operation \<Rightarrow> transaction_evaluation_state \<Rightarrow> nat \<Rightarrow> int \<Rightarrow> chain_state \<Rightarrow> (int \<times> chain_state) res" where
  "op_pay_fee (LimitOrderCreate op) = limit_order_pay_fee"
| "op_pay_fee _ = pay_fee"

fun do_apply :: "operation \<Rightarrow> int \<Rightarrow> int \<Rightarrow> chain_state \<Rightarrow> (operation_result \<times> chain_state) res" where
  "do_apply (Transfer op) = no_result (transfer_apply op)"
| "do_apply (OverrideTransfer op) = no_result (override_transfer_apply op)"
| "do_apply (LimitOrderCreate op) = (\<lambda>c d. new_object (limit_order_create_apply op d) c d)"
| "do_apply (LimitOrderCancel op) = (\<lambda>_ _ st. rbind (limit_order_cancel_apply op st) (\<lambda>(a, st). Inr (AssetResult a, st)))"
| "do_apply (CallOrderUpdate op) = no_result (call_order_update_apply op)"
| "do_apply (AssetCreate op) = (\<lambda>c. new_object (asset_create_apply op c) c)"
| "do_apply (AssetUpdate op) = no_result (asset_update_apply op)"
| "do_apply (AssetUpdateBitasset op) = no_result (asset_update_bitasset_apply op)"
| "do_apply (AssetUpdateFeedProducers op) = no_result (asset_update_feed_producers_apply op)"
| "do_apply (AssetIssue op) = no_result (asset_issue_apply op)"
| "do_apply (AssetReserve op) = no_result (asset_reserve_apply op)"
| "do_apply (AssetFundFeePool op) = no_result (asset_fund_fee_pool_apply op)"
| "do_apply (AssetSettle op) = (\<lambda>_ _. asset_settle_apply op)"
| "do_apply (AssetGlobalSettle op) = no_result (asset_global_settle_apply op)"
| "do_apply (AssetPublishFeed op) = no_result (asset_publish_feed_apply op)"
| "do_apply (AssetClaimFees op) = no_result (asset_claim_fees_apply op)"
| "do_apply (VestingBalanceCreate op) = new_object (vesting_create_apply op)"
| "do_apply (VestingBalanceWithdraw op) = no_result (vesting_withdraw_apply op)"
| "do_apply (AccountCreate op) = new_object (account_create_apply op)"
| "do_apply (AccountUpdate op) = no_result (account_update_apply op)"
| "do_apply (AccountWhitelist op) = no_result (account_whitelist_apply op)"
| "do_apply (AccountUpgrade op) = no_result (account_upgrade_apply op)"
| "do_apply (WitnessCreate op) = new_object (witness_create_apply op)"
| "do_apply (WitnessUpdate op) = no_result (witness_update_apply op)"
| "do_apply (CommitteeMemberCreate op) = new_object (committee_member_create_apply op)"
| "do_apply (CommitteeMemberUpdate op) = no_result (committee_member_update_apply op)"
| "do_apply (UpdateGlobalParameters op) = no_result (update_global_parameters_apply op)"
| "do_apply (WorkerCreate op) = new_object (worker_create_apply op)"
| "do_apply (WithdrawPermissionCreate op) = new_object (withdraw_permission_create_apply op)"
| "do_apply (WithdrawPermissionUpdate op) = no_result (withdraw_permission_update_apply op)"
| "do_apply (WithdrawPermissionClaim op) = no_result (withdraw_permission_claim_apply op)"
| "do_apply (WithdrawPermissionDelete op) = no_result (withdraw_permission_delete_apply op)"
| "do_apply (BalanceClaim op) = no_result (balance_claim_apply op)"
| "do_apply (AssertOp op) = no_result Inr"
| "do_apply (Custom op) = no_result Inr"

text \<open>The evaluation of one operation; \<open>schedule\<close> answers for the current fee schedule.\<close>

definition evaluate_operation :: "(operation \<Rightarrow> int res) \<Rightarrow> transaction_evaluation_state \<Rightarrow> operation \<Rightarrow> chain_state
    \<Rightarrow> (operation_result \<times> chain_state) res" where
  "evaluate_operation schedule es op =
    start_evaluate es (schedule op) (fee_payer op) (op_fee op) (do_evaluate es op) (op_pay_fee op) (do_apply op)"

end
