(* ===== verification/Fee_Framework.thy ===== *)
theory Fee_Framework
  imports Evaluators
begin

text \<open>What the fee framework does to the holdings and the supply of each asset.

  The locale \<open>evaluator\<close> is the contract between the fee framework and an evaluator: paying the fee moves what is not
  deferred into the pending fees, and applying the operation changes the excess by \<open>gain\<close>. From it follows how a whole
  evaluation changes the excess. \<open>gain\<close> is what the fee framework still owes (the deferred fee of an order, the fee pool
  of a new asset).\<close>

section \<open>Paying the fee\<close>

text \<open>The fee stage touches the dynamic data and the statistics only.\<close>

definition fee_step :: "chain_state \<Rightarrow> chain_state \<Rightarrow> bool" where
  "fee_step st st' \<longleftrightarrow> st' = st\<lparr>dyn_data := dyn_data st', statistics := statistics st'\<rparr>"

lemma fee_step_refl: "fee_step st st"
  by (simp add: fee_step_def)

lemma fee_step_trans: "fee_step st s1 \<Longrightarrow> fee_step s1 s2 \<Longrightarrow> fee_step st s2"
  by (cases st; cases s1; cases s2) (simp add: fee_step_def)

lemma fee_stepD:
  assumes "fee_step st st'"
  shows "bitassets st' = bitassets st \<and> assets st' = assets st \<and> call_orders st' = call_orders st \<and>
    limit_orders st' = limit_orders st \<and> settlements st' = settlements st \<and>
    balance_objects st' = balance_objects st \<and> dgp st' = dgp st"
  using assms by (cases st; cases st') (simp add: fee_step_def)

lemma convert_fee_moves:
  assumes "convert_fee es fee c st = Inr st'" "\<not> skip_fee es"
  shows "fee_step st st' \<and> moves (\<lambda>A. if asset_id fee = 0 then 0 else part A fee - part A (mk_asset c 0)) st st'"
proof (cases "asset_id fee = 0")
  case True
  then show ?thesis using assms by (auto simp: convert_fee_def fee_step_refl intro: moves_refl)
next
  case False
  then have "modify_dyn (asset_id fee) (\<lambda>d.
         rbind (safe_add (accumulated_fees d) (amount fee)) (\<lambda>a.
         rbind (safe_sub (fee_pool d) c) (\<lambda>p.
         Inr (d\<lparr>accumulated_fees := a, fee_pool := p\<rparr>)))) st = Inr st'"
    using assms by (simp add: convert_fee_def)
  from modify_dyn_moves[OF this] obtain d d' where d: "st' = st\<lparr>dyn_data := fmupd (asset_id fee) d' (dyn_data st)\<rparr>"
      "moves (\<lambda>A. dyn_part A (asset_id fee) d' - dyn_part A (asset_id fee) d) st st'"
      "d' = d\<lparr>accumulated_fees := accumulated_fees d + amount fee, fee_pool := fee_pool d - c\<rparr>"
    by (auto dest!: safe_add_Inr safe_sub_Inr)
  have "fee_step st st'" by (simp add: fee_step_def d(1))
  moreover have "moves (\<lambda>A. if asset_id fee = 0 then 0 else part A fee - part A (mk_asset c 0)) st st'"
    by (rule moves_cong[OF d(2)]) (auto simp: False d(3) dyn_part_def part_def)
  ultimately show ?thesis ..
qed

lemma stats_pay_fee_part:
  "stats_pay_fee c t s = Inr s' \<Longrightarrow> stats_part A s' = stats_part A s + part A (mk_asset c 0)"
  by (auto simp: stats_pay_fee_def stats_part_def split: if_splits dest!: safe_add_Inr)

definition pays_fee :: "bool \<Rightarrow> (transaction_evaluation_state \<Rightarrow> nat \<Rightarrow> int \<Rightarrow> chain_state \<Rightarrow> (int \<times> chain_state) res) \<Rightarrow> bool" where
  "pays_fee defers pay \<longleftrightarrow> (\<forall>es acct c st d st'. pay es acct c st = Inr (d, st') \<longrightarrow> \<not> skip_fee es \<longrightarrow>
     fee_step st st' \<and> (d = 0 \<or> defers \<and> d = c) \<and> moves (\<lambda>A. part A (mk_asset (c - d) 0)) st st')"

lemma pays_fee_pay_fee: "pays_fee defers pay_fee"
proof -
  have "fee_step st st' \<and> moves (\<lambda>A. part A (mk_asset c 0)) st st'"
    if "modify_stats acct (stats_pay_fee c t) st = Inr st'" for acct c t st st'
  proof -
    from modify_stats_moves[OF that] obtain d d' where d: "stats_pay_fee c t d = Inr d'"
        "st' = st\<lparr>statistics := fmupd acct d' (statistics st)\<rparr>" "moves (\<lambda>A. stats_part A d' - stats_part A d) st st'"
      by auto
    have "fee_step st st'" by (simp add: fee_step_def d(2))
    then show ?thesis using moves_cong[OF d(3)] stats_pay_fee_part[OF d(1)] by fastforce
  qed
  then show ?thesis by (auto simp: pays_fee_def pay_fee_def)
qed

lemma pays_fee_limit_order: "pays_fee True limit_order_pay_fee"
  using pays_fee_pay_fee[of True]
  by (auto simp: pays_fee_def limit_order_pay_fee_def fee_step_refl intro: moves_refl split: if_splits)

section \<open>The contract\<close>

locale evaluator =
  fixes defers :: bool
    and eval :: "int \<Rightarrow> chain_state \<Rightarrow> int res"
    and pay :: "transaction_evaluation_state \<Rightarrow> nat \<Rightarrow> int \<Rightarrow> chain_state \<Rightarrow> (int \<times> chain_state) res"
    and act :: "int \<Rightarrow> int \<Rightarrow> chain_state \<Rightarrow> (operation_result \<times> chain_state) res"
    and ready :: "chain_state \<Rightarrow> bool"
    and gain :: "int \<Rightarrow> nat \<Rightarrow> int"
  assumes pay: "pays_fee defers pay"
    and act: "eval c st = Inr c' \<Longrightarrow> ready st \<Longrightarrow> fee_step st s1 \<Longrightarrow> 0 \<le> d \<Longrightarrow> d = 0 \<or> defers \<Longrightarrow>
      act c' d s1 = Inr (r, s2) \<Longrightarrow> moves (\<lambda>A. gain c' A + part A (mk_asset d 0)) s1 s2"
    and eval_pos: "eval c st = Inr c' \<Longrightarrow> 0 \<le> c \<Longrightarrow> 0 \<le> c'"
begin

text \<open>What a whole evaluation adds to the excess.\<close>

lemma start_moves:
  assumes "start_evaluate es required acct fee eval pay act st = Inr (r, st')" "\<not> skip_fee es" "ready st"
  obtains core c where "prepare_fee acct fee st = Inr core" "eval core st = Inr c"
    "moves (\<lambda>A. gain c A + (if asset_id fee = 0 then part A (mk_asset (c - amount fee) 0) else 0)) st st'"
  using assms(1) unfolding start_evaluate_def
proof (elim rbind_pairE rbindE, goal_cases)
  case (1 core u c s1 d s2 res s3 charge s4)
  have core: "0 \<le> core" using 1(2) by (auto simp: prepare_fee_def asset_mul_def Let_def u128_def
      pos_imp_zdiv_nonneg_iff split: if_splits)
  have cpos: "0 \<le> c" by (rule eval_pos[OF 1(4) core])
  note conv = convert_fee_moves[OF 1(5) assms(2)]
  have paid: "fee_step s1 s2 \<and> (d = 0 \<or> defers \<and> d = c) \<and> moves (\<lambda>A. part A (mk_asset (c - d) 0)) s1 s2"
    using pay 1(6) assms(2) unfolding pays_fee_def by blast
  have fs: "fee_step st s2" using conv paid fee_step_trans by blast
  have acted: "moves (\<lambda>A. gain c A + part A (mk_asset d 0)) s2 s3"
    by (rule act[OF 1(4) assms(3) fs _ _ 1(7)]) (use paid cpos in auto)
  have charge: "part A charge = - part A fee" for A
    using 1(8) by (auto simp: asset_neg_def part_def dest!: safe_neg_Inr)
  have "s4 = st'" using 1(10) by simp
  then have charged: "moves (\<lambda>A. part A charge) s3 st'" using adjust_balance_moves[OF 1(9)] by simp
  have "moves (\<lambda>A. gain c A + (if asset_id fee = 0 then part A (mk_asset (c - amount fee) 0) else 0)) st st'"
    by (rule moves_cong[OF moves_seq[OF conv[THEN conjunct2] moves_seq[OF paid[THEN conjunct2, THEN conjunct2]
          moves_seq[OF acted charged]]]]) (auto simp: charge, auto simp: part_def)
  then show ?case using 1(1) 1(2) 1(4) by blast
qed

end

section \<open>Moving balances\<close>

lemma asset_neg_part: "asset_neg a = Inr n \<Longrightarrow> part A n = - part A a"
  by (auto simp: asset_neg_def part_def dest!: safe_neg_Inr)

lemma pay_moves:
  assumes "asset_neg a = Inr n" "adjust_balance acct n st = Inr st'"
  shows "moves (\<lambda>A. - part A a) st st'"
  by (rule moves_cong[OF adjust_balance_moves[OF assms(2)]]) (simp add: asset_neg_part[OF assms(1)])

lemma move_balance_moves: "move_balance f t a st = Inr st' \<Longrightarrow> moves (\<lambda>A. 0) st st'"
  unfolding move_balance_def
proof (elim rbindE)
  fix n s1 assume "asset_neg a = Inr n" "adjust_balance f n st = Inr s1" "adjust_balance t a s1 = Inr st'"
  then show ?thesis by (intro moves_cong[OF moves_seq[OF pay_moves adjust_balance_moves]]) auto
qed

end
