(* ===== verification/Asset_Conservation.thy ===== *)
theory Asset_Conservation
  imports Fee_Framework Asset_Evaluators
begin

text \<open>How the transfer, market, asset and vesting evaluators change the excess of each asset, one lemma per operation.\<close>

lemma core_in_orders_moves:
  assumes "modify_stats acct (\<lambda>s. if b then rbind (safe_add (total_core_in_orders s) x)
    (\<lambda>t. Inr (s\<lparr>total_core_in_orders := t\<rparr>)) else Inr s) st = Inr st'"
  shows "moves (\<lambda>A. 0) st st' \<and> (\<exists>t. st' = st\<lparr>statistics := t\<rparr>)"
  using modify_stats_moves[OF assms] by (auto simp: stats_part_def split: if_splits elim!: moves_cong)

lemma create_limit_order_moves:
  assumes "in_i64 (for_sale l)" "0 \<le> deferred_fee l"
  shows "moves (\<lambda>A. limit_part A l) st
    (st\<lparr>limit_orders := fmupd (next_limit_order st) l (limit_orders st), next_limit_order := next_limit_order st + 1\<rparr>)"
  using assms by (auto simp: moves_def chain_ok_def excess_def fmsum_fmupd intro: unused_create[simplified])

lemma limit_order_create_moves:
  assumes "limit_order_create_apply op d st = Inr (i, st')" "in_i64 (amount (amount_to_sell op))" "0 \<le> d"
  shows "moves (\<lambda>A. part A (mk_asset d 0)) st st'"
  using assms(1) unfolding limit_order_create_apply_def Let_def
proof (elim res_elims, goal_cases)
  case (1 s1 n s2 p filled s3)
  have base: "base p = amount_to_sell op" using 1(4) by (auto simp: asset_div_def)
  let ?l = "\<lparr>lo_expiration = lc_expiration op, lo_seller = lc_seller op, for_sale = amount (amount_to_sell op),
    sell_price = p, deferred_fee = d\<rparr>"
  note created = create_limit_order_moves[of ?l s2]
  have "moves (\<lambda>A. 0 + (- part A (amount_to_sell op) + (limit_part A ?l + 0))) st s3"
    by (rule moves_seq[OF core_in_orders_moves[OF 1(1), THEN conjunct1] moves_seq[OF pay_moves[OF 1(2,3)]
          moves_seq[OF created apply_order_moves[OF 1(5)]]]]) (use assms in auto)
  then show ?case using 1(7) by (auto simp: limit_part_def amount_for_sale_def base part_def elim!: moves_cong)
qed

lemma limit_order_cancel_moves:
  assumes "limit_order_cancel_apply op st = Inr (a, st')"
  shows "moves (\<lambda>A. 0) st st'"
  using assms unfolding limit_order_cancel_apply_def
  by (elim run_elims) (clarsimp, rule moves0_trans, erule cancel_limit_order_moves, rule moves0_trans,
      erule check_call_orders_moves, erule check_call_orders_moves)

lemma call_price_ids: "call_price d c r = Inr p \<Longrightarrow> asset_id (base p) = asset_id c \<and> asset_id (quote p) = asset_id d"
  unfolding call_price_def by (elim run_elims) (auto simp: asset_div_def price_inv_def)

lemma call_order_take_moves:
  assumes "call_order_take op st = Inr st'"
  shows "moves (\<lambda>A. - part A (delta_collateral op)) st st' \<and> call_orders st' = call_orders st \<and>
    next_call_order st' = next_call_order st \<and> bitassets st' = bitassets st"
proof -
  obtain s1 where s1: "(if amount (delta_debt op) \<noteq> 0
      then rbind (adjust_balance (funding_account op) (delta_debt op) st) (\<lambda>st.
        modify_dyn (asset_id (delta_debt op)) (\<lambda>d. rbind (safe_add (current_supply d) (amount (delta_debt op)))
          (\<lambda>s. Inr (d\<lparr>current_supply := s\<rparr>))) st)
      else Inr st) = Inr s1"
    and s2: "(if amount (delta_collateral op) \<noteq> 0
    then rbind (asset_neg (delta_collateral op)) (\<lambda>n. rbind (adjust_balance (funding_account op) n s1) (\<lambda>st.
      if asset_id (delta_collateral op) = 0
      then modify_stats (funding_account op) (\<lambda>s. rbind (safe_add (total_core_in_orders s) (amount (delta_collateral op)))
        (\<lambda>t. Inr (s\<lparr>total_core_in_orders := t\<rparr>))) st
      else Inr st))
    else Inr s1) = Inr st'"
    using assms unfolding call_order_take_def by (elim rbindE)
  have 1: "moves (\<lambda>A. 0) st s1 \<and> call_orders s1 = call_orders st \<and> next_call_order s1 = next_call_order st \<and>
      bitassets s1 = bitassets st"
  proof (cases "amount (delta_debt op) = 0")
    case False
    then obtain b where b: "adjust_balance (funding_account op) (delta_debt op) st = Inr b"
      and d: "modify_dyn (asset_id (delta_debt op)) (\<lambda>d. rbind (safe_add (current_supply d) (amount (delta_debt op)))
          (\<lambda>s. Inr (d\<lparr>current_supply := s\<rparr>))) b = Inr s1"
      using s1 by auto
    have "moves (\<lambda>A. 0) st s1"
      by (rule moves_cong[OF moves_seq[OF adjust_balance_moves[OF b] add_supply_moves[OF d, THEN conjunct2]]]) (simp add: part_def)
    then show ?thesis using adjust_balance_frame[OF b] add_supply_moves[OF d] by auto
  qed (use s1 in \<open>auto intro: moves_refl\<close>)
  have 2: "moves (\<lambda>A. - part A (delta_collateral op)) s1 st' \<and> call_orders st' = call_orders s1 \<and>
      next_call_order st' = next_call_order s1 \<and> bitassets st' = bitassets s1"
  proof (cases "amount (delta_collateral op) = 0")
    case False
    then obtain n b where n: "asset_neg (delta_collateral op) = Inr n" "adjust_balance (funding_account op) n s1 = Inr b"
      and m: "(if asset_id (delta_collateral op) = 0
      then modify_stats (funding_account op) (\<lambda>s. rbind (safe_add (total_core_in_orders s) (amount (delta_collateral op)))
        (\<lambda>t. Inr (s\<lparr>total_core_in_orders := t\<rparr>))) b
      else Inr b) = Inr st'"
      using s2 by auto
    have "moves (\<lambda>A. 0) b st' \<and> (\<exists>t. st' = b\<lparr>statistics := t\<rparr>)"
      using m core_in_orders_moves[of "funding_account op" True] by (auto split: if_splits intro!: moves_refl exI[of _ "statistics b"])
    then show ?thesis using moves_cong[OF moves_seq[OF pay_moves[OF n]]] adjust_balance_frame[OF n(2)] by fastforce
  qed (use s2 in \<open>auto simp: part_def intro: moves_refl\<close>)
  from 1 2 show ?thesis using moves_cong[OF moves_seq] by fastforce
qed

lemma create_call_order_moves:
  "moves (\<lambda>A. part A (get_collateral c)) st
    (st\<lparr>call_orders := fmupd (next_call_order st) c (call_orders st), next_call_order := next_call_order st + 1\<rparr>)"
  by (auto simp: moves_def chain_ok_def excess_def fmsum_fmupd intro: unused_create[simplified])

lemma find_Some: "find P xs = Some x \<Longrightarrow> x \<in> set xs \<and> P x"
  by (metis find_Some_iff in_set_conv_nth)

lemma find_call_order_Some:
  "find_call_order acct d st = Some (i, c) \<Longrightarrow> fmlookup (call_orders st) i = Some c \<and> borrower c = acct \<and> asset_id (get_debt c) = d"
  unfolding find_call_order_def by (drule find_Some) (auto simp: set_entries)

text \<open>A position that is updated holds its collateral in the asset of the change.\<close>

definition backed_alike :: "call_order_update_operation \<Rightarrow> chain_state \<Rightarrow> bool" where
  "backed_alike op st \<longleftrightarrow> (case find_call_order (funding_account op) (asset_id (delta_debt op)) st of
     None \<Rightarrow> True | Some (i, c) \<Rightarrow> asset_id (get_collateral c) = asset_id (delta_collateral op))"

lemma call_order_put_moves:
  assumes "call_order_put op mcr st = Inr (i, st')" "backed_alike op st"
  shows "moves (\<lambda>A. part A (delta_collateral op)) st st'"
proof (cases "find_call_order (funding_account op) (asset_id (delta_debt op)) st")
  case None
  then obtain p where p: "call_price (delta_debt op) (delta_collateral op) mcr = Inr p"
    and st': "st' = st\<lparr>call_orders := fmupd (next_call_order st)
           \<lparr>borrower = funding_account op, collateral = amount (delta_collateral op), debt = amount (delta_debt op),
            co_call_price = p\<rparr> (call_orders st), next_call_order := next_call_order st + 1\<rparr>"
    using assms(1) by (auto simp: call_order_put_def)
  show ?thesis unfolding st'
    by (rule moves_cong[OF create_call_order_moves]) (use call_price_ids[OF p] in \<open>simp add: get_collateral_def part_def\<close>)
next
  case (Some ic)
  obtain j c where ic: "ic = (j, c)" by (cases ic)
  note c = find_call_order_Some[OF Some[unfolded ic]]
  have base: "asset_id (get_collateral c) = asset_id (delta_collateral op)"
    using assms(2) Some by (simp add: backed_alike_def ic)
  obtain coll d c' where u: "safe_add (collateral c) (amount (delta_collateral op)) = Inr coll"
    and c': "(if d > 0 then rbind (call_price (get_debt (c\<lparr>collateral := coll, debt := d\<rparr>))
        (get_collateral (c\<lparr>collateral := coll, debt := d\<rparr>)) mcr) (\<lambda>p. Inr (c\<lparr>collateral := coll, debt := d, co_call_price := p\<rparr>))
      else Inr (c\<lparr>collateral := coll, debt := d\<rparr>)) = Inr c'"
    and st': "st' = st\<lparr>call_orders := fmupd j c' (call_orders st)\<rparr>"
    using assms(1) Some by (auto simp: call_order_put_def ic Let_def)
  have "asset_id (get_collateral c') = asset_id (get_collateral c) \<and> collateral c' = coll"
    using c' by (auto simp: get_collateral_def split: if_splits dest!: call_price_ids)
  then show ?thesis unfolding st' using base safe_add_Inr[OF u] c
    by (intro moves_cong[OF call_update_moves]) (auto simp: get_collateral_def part_def)
qed

lemma call_order_update_moves:
  assumes "call_order_update_apply op st = Inr st'" "backed_alike op st"
  shows "moves (\<lambda>A. 0) st st'"
  using assms(1) unfolding call_order_update_apply_def
proof (elim rbind_pairE rbindE, goal_cases)
  case (1 s1 b i s2 c)
  note take = call_order_take_moves[OF 1(1)]
  have "backed_alike op s1" using assms(2) take by (simp add: backed_alike_def find_call_order_def)
  note put = call_order_put_moves[OF 1(3) this]
  have upto: "moves (\<lambda>A. 0) st s2" by (rule moves_cong[OF moves_seq[OF take[THEN conjunct1] put]]) simp
  have "moves (\<lambda>A. 0) s2 st'"
  proof (cases "debt c = 0")
    case True
    then show ?thesis using 1(4,5) call_remove_moves[of s2 i c]
      by (auto simp: get_collateral_def part_def elim!: moves_cong)
  next
    case False
    then show ?thesis using 1(5) by (elim run_elims) (auto intro: moves_refl check_call_orders_moves)
  qed
  with upto show ?case by (rule moves0_trans)
qed

section \<open>Asset operations\<close>

definition fee_options_ok :: "asset_options \<Rightarrow> bool" where
  "fee_options_ok ao \<longleftrightarrow> 0 \<le> max_market_fee ao \<and> 0 \<le> market_fee_percent ao \<and> market_fee_percent ao \<le> 10000"

lemma unsettled_ok: "bit_settlement_price b = null_price \<Longrightarrow> settlement_fund b = 0 \<Longrightarrow> bit_ok i b"
  by (simp add: bit_ok_def has_settlement_def price_is_null_def price_eq_def)

lemma new_asset_moves:
  assumes "fee_options_ok (options a)" "i = next_asset st"
    "st' = st\<lparr>assets := fmupd i a (assets st), dyn_data := fmupd i \<lparr>current_supply = 0, confidential_supply = 0,
       accumulated_fees = 0, fee_pool = c\<rparr> (dyn_data st), bitassets := t, next_asset := i + 1\<rparr>"
    "t = bitassets st \<or> (\<exists>b. t = fmupd i b (bitassets st) \<and> bit_settlement_price b = null_price \<and> settlement_fund b = 0)"
  shows "moves (\<lambda>A. part A (mk_asset c 0)) st st'"
proof (cases "chain_ok st")
  case True
  then have "unused_from (dyn_data st) i" "unused_from (bitassets st) i" by (auto simp: chain_ok_def assms(2))
  then have t: "unused_from t (i + 1)" "fmsum (\<lambda>_. bit_part A) t = fmsum (\<lambda>_. bit_part A) (bitassets st)" for A
    using assms(4) by (auto simp: unused_from_def fmsum_fmupd bit_part_def)
  have "\<forall>j b. fmlookup t j = Some b \<longrightarrow> bit_ok j b"
    using assms(4) True unsettled_ok by (auto simp: chain_ok_def split: if_split_asm)
  then have "chain_ok st'" using True assms(1,2) t
    by (auto simp: assms(3) chain_ok_def fee_options_ok_def split: if_split_asm intro: unused_create[simplified])
  moreover have "excess st' A = excess st A + part A (mk_asset c 0)" for A
    using t \<open>unused_from (dyn_data st) i\<close> by (simp add: assms(3) excess_def fmsum_fmupd dyn_part_def)
  ultimately show ?thesis by (simp add: moves_def)
qed (simp add: moves_def)

lemma asset_create_moves:
  assumes "asset_create_apply op c st = Inr (i, st')" "fee_options_ok (common_options op)"
  shows "moves (\<lambda>A. part A (mk_asset c 0)) st st'"
  using assms(1) unfolding asset_create_apply_def Let_def
  by (elim run_elims Pair_inject)
    (rule new_asset_moves[rotated 2], assumption, use assms(2) in \<open>auto simp: fee_options_ok_def split: option.splits\<close>)

lemma asset_issue_moves: "asset_issue_apply op st = Inr st' \<Longrightarrow> moves (\<lambda>A. 0) st st'"
  unfolding asset_issue_apply_def
  by (elim rbindE) (rule moves_cong[OF moves_seq[OF adjust_balance_moves add_supply_moves[THEN conjunct2]]],
      auto simp: part_def)

lemma asset_reserve_moves: "asset_reserve_apply op st = Inr st' \<Longrightarrow> moves (\<lambda>A. 0) st st'"
  unfolding asset_reserve_apply_def
  by (elim rbindE) (rule moves_cong[OF moves_seq[OF pay_moves sub_supply_moves[THEN conjunct2]]],
      auto simp: part_def)

lemma fund_pool_moves:
  assumes "modify_dyn i (\<lambda>d. rbind (safe_add (fee_pool d) x) (\<lambda>p. Inr (d\<lparr>fee_pool := p\<rparr>))) st = Inr st'"
  shows "moves (\<lambda>A. part A (mk_asset x 0)) st st'"
  using modify_dyn_moves[OF assms] by (auto simp: dyn_part_def elim!: moves_cong dest!: safe_add_Inr)

lemma claim_moves:
  assumes "modify_dyn i (\<lambda>d. rbind (safe_sub (accumulated_fees d) x) (\<lambda>f. Inr (d\<lparr>accumulated_fees := f\<rparr>))) st = Inr st'"
  shows "moves (\<lambda>A. - part A (mk_asset x i)) st st'"
  using modify_dyn_moves[OF assms] by (auto simp: dyn_part_def elim!: moves_cong dest!: safe_sub_Inr)

lemma asset_fund_fee_pool_moves: "asset_fund_fee_pool_apply op st = Inr st' \<Longrightarrow> moves (\<lambda>A. 0) st st'"
  unfolding asset_fund_fee_pool_apply_def
  by (elim rbindE) (rule moves_cong[OF moves_seq[OF adjust_balance_moves fund_pool_moves]],
      auto dest!: safe_neg_Inr)

lemma asset_claim_fees_moves: "asset_claim_fees_apply op st = Inr st' \<Longrightarrow> moves (\<lambda>A. 0) st st'"
  unfolding asset_claim_fees_apply_def
  by (elim res_elims) (rule moves_cong[OF moves_seq[OF claim_moves adjust_balance_moves]], auto simp: part_def)

lemma modify_asset_moves:
  assumes "modify_asset i f st = Inr st'" "\<And>a. fmlookup (assets st) i = Some a \<Longrightarrow> fee_options_ok (options (f a))"
  shows "moves (\<lambda>A. 0) st st'"
  using assms by (auto simp: modify_asset_def moves_def chain_ok_def excess_def fee_options_ok_def split: if_split_asm)

lemma cancel_all_moves:
  "rfold (\<lambda>i. cancel_settle_order i v) is st = Inr st' \<Longrightarrow> moves (\<lambda>A. 0) st st'"
  by (rule rfold_invariant[where P = "moves (\<lambda>A. 0) st"])
    (auto intro: moves_refl moves0_trans cancel_settle_order_moves)

lemma asset_update_moves:
  assumes "asset_update_apply op st = Inr st'" "fee_options_ok (new_options op)"
  shows "moves (\<lambda>A. 0) st st'"
  using assms(1) unfolding asset_update_apply_def
proof (elim rbindE, goal_cases)
  case (1 a s1)
  have "moves (\<lambda>A. 0) st s1" using 1(2) cancel_all_moves by (auto split: if_splits intro: moves_refl)
  moreover have "moves (\<lambda>A. 0) s1 st'" using modify_asset_moves[OF 1(3)] assms(2) by simp
  ultimately show ?case by (rule moves0_trans)
qed

text \<open>Feeds do not touch the settlement.\<close>

lemma update_median_feeds_frame:
  "update_median_feeds now b = Inr b' \<Longrightarrow> bit_options b' = bit_options b \<and>
    bit_settlement_price b' = bit_settlement_price b \<and> settlement_fund b' = settlement_fund b"
  unfolding update_median_feeds_def by (elim run_elims) auto

lemma feed_update_moves:
  assumes "modify_bitasset i (\<lambda>b. update_median_feeds now (b\<lparr>feeds := f b\<rparr>)) st = Inr st'"
  shows "moves (\<lambda>A. 0) st st'"
proof -
  have "bit_ok i d'" if "update_median_feeds now (d\<lparr>feeds := f d\<rparr>) = Inr d'" "bit_ok i d" for d d'
    using update_median_feeds_frame[OF that(1)] that(2) by (simp add: bit_ok_def has_settlement_def)
  then have "\<exists>d d'. update_median_feeds now (d\<lparr>feeds := f d\<rparr>) = Inr d' \<and> moves (\<lambda>A. bit_part A d' - bit_part A d) st st'"
    using modify_bitasset_moves[OF assms] by blast
  then show ?thesis by (auto simp: bit_part_def elim!: moves_cong dest!: update_median_feeds_frame)
qed

lemma asset_update_feed_producers_moves:
  "asset_update_feed_producers_apply op st = Inr st' \<Longrightarrow> moves (\<lambda>A. 0) st st'"
  unfolding asset_update_feed_producers_apply_def
  by (elim run_elims) (clarsimp, rule moves0_trans, erule feed_update_moves, erule check_call_orders_moves)

lemma asset_publish_feed_moves:
  "asset_publish_feed_apply op st = Inr st' \<Longrightarrow> moves (\<lambda>A. 0) st st'"
  unfolding asset_publish_feed_apply_def
  by (elim run_elims; clarsimp) (erule feed_update_moves | rule moves0_trans, erule feed_update_moves, erule check_call_orders_moves)+

lemma asset_update_bitasset_moves:
  assumes "asset_update_bitasset_apply op st = Inr st'" "fmlookup (bitassets st) (ab_asset op) = Some b" "\<not> has_settlement b"
  shows "moves (\<lambda>A. 0) st st'"
proof (cases "chain_ok st")
  case True
  then have fund: "settlement_fund b = 0" using assms by (auto simp: chain_ok_def bit_ok_def)
  let ?f = "\<lambda>b. if minimum_feeds (ab_options op) \<noteq> minimum_feeds (bit_options b)
      then update_median_feeds (head_block_time st) (b\<lparr>bit_options := ab_options op\<rparr>)
      else Inr (b\<lparr>bit_options := ab_options op\<rparr>)"
  have keeps: "settlement_fund d' = settlement_fund d \<and> bit_settlement_price d' = bit_settlement_price d" if "?f d = Inr d'" for d d'
    using that by (auto split: if_splits dest: update_median_feeds_frame)
  have "bit_ok (ab_asset op) d'" if "fmlookup (bitassets st) (ab_asset op) = Some d" "?f d = Inr d'" for d d'
    using keeps[OF that(2)] that(1) assms(2,3) fund by (simp add: bit_ok_def has_settlement_def)
  then have "\<exists>d'. ?f b = Inr d' \<and> moves (\<lambda>A. bit_part A d' - bit_part A b) st st'"
    using modify_bitasset_moves[OF assms(1)[unfolded asset_update_bitasset_apply_def]] assms(2) by fastforce
  then show ?thesis using fund keeps by (auto simp: bit_part_def elim!: moves_cong)
qed (simp add: moves_def)

lemma asset_global_settle_moves: "asset_global_settle_apply op st = Inr st' \<Longrightarrow> moves (\<lambda>A. 0) st st'"
  unfolding asset_global_settle_apply_def by (elim rbindE) (rule globally_settle_moves)

text \<open>Settling after a global settlement pays out of the fund; before it the balance moves into a settlement object.\<close>

lemma create_settlement_moves:
  "moves (\<lambda>A. part A (fs_balance s)) st
    (st\<lparr>settlements := fmupd (next_settlement st) s (settlements st), next_settlement := next_settlement st + 1\<rparr>)"
  by (auto simp: moves_def chain_ok_def excess_def fmsum_fmupd intro: unused_create[simplified])

lemma asset_mul_ids:
  "asset_mul a p = Inr r \<Longrightarrow> asset_id (base p) = asset_id a \<Longrightarrow> asset_id r = asset_id (quote p)"
  by (auto simp: asset_mul_def Let_def split: if_splits)

lemma pay_from_fund_moves:
  assumes "modify_bitasset i (\<lambda>b. rbind (safe_sub (settlement_fund b) x) (\<lambda>f. Inr (b\<lparr>settlement_fund := f\<rparr>))) st = Inr st'"
    "fmlookup (bitassets st) i = Some b" "has_settlement b"
  shows "moves (\<lambda>A. - part A (mk_asset x (short_backing_asset (bit_options b)))) st st'"
proof -
  have "bit_ok i d'" if "fmlookup (bitassets st) i = Some d"
    "rbind (safe_sub (settlement_fund d) x) (\<lambda>f. Inr (d\<lparr>settlement_fund := f\<rparr>)) = Inr d'" "bit_ok i d" for d d'
    using that assms(2,3) by (auto simp: bit_ok_def has_settlement_def)
  then have "\<exists>d'. rbind (safe_sub (settlement_fund b) x) (\<lambda>f. Inr (b\<lparr>settlement_fund := f\<rparr>)) = Inr d' \<and>
      moves (\<lambda>A. bit_part A d' - bit_part A b) st st'"
    using modify_bitasset_moves[OF assms(1)] assms(2) by fastforce
  then show ?thesis by (auto simp: bit_part_def elim!: moves_cong dest!: safe_sub_Inr)
qed

lemma asset_settle_moves:
  assumes "asset_settle_apply op st = Inr (r, st')"
  shows "moves (\<lambda>A. 0) st st'"
proof (cases "chain_ok st")
  case ok: True
  show ?thesis using assms unfolding asset_settle_apply_def Let_def
  proof (elim rbind_pairE rbindE, goal_cases)
    case (1 n s1 b)
    note paid = pay_moves[OF 1(1,2)]
    have "chain_ok s1" using paid ok by (simp add: moves_def)
    then have b: "fmlookup (bitassets s1) (asset_id (as_amount op)) = Some b" "bit_ok (asset_id (as_amount op)) b"
      using 1(3) by (auto simp: chain_ok_def)
    show ?case
    proof (cases "has_settlement b")
      case True
      show ?thesis using 1(4) unfolding if_P[OF True]
      proof (elim res_elims, goal_cases)
        case (1 settled s2 s3 s4)
        have id: "asset_id settled = short_backing_asset (bit_options b)"
          using asset_mul_ids[OF 1(1)] b(2) True by (simp add: bit_ok_def)
        have "st' = s4" using 1(6) by simp
        then show ?case
          using moves_seq[OF paid moves_seq[OF pay_from_fund_moves[OF 1(3) b(1) True]
            moves_seq[OF adjust_balance_moves[OF 1(4)] sub_supply_moves[OF 1(5), THEN conjunct2]]]] id
          by (auto simp: part_def elim!: moves_cong)
      qed
    next
      case False
      then show ?thesis using 1(4) moves_cong[OF moves_seq[OF paid create_settlement_moves]] by fastforce
    qed
  qed
qed (simp add: moves_def)

lemma create_vesting_moves:
  "moves (\<lambda>A. part A (vb_balance v)) st
    (st\<lparr>vesting_balances := fmupd (next_vesting_balance st) v (vesting_balances st), next_vesting_balance := next_vesting_balance st + 1\<rparr>)"
  by (auto simp: moves_def chain_ok_def excess_def fmsum_fmupd intro: unused_create[simplified])

lemma vesting_create_moves: "vesting_create_apply op st = Inr (i, st') \<Longrightarrow> moves (\<lambda>A. 0) st st'"
  unfolding vesting_create_apply_def
  by (elim run_elims Pair_inject) (hypsubst, rule moves_cong[OF moves_seq[OF pay_moves create_vesting_moves]], auto)

lemma vb_withdraw_part:
  "vb_withdraw now a vb = Inr vb' \<Longrightarrow> part A (vb_balance vb') = part A (vb_balance vb) - part A a"
  unfolding vb_withdraw_def by (elim rbindE) (auto simp: asset_sub_part)

lemma vesting_withdraw_moves:
  assumes "vesting_withdraw_apply op st = Inr st'"
  shows "moves (\<lambda>A. 0) st st'"
  using assms unfolding vesting_withdraw_apply_def
proof (elim rbindE, goal_cases)
  case (1 vb vb')
  let ?s = "st\<lparr>vesting_balances := fmupd (vw_vesting_balance op) vb' (vesting_balances st)\<rparr>"
  have "moves (\<lambda>A. part A (vb_balance vb') - part A (vb_balance vb)) st ?s"
    using 1(1) by (auto simp: moves_def chain_ok_def excess_def fmsum_fmupd intro: unused_fmupd)
  then show ?case
    by (rule moves_cong[OF moves_seq[OF _ adjust_balance_moves[OF 1(3)]]]) (simp add: vb_withdraw_part[OF 1(2)])
qed

end
