(* ===== verification/Governance_Conservation.thy ===== *)
theory Governance_Conservation
  imports Fee_Framework Governance_Evaluators
begin

text \<open>How the evaluators of accounts, votable objects, withdrawal permissions and genesis balances change the excess of
  each asset, one lemma per operation. Most of them touch tables that hold no money: \<open>same_money\<close>.\<close>

definition same_money :: "chain_state \<Rightarrow> chain_state \<Rightarrow> bool" where
  "same_money st st' \<longleftrightarrow> balances st' = balances st \<and> settlements st' = settlements st \<and> statistics st' = statistics st \<and>
    limit_orders st' = limit_orders st \<and> call_orders st' = call_orders st \<and> dyn_data st' = dyn_data st \<and>
    bitassets st' = bitassets st \<and> vesting_balances st' = vesting_balances st \<and> balance_objects st' = balance_objects st \<and>
    fba_accumulators st' = fba_accumulators st \<and> witness_budget (dgp st') = witness_budget (dgp st) \<and> dgp_time (dgp st') = dgp_time (dgp st) \<and>
    next_account st' = next_account st \<and> next_asset st' = next_asset st \<and> next_limit_order st' = next_limit_order st \<and>
    next_call_order st' = next_call_order st \<and> next_settlement st' = next_settlement st \<and>
    next_vesting_balance st' = next_vesting_balance st \<and>
    (\<forall>i a'. fmlookup (assets st') i = Some a' \<longrightarrow> (\<exists>a. fmlookup (assets st) i = Some a \<and> options a' = options a))"

lemma same_money_moves: "same_money st st' \<Longrightarrow> moves (\<lambda>A. 0) st st'"
  unfolding same_money_def moves_def chain_ok_def excess_def by simp metis

lemma same_money_refl [simp]: "same_money st st"
  by (simp add: same_money_def)

section \<open>Accounts\<close>

lemma modify_account_same: "modify_account i f st = Inr st' \<Longrightarrow> same_money st st'"
  by (auto simp: modify_account_def same_money_def)

lemma new_statistics_moves:
  "moves (\<lambda>A. 0) st (st\<lparr>accounts := t, statistics := fmupd (next_account st)
     \<lparr>total_core_in_orders = 0, lifetime_fees_paid = 0, pending_fees = 0, pending_vested_fees = 0\<rparr> (statistics st),
     next_account := next_account st + 1\<rparr>)"
  by (auto simp: moves_def chain_ok_def excess_def fmsum_fmupd stats_part_def intro: unused_create[simplified])

lemma count_registration_same: "count_registration st = Inr st' \<Longrightarrow> same_money st st'"
  by (auto simp: count_registration_def Let_def same_money_def split: if_splits)

lemma account_create_moves:
  assumes "account_create_apply op st = Inr (i, st')"
  shows "moves (\<lambda>A. 0) st st'"
  using assms unfolding account_create_apply_def Let_def
proof (elim res_elims, goal_cases)
  case (1 ref s1)
  note created = moves0_trans[OF new_statistics_moves same_money_moves[OF count_registration_same[OF 1(3)]]]
  have "same_money s1 st'"
    using 1(4) by (auto simp: same_money_def modify_asset_def split: option.splits if_splits)
  then show ?case using moves0_trans[OF created same_money_moves] by blast
qed

lemma account_update_moves: "account_update_apply op st = Inr st' \<Longrightarrow> moves (\<lambda>A. 0) st st'"
  unfolding account_update_apply_def Let_def
  by (rule same_money_moves)
    (auto simp: modify_account_def same_money_def split: if_splits option.splits)

lemma account_whitelist_moves: "account_whitelist_apply op st = Inr st' \<Longrightarrow> moves (\<lambda>A. 0) st st'"
  unfolding account_whitelist_apply_def Let_def
  by (elim rbindE) (intro moves0_trans[OF same_money_moves same_money_moves] modify_account_same)

lemma account_upgrade_moves: "account_upgrade_apply op st = Inr st' \<Longrightarrow> moves (\<lambda>A. 0) st st'"
  unfolding account_upgrade_apply_def Let_def
  by (elim run_elims)
    (auto intro: moves0_trans[OF process_fees_moves same_money_moves[OF modify_account_same]] same_money_moves[OF modify_account_same])

section \<open>Votable objects\<close>

lemma take_vote_id_same: "take_vote_id t st = (v, st') \<Longrightarrow> same_money st st'"
  by (auto simp: take_vote_id_def get_next_vote_id_def same_money_def)

lemma witness_create_moves: "witness_create_apply op st = Inr (i, st') \<Longrightarrow> moves (\<lambda>A. 0) st st'"
  by (auto simp: witness_create_apply_def take_vote_id_def get_next_vote_id_def same_money_def Let_def intro!: same_money_moves)

lemma witness_update_moves: "witness_update_apply op st = Inr st' \<Longrightarrow> moves (\<lambda>A. 0) st st'"
  by (auto simp: witness_update_apply_def modify_witness_def same_money_def intro!: same_money_moves)

lemma committee_member_create_moves: "committee_member_create_apply op st = Inr (i, st') \<Longrightarrow> moves (\<lambda>A. 0) st st'"
  by (auto simp: committee_member_create_apply_def take_vote_id_def get_next_vote_id_def same_money_def Let_def
      intro!: same_money_moves)

lemma committee_member_update_moves: "committee_member_update_apply op st = Inr st' \<Longrightarrow> moves (\<lambda>A. 0) st st'"
  by (auto simp: committee_member_update_apply_def intro!: moves_refl)

lemma update_global_parameters_moves: "update_global_parameters_apply op st = Inr st' \<Longrightarrow> moves (\<lambda>A. 0) st st'"
  by (auto simp: update_global_parameters_apply_def same_money_def intro!: same_money_moves)

lemma init_worker_moves:
  assumes "init_worker x owner st = (w, st')"
  shows "moves (\<lambda>A. 0) st st'"
  using assms
  by (cases x) (auto simp: moves_refl moves_def chain_ok_def excess_def fmsum_fmupd intro: unused_create[simplified])

lemma worker_create_moves:
  assumes "worker_create_apply op st = Inr (i, st')"
  shows "moves (\<lambda>A. 0) st st'"
proof -
  obtain f s1 a s2 w s3 where s: "take_vote_id Worker st = (f, s1)" "take_vote_id Worker s1 = (a, s2)"
      "init_worker (initializer op) (wk_owner op) s2 = (w, s3)"
    by (metis surj_pair)
  have "same_money s3 st'" using assms s by (auto simp: worker_create_apply_def Let_def same_money_def)
  then show ?thesis
    using s take_vote_id_same init_worker_moves same_money_moves moves0_trans by meson
qed

section \<open>Withdrawal permissions\<close>

lemma modify_permission_same: "modify_permission i f st = Inr st' \<Longrightarrow> same_money st st'"
  by (auto simp: modify_permission_def same_money_def)

lemma withdraw_permission_create_moves: "withdraw_permission_create_apply op st = Inr (i, st') \<Longrightarrow> moves (\<lambda>A. 0) st st'"
  by (auto simp: withdraw_permission_create_apply_def same_money_def Let_def intro!: same_money_moves)

lemma withdraw_permission_update_moves: "withdraw_permission_update_apply op st = Inr st' \<Longrightarrow> moves (\<lambda>A. 0) st st'"
  unfolding withdraw_permission_update_apply_def by (rule same_money_moves[OF modify_permission_same])

lemma withdraw_permission_claim_moves: "withdraw_permission_claim_apply op st = Inr st' \<Longrightarrow> moves (\<lambda>A. 0) st st'"
  unfolding withdraw_permission_claim_apply_def
  by (elim rbindE) (intro moves0_trans[OF same_money_moves[OF modify_permission_same] move_balance_moves])

lemma withdraw_permission_delete_moves: "withdraw_permission_delete_apply op st = Inr st' \<Longrightarrow> moves (\<lambda>A. 0) st st'"
  by (auto simp: withdraw_permission_delete_apply_def same_money_def intro!: same_money_moves)

section \<open>Genesis balances\<close>

text \<open>A policy never lets more be claimed than the balance holds.\<close>

lemma linear_allowed_le_balance:
  assumes "linear_is_withdraw_allowed p (balance_ctx b now a) = Inr True" "genesis_ok b" "bo_vesting b = Some p" "now < 2 ^ 32"
  shows "asset_id a = asset_id (bo_balance b) \<and> amount a \<le> amount (bo_balance b)"
proof -
  obtain w where w: "linear_get_allowed_withdraw p (balance_ctx b now a) = Inr w" "amount a \<le> amount w"
      "asset_id a = asset_id (bo_balance b)"
    using assms(1) by (auto simp: linear_is_withdraw_allowed_def asset_le_def asset_lt_def balance_ctx_def split: if_splits)
  define e where "e = now - begin_timestamp p"
  have b: "0 \<le> begin_balance p" "begin_balance p \<le> MAX_SHARE_SUPPLY" "e < 2 ^ 32" "0 \<le> amount (bo_balance b)"
    using assms(2-4) by (auto simp: genesis_ok_def e_def)
  have "share_of_u64 (u128 (u128 (begin_balance p) * e) div vesting_duration_seconds p) \<le> begin_balance p"
    if e: "0 \<le> e" "e < vesting_duration_seconds p"
  proof -
    have "begin_balance p * e \<le> MAX_SHARE_SUPPLY * 2 ^ 32" using b e by (intro mult_mono) auto
    then have "u128 (u128 (begin_balance p) * e) = begin_balance p * e"
      using b e by (simp add: u128_small MAX_SHARE_SUPPLY_def)
    then show ?thesis using mult_div_le_self[of "begin_balance p" e "vesting_duration_seconds p"] b e
      by (simp add: share_of_u64_def)
  qed
  then have "amount w \<le> amount (bo_balance b)"
    using w(1) b by (auto simp: linear_get_allowed_withdraw_def Let_def e_def to_uint64_def balance_ctx_def
        split: if_splits dest!: safe_sub_Inr)
  then show ?thesis using w by auto
qed

lemma balance_remove_moves:
  "fmlookup (balance_objects st) i = Some b \<Longrightarrow>
    moves (\<lambda>A. - part A (bo_balance b)) st (st\<lparr>balance_objects := fmdrop i (balance_objects st)\<rparr>)"
  by (auto simp: moves_def chain_ok_def excess_def fmsum_fmdrop split: if_split_asm)

lemma balance_update_moves:
  "fmlookup (balance_objects st) i = Some b \<Longrightarrow> genesis_ok b' \<Longrightarrow>
    moves (\<lambda>A. part A (bo_balance b') - part A (bo_balance b)) st (st\<lparr>balance_objects := fmupd i b' (balance_objects st)\<rparr>)"
  by (auto simp: moves_def chain_ok_def excess_def fmsum_fmupd split: if_split_asm)

lemma claim_part_moves:
  assumes "claim_part op b st = Inr st'" "fmlookup (balance_objects st) (balance_to_claim op) = Some b" "genesis_ok b"
    "case bo_vesting b of None \<Rightarrow> total_claimed op = bo_balance b
     | Some p \<Rightarrow> asset_id (total_claimed op) = asset_id (bo_balance b) \<and> amount (total_claimed op) \<le> amount (bo_balance b)"
  shows "moves (\<lambda>A. - part A (total_claimed op)) st st'"
proof (cases "bo_vesting b")
  case None
  then show ?thesis using assms balance_remove_moves[OF assms(2)] by (simp add: claim_part_def)
next
  case (Some p)
  show ?thesis
  proof (cases "amount (total_claimed op) < amount (bo_balance b)")
    case True
    obtain rest where r: "asset_sub (bo_balance b) (total_claimed op) = Inr rest"
      "st' = st\<lparr>balance_objects := fmupd (balance_to_claim op)
         (b\<lparr>bo_vesting := Some p, bo_balance := rest, last_claim_date := head_block_time st\<rparr>) (balance_objects st)\<rparr>"
      using assms(1) Some True by (auto simp: claim_part_def asset_lt_def linear_on_withdraw_def)
    then have sub: "amount rest = amount (bo_balance b) - amount (total_claimed op)" "asset_id rest = asset_id (bo_balance b)"
      by (auto simp: asset_sub_def dest!: safe_sub_Inr)
    show ?thesis unfolding r(2)
      by (rule moves_cong[OF balance_update_moves[OF assms(2)]])
        (use assms(3,4) Some True sub in \<open>auto simp: genesis_ok_def part_def\<close>)
  next
    case False
    then have "total_claimed op = bo_balance b" using assms(4) Some by simp
    moreover have "st' = st\<lparr>balance_objects := fmdrop (balance_to_claim op) (balance_objects st)\<rparr>"
      using assms(1) Some False by (auto simp: claim_part_def asset_lt_def)
    ultimately show ?thesis using balance_remove_moves[OF assms(2)] by simp
  qed
qed

lemma balance_claim_moves:
  assumes "balance_claim_apply op st = Inr st'" "balance_claim_evaluate op s0 = Inr ()"
    "balance_objects s0 = balance_objects st" "dgp s0 = dgp st"
  shows "moves (\<lambda>A. 0) st st'"
proof -
  obtain b s1 where b: "fmlookup (balance_objects st) (balance_to_claim op) = Some b" "claim_part op b st = Inr s1"
      "adjust_balance (deposit_to_account op) (total_claimed op) s1 = Inr st'"
    using assms(1) by (auto simp: balance_claim_apply_def)
  have "moves (\<lambda>A. 0) st st'" if ok: "chain_ok st"
  proof -
    have g: "genesis_ok b" "head_block_time s0 < 2 ^ 32"
      using ok b(1) assms(4) by (auto simp: chain_ok_def head_block_time_def)
    have "case bo_vesting b of None \<Rightarrow> total_claimed op = bo_balance b
     | Some p \<Rightarrow> asset_id (total_claimed op) = asset_id (bo_balance b) \<and> amount (total_claimed op) \<le> amount (bo_balance b)"
      using assms(2,3) b(1) linear_allowed_le_balance[OF _ g(1) _ g(2)]
      by (auto simp: balance_claim_evaluate_def split: option.splits)
    from moves_seq[OF claim_part_moves[OF b(2,1) g(1) this] adjust_balance_moves[OF b(3)]]
    show ?thesis by (rule moves_cong) simp
  qed
  then show ?thesis by (auto simp: moves_def)
qed

lemmas governance_moves = account_create_moves account_update_moves account_whitelist_moves account_upgrade_moves
  witness_create_moves witness_update_moves committee_member_create_moves committee_member_update_moves
  update_global_parameters_moves worker_create_moves withdraw_permission_create_moves withdraw_permission_update_moves
  withdraw_permission_claim_moves withdraw_permission_delete_moves

end
