(* ===== verification/Operation_Conservation.thy ===== *)
theory Operation_Conservation
  imports Dispatch Asset_Conservation Governance_Conservation
begin

text \<open>Every operation keeps the contract of the fee framework: the locale \<open>evaluator\<close> is interpreted for all operations,
  and with it a whole evaluation creates and destroys nothing, apart from the creation of assets.\<close>

section \<open>Every operation keeps the contract\<close>

text \<open>The states an operation is sound in, given the ranges of its fields' C++ types and its validation.\<close>

fun op_ready :: "operation \<Rightarrow> chain_state \<Rightarrow> bool" where
  "op_ready (LimitOrderCreate op) st = in_i64 (amount (amount_to_sell op))"
| "op_ready (CallOrderUpdate op) st = backed_alike op st"
| "op_ready (AssetCreate op) st = fee_options_ok (common_options op)"
| "op_ready (AssetUpdate op) st = fee_options_ok (new_options op)"
| "op_ready _ st = True"

fun op_gain :: "operation \<Rightarrow> int \<Rightarrow> nat \<Rightarrow> int" where
  "op_gain (AssetCreate op) c A = part A (mk_asset c 0)"
| "op_gain _ c A = 0"

fun defers :: "operation \<Rightarrow> bool" where
  "defers (LimitOrderCreate op) = True"
| "defers _ = False"

lemma no_resultE:
  assumes "no_result f c d st = Inr (r, st')" obtains "f st = Inr st'"
  using assms by (auto simp: no_result_def)

lemma new_objectE:
  assumes "new_object f c d st = Inr (r, st')" obtains i where "f st = Inr (i, st')"
  using assms by (auto simp: new_object_def)

lemma do_apply_moves:
  assumes "do_evaluate es op c st = Inr c'" "op_ready op st" "fee_step st s1" "0 \<le> d" "d = 0 \<or> defers op"
    "do_apply op c' d s1 = Inr (r, s2)"
  shows "moves (\<lambda>A. op_gain op c' A + part A (mk_asset d 0)) s1 s2"
proof -
  note frame = fee_stepD[OF assms(3)]
  show ?thesis
  proof (cases op)
    case (CallOrderUpdate x)
    then have "backed_alike x s1" using assms(2) frame by (simp add: backed_alike_def find_call_order_def)
    then show ?thesis using assms(5,6) CallOrderUpdate call_order_update_moves by (auto simp: no_result_def)
  next
    case (AssetUpdateBitasset x)
    have "\<exists>b. fmlookup (bitassets s1) (ab_asset x) = Some b \<and> \<not> has_settlement b"
      using assms(1) frame by (auto simp: AssetUpdateBitasset same_fee_def asset_update_bitasset_evaluate_def)
    then show ?thesis using assms(5,6) AssetUpdateBitasset asset_update_bitasset_moves by (auto simp: no_result_def)
  next
    case (LimitOrderCreate x)
    then show ?thesis using assms limit_order_create_moves by (auto simp: new_object_def)
  next
    case (AssetCreate x)
    then show ?thesis using assms asset_create_moves[of x c' s1 _ s2] by (auto simp: new_object_def)
  next
    case (AssetUpdate x)
    then show ?thesis using assms asset_update_moves by (auto simp: no_result_def)
  next
    case (AssetSettle x)
    then show ?thesis using assms asset_settle_moves by auto
  next
    case (VestingBalanceCreate x)
    then show ?thesis using assms vesting_create_moves by (auto simp: new_object_def)
  next
    case (LimitOrderCancel x)
    then show ?thesis using assms limit_order_cancel_moves by auto
  next
    case (BalanceClaim x)
    then have "balance_claim_apply x s1 = Inr s2" "balance_claim_evaluate x st = Inr ()" "d = 0"
      using assms(1,5,6) by (auto simp: no_result_def same_fee_def)
    from balance_claim_moves[OF this(1,2)] this(3) frame show ?thesis by (simp add: BalanceClaim)
  qed (use assms(5,6) in \<open>auto simp: transfer_apply_def override_transfer_apply_def elim!: no_resultE new_objectE
      intro: moves_refl move_balance_moves asset_update_feed_producers_moves asset_issue_moves asset_reserve_moves
        asset_fund_fee_pool_moves asset_global_settle_moves asset_publish_feed_moves asset_claim_fees_moves
        vesting_withdraw_moves governance_moves\<close>)
qed

lemma do_evaluate_fee:
  assumes "do_evaluate es op c st = Inr c'"
  shows "c' = (case op of AssetCreate _ \<Rightarrow> c - c div 2 | _ \<Rightarrow> c)"
proof (cases op)
  case (AssetCreate x)
  then show ?thesis using assms by (auto simp: asset_create_evaluate_def dest!: safe_sub_Inr)
qed (use assms in \<open>auto simp: same_fee_def\<close>)

lemma op_pays_fee: "pays_fee (defers op) (op_pay_fee op)"
  by (cases op) (auto simp: pays_fee_pay_fee pays_fee_limit_order)

interpretation operation: evaluator "defers op" "do_evaluate es op" "op_pay_fee op" "do_apply op" "op_ready op" "op_gain op"
  for op es
proof
  show "pays_fee (defers op) (op_pay_fee op)" by (rule op_pays_fee)
next
  fix c st c' assume "do_evaluate es op c st = Inr c'" "0 \<le> c"
  then show "0 \<le> c'" using do_evaluate_fee[of es op c st c'] by (auto split: operation.splits)
qed (rule do_apply_moves)

section \<open>Properties\<close>

text \<open>The ranges of the C++ types that matter, and the shape of the market: open positions hold the backing asset of
  the asset they owe.\<close>

fun op_typed :: "operation \<Rightarrow> bool" where
  "op_typed (LimitOrderCreate op) = in_i64 (amount (amount_to_sell op))"
| "op_typed (AssetCreate op) = (0 \<le> market_fee_percent (common_options op))"
| "op_typed (AssetUpdate op) = (0 \<le> market_fee_percent (new_options op))"
| "op_typed _ = True"

definition positions_backed :: "chain_state \<Rightarrow> bool" where
  "positions_backed st \<longleftrightarrow> (\<forall>i c b. fmlookup (call_orders st) i = Some c \<longrightarrow>
     fmlookup (bitassets st) (asset_id (get_debt c)) = Some b \<longrightarrow>
     asset_id (get_collateral c) = short_backing_asset (bit_options b))"

lemma op_ready_validated:
  assumes "op_validate early op = Inr u" "op_typed op" "positions_backed st" "do_evaluate es op c st = Inr c'"
  shows "op_ready op st"
proof (cases op)
  case (CallOrderUpdate x)
  then have "call_order_update_evaluate x st = Inr ()" using assms(4) by (simp add: same_fee_def)
  then obtain b where b: "fmlookup (bitassets st) (asset_id (delta_debt x)) = Some b"
      "asset_id (delta_collateral x) = short_backing_asset (bit_options b)"
    unfolding call_order_update_evaluate_def by (elim res_elims) simp
  show ?thesis using assms(3) b find_call_order_Some[of "funding_account x" "asset_id (delta_debt x)" st]
    by (auto simp: CallOrderUpdate backed_alike_def positions_backed_def split: option.splits)
qed (use assms(1,2) in \<open>auto simp: fee_options_ok_def asset_create_validate_def asset_update_validate_def
      dest!: asset_options_validate_fees\<close>)

lemma evaluate_operation_evaluates:
  assumes "evaluate_operation schedule es op st = Inr (r, st')"
  obtains core c where "prepare_fee (fee_payer op) (op_fee op) st = Inr core" "do_evaluate es op core st = Inr c"
  using assms unfolding evaluate_operation_def start_evaluate_def by (elim rbindE)

lemma evaluate_operation_moves:
  assumes "evaluate_operation schedule es op st = Inr (r, st')" "\<not> skip_fee es"
    "op_validate early op = Inr u" "op_typed op" "positions_backed st"
  obtains core c where "prepare_fee (fee_payer op) (op_fee op) st = Inr core" "do_evaluate es op core st = Inr c"
    "moves (\<lambda>A. op_gain op c A +
      (if asset_id (op_fee op) = 0 then part A (mk_asset (c - amount (op_fee op)) 0) else 0)) st st'"
proof -
  obtain core0 c0 where "do_evaluate es op core0 st = Inr c0" using evaluate_operation_evaluates[OF assms(1)] .
  then have "op_ready op st" by (rule op_ready_validated[OF assms(3-5)])
  from operation.start_moves[OF assms(1)[unfolded evaluate_operation_def] assms(2) this] show thesis
    using that by blast
qed

lemma prepare_fee_core: "prepare_fee acct fee st = Inr c \<Longrightarrow> asset_id fee = 0 \<Longrightarrow> c = amount fee"
  unfolding prepare_fee_def by (elim run_elims) auto

text \<open>C28: evaluating a valid operation other than the creation of an asset, with its fee, its market effects, its
  settlements and its new objects, creates and destroys nothing and keeps the state well-formed.\<close>

theorem evaluate_operation_conserves:
  assumes "chain_ok st" and "positions_backed st" and "op_validate early op = Inr ()" and "op_typed op"
    and "evaluate_operation schedule es op st = Inr (result, st')" and "\<not> skip_fee es"
    and "\<nexists>x. op = AssetCreate x"
  shows "(\<forall>A. excess st' A = excess st A) \<and> chain_ok st'"
  using evaluate_operation_moves[OF assms(5,6,3,4,2)]
proof cases
  case (1 core c)
  have "c = core" using do_evaluate_fee[OF 1(2)] assms(7) by (cases op) auto
  then have "moves (\<lambda>A. 0) st st'"
    using 1(3) prepare_fee_core[OF 1(1)] assms(7) by (cases op) (auto elim!: moves_cong)
  then show ?thesis using assms(1) by (simp add: moves_def)
qed

definition fixed_fee :: "operation \<Rightarrow> int res" where "fixed_fee op = Inr 20"

definition example_transfer :: operation where
  "example_transfer = Transfer \<lparr>tr_fee = mk_asset 20 0, tr_from = 12, tr_to = 11, tr_amount = mk_asset 400 1\<rparr>"

definition paying_state :: transaction_evaluation_state where
  "paying_state = \<lparr>skip_fee = False, skip_fee_schedule_check = False, is_proposed_trx = False\<rparr>"

lemma example_positions: "positions_backed example_chain"
  by (simp add: positions_backed_def example_chain_defs)

lemma evaluate_operation_conserves_witness:
  "\<exists>result st'. evaluate_operation fixed_fee paying_state example_transfer example_chain = Inr (result, st') \<and>
    (\<forall>A. excess st' A = excess example_chain A) \<and> chain_ok st'"
proof -
  have "is_ok (evaluate_operation fixed_fee paying_state example_transfer example_chain)" by code_simp
  then obtain result st' where r: "evaluate_operation fixed_fee paying_state example_transfer example_chain = Inr (result, st')"
    by (auto simp: is_ok_iff)
  have "op_validate False example_transfer = Inr ()" by code_simp
  then show ?thesis using r evaluate_operation_conserves[OF example_chain_ok example_positions _ _ r]
    by (simp add: paying_state_def example_transfer_def)
qed

text \<open>C29: creating an asset creates core out of nothing whenever the core value of its fee is odd or the fee is paid in
  another asset: half of the fee, rounded up, funds the new fee pool and the same amount is paid as fee, but a fee in
  another asset takes only one such half out of its fee pool.\<close>

theorem asset_create_surplus:
  assumes "chain_ok st" and "positions_backed st" and "op_validate early (AssetCreate x) = Inr ()" and "op_typed (AssetCreate x)"
    and "evaluate_operation schedule es (AssetCreate x) st = Inr (result, st')" and "\<not> skip_fee es"
    and "prepare_fee (ac_issuer x) (ac_fee x) st = Inr core"
  shows "excess st' A - excess st A =
    (if A \<noteq> 0 then 0 else if asset_id (ac_fee x) = 0 then core mod 2 else core - core div 2)"
  using evaluate_operation_moves[OF assms(5,6,3,4,2)]
proof cases
  case (1 core' c)
  have core: "core' = core" "c = core - core div 2" using 1(1,2) assms(7) do_evaluate_fee[OF 1(2)] by auto
  have "excess st' A = excess st A + (part A (mk_asset c 0) +
      (if asset_id (ac_fee x) = 0 then part A (mk_asset (c - amount (ac_fee x)) 0) else 0))"
    using 1(3) assms(1) by (simp add: moves_def)
  then show ?thesis using core prepare_fee_core[OF assms(7)] by auto presburger+
qed

definition new_coin :: asset_create_operation where
  "new_coin = \<lparr>ac_fee = mk_asset 101 0, ac_issuer = 12, symbol = ''NEWCOIN'', precision = 3,
     common_options = plain_options\<lparr>opt_core_exchange_rate := \<lparr>base = mk_asset 1 0, quote = mk_asset 1 1\<rparr>\<rparr>,
     bitasset_opts = None, ac_prediction_market = False\<rparr>"

lemma asset_create_surplus_witness:
  "\<exists>result st'. evaluate_operation fixed_fee paying_state (AssetCreate new_coin) example_chain = Inr (result, st') \<and>
    excess st' 0 - excess example_chain 0 = 1"
proof -
  have "is_ok (evaluate_operation fixed_fee paying_state (AssetCreate new_coin) example_chain)" by code_simp
  then obtain result st' where r: "evaluate_operation fixed_fee paying_state (AssetCreate new_coin) example_chain = Inr (result, st')"
    by (auto simp: is_ok_iff)
  have v: "op_validate early (AssetCreate new_coin) = Inr ()" by code_simp
  have f: "prepare_fee (ac_issuer new_coin) (ac_fee new_coin) example_chain = Inr 101" by code_simp
  show ?thesis
    using asset_create_surplus[OF example_chain_ok example_positions v _ r _ f, of 0] r
    by (simp add: paying_state_def new_coin_def plain_options_def)
qed

text \<open>Balances are changed by the fee and the transfer only.\<close>

lemma adjust_balance_balance:
  assumes "adjust_balance a d st = Inr st'"
  shows "amount (get_balance st' c i) = amount (get_balance st c i) + (if c = a \<and> i = asset_id d then amount d else 0)"
proof -
  have "amount (get_balance s c i) = fmval (\<lambda>_ x. x) (balances s) (c, i)" for s
    by (simp add: get_balance_def fmval_def)
  then show ?thesis using adjust_balance_cases[OF assms] by auto
qed

lemma fee_step_balance: "fee_step st st' \<Longrightarrow> get_balance st' = get_balance st"
  by (cases st; cases st') (simp add: fee_step_def get_balance_def fun_eq_iff)

text \<open>C30: a transfer that succeeds takes the amount and the fee from the sender, gives the amount to the receiver and
  leaves every other balance as it was; the sender's balance covered both.\<close>

theorem transfer_exact:
  assumes "evaluate_operation schedule es (Transfer op) st = Inr (result, st')" and "\<not> skip_fee es"
    and "op_validate early (Transfer op) = Inr ()"
  shows "amount (get_balance st' c i) = amount (get_balance st c i)
    - (if c = tr_from op \<and> i = asset_id (tr_amount op) then amount (tr_amount op) else 0)
    - (if c = tr_from op \<and> i = asset_id (tr_fee op) then amount (tr_fee op) else 0)
    + (if c = tr_to op \<and> i = asset_id (tr_amount op) then amount (tr_amount op) else 0)"
  using assms(1) unfolding evaluate_operation_def start_evaluate_def
proof (elim rbind_pairE rbindE, goal_cases)
  case (1 core u c' s1 d s2 r s3 charge s4)
  have fs: "fee_step st s2"
    using convert_fee_moves[OF 1(4) assms(2)] pays_fee_pay_fee[of False] 1(5) assms(2) fee_step_trans
    unfolding pays_fee_def by (metis op_pay_fee.simps(2))
  obtain n m where n: "asset_neg (tr_amount op) = Inr n" "adjust_balance (tr_from op) n s2 = Inr m"
      "adjust_balance (tr_to op) (tr_amount op) m = Inr s3"
    using 1(6) by (auto simp: no_result_def transfer_apply_def move_balance_def)
  have neg: "amount n = - amount (tr_amount op)" "asset_id n = asset_id (tr_amount op)"
    "amount charge = - amount (tr_fee op)" "asset_id charge = asset_id (tr_fee op)"
    using n(1) 1(7) by (auto simp: asset_neg_def dest!: safe_neg_Inr)
  show ?case
    using adjust_balance_balance[OF n(2), of c i] adjust_balance_balance[OF n(3), of c i]
      adjust_balance_balance[OF 1(8), of c i] fee_step_balance[OF fs] 1(9) neg
    by (simp split: if_splits)
qed

lemma transfer_exact_witness:
  "\<exists>op result st'. evaluate_operation fixed_fee paying_state (Transfer op) example_chain = Inr (result, st') \<and>
    amount (get_balance st' 11 1) = 400 \<and> amount (get_balance st' 12 0) = 8930"
proof -
  let ?op = "\<lparr>tr_fee = mk_asset 20 0, tr_from = 12, tr_to = 11, tr_amount = mk_asset 400 1\<rparr>"
  have "is_ok (evaluate_operation fixed_fee paying_state (Transfer ?op) example_chain)" by code_simp
  then obtain result st' where r: "evaluate_operation fixed_fee paying_state (Transfer ?op) example_chain = Inr (result, st')"
    by (auto simp: is_ok_iff)
  have v: "op_validate early (Transfer ?op) = Inr ()" by code_simp
  have "amount (get_balance st' 11 1) = 400" "amount (get_balance st' 12 0) = 8930"
    using transfer_exact[OF r _ v, of 11 1] transfer_exact[OF r _ v, of 12 0]
    by (simp_all add: paying_state_def get_balance_def example_chain_defs)
  with r show ?thesis by blast
qed

end
