(* ===== verification/Withdraw_Permissions.thy ===== *)
theory Withdraw_Permissions
  imports Governance_Conservation
begin

text \<open>What a withdrawal permission promises to the account that grants it: in no withdrawal period more than the limit is
  claimed. A history is any sequence of claims of one permission, with other activity in between that leaves the
  permission alone.\<close>

section \<open>Histories of claims\<close>

inductive claim_history :: "nat \<Rightarrow> chain_state \<Rightarrow> (int \<times> int) list \<Rightarrow> chain_state \<Rightarrow> bool" for i st where
  start: "claim_history i st [] st"
| claim: "claim_history i st cs s \<Longrightarrow> withdraw_permission op = i \<Longrightarrow> op_validate early (WithdrawPermissionClaim op) = Inr () \<Longrightarrow>
    withdraw_permission_claim_evaluate op s = Inr () \<Longrightarrow> withdraw_permission_claim_apply op s = Inr s' \<Longrightarrow>
    claim_history i st (cs @ [(head_block_time s, amount (amount_to_withdraw op))]) s'"
| other: "claim_history i st cs s \<Longrightarrow> fmlookup (withdraw_permissions s') i = fmlookup (withdraw_permissions s) i \<Longrightarrow>
    head_block_time s \<le> head_block_time s' \<Longrightarrow> claim_history i st cs s'"

definition claimed_in :: "int \<Rightarrow> int \<Rightarrow> int \<Rightarrow> (int \<times> int) list \<Rightarrow> int" where
  "claimed_in start0 period k cs = sum_list (map snd (filter (\<lambda>(t, _). (t - start0) div period = k) cs))"

lemma claimed_in_snoc:
  "claimed_in s p k (cs @ [(t, a)]) = claimed_in s p k cs + (if (t - s) div p = k then a else 0)"
  by (simp add: claimed_in_def)

lemma claimed_in_none: "(\<And>t a. (t, a) \<in> set cs \<Longrightarrow> (t - s) div p \<noteq> k) \<Longrightarrow> claimed_in s p k cs = 0"
  by (induction cs) (auto simp: claimed_in_def)

section \<open>One claim\<close>

lemma move_balance_frame: "move_balance f t a st = Inr st' \<Longrightarrow> \<exists>b. st' = st\<lparr>balances := b\<rparr>"
  by (auto simp: move_balance_def dest!: adjust_balance_frame)

lemma claim_apply_permission:
  assumes "withdraw_permission_claim_apply op st = Inr st'"
  shows "\<exists>p p'. fmlookup (withdraw_permissions st) (withdraw_permission op) = Some p \<and>
    claim_period (head_block_time st) (amount (amount_to_withdraw op)) p = Inr p' \<and>
    fmlookup (withdraw_permissions st') (withdraw_permission op) = Some p' \<and> head_block_time st' = head_block_time st"
  using assms by (auto simp: withdraw_permission_claim_apply_def modify_permission_def head_block_time_def
      dest!: move_balance_frame)

lemma claim_evaluate_available:
  assumes "withdraw_permission_claim_evaluate op st = Inr u"
    "fmlookup (withdraw_permissions st) (withdraw_permission op) = Some p"
  shows "\<exists>a. available_this_period p (head_block_time st) = Inr a \<and> amount (amount_to_withdraw op) \<le> amount a"
  using assms(1) unfolding withdraw_permission_claim_evaluate_def Let_def
  by (elim res_elims) (use assms(2) in \<open>auto simp: asset_le_def asset_lt_def split: if_splits\<close>)

text \<open>A claim at or after the start of the period the permission records: the recorded period moves to the one that
  contains the time of the claim, and what was claimed in it stays within the limit.\<close>

lemma claim_period_step:
  assumes "claim_period now amt p = Inr p'" "available_this_period p now = Inr a" "amt \<le> amount a" "0 < amt"
    "0 < withdrawal_period_sec p" "period_start_time p \<le> now" "0 \<le> period_start_time p" "now + withdrawal_period_sec p < 2 ^ 32"
    "0 \<le> claimed_this_period p"
  defines "m \<equiv> (now - period_start_time p) div withdrawal_period_sec p"
  shows "0 \<le> m \<and> withdrawal_limit p' = withdrawal_limit p \<and> withdrawal_period_sec p' = withdrawal_period_sec p \<and>
    period_start_time p' = period_start_time p + m * withdrawal_period_sec p \<and> period_start_time p' \<le> now \<and>
    claimed_this_period p' = (if m = 0 then claimed_this_period p + amt else amt) \<and>
    claimed_this_period p' \<le> amount (withdrawal_limit p)"
proof -
  let ?d = "withdrawal_period_sec p" and ?s = "period_start_time p"
  have m: "0 \<le> m" "now - ?s = m * ?d + (now - ?s) mod ?d" "0 \<le> (now - ?s) mod ?d" "(now - ?s) mod ?d < ?d"
    using assms(5,6) by (auto simp: m_def pos_imp_zdiv_nonneg_iff)
  have q: "(now - ?s) sdiv ?d = m" using assms(5,6) by (simp add: m_def)
  have md: "0 \<le> m * ?d" using m(1) assms(5) by simp
  have s': "(?s + m * ?d) mod 2 ^ 32 = ?s + m * ?d"
    by (rule mod_pos_pos_trivial) (use m md assms(5,7,8) in linarith)+
  have "m = 0 \<longleftrightarrow> now < ?s + ?d"
  proof
    assume "m = 0" then show "now < ?s + ?d" using m by simp
  next
    assume "now < ?s + ?d"
    then show "m = 0" using assms(6) by (simp add: m_def div_pos_pos_trivial)
  qed
  moreover have "(?s + ?d) mod 2 ^ 32 = ?s + ?d" using assms(5-8) by (intro mod_pos_pos_trivial) linarith+
  ultimately have av: "amt \<le> amount (withdrawal_limit p)" "m = 0 \<Longrightarrow> claimed_this_period p + amt \<le> amount (withdrawal_limit p)"
    using assms(2-4,9) by (auto simp: available_this_period_def split: if_splits dest!: safe_sub_Inr)
  show ?thesis
    using assms(1,5) m av unfolding claim_period_def q Let_def s'
    by (auto split: if_splits dest!: safe_add_Inr)
qed

section \<open>The limit holds in every period\<close>

definition permit_state :: "withdraw_permission_object \<Rightarrow> nat \<Rightarrow> chain_state \<Rightarrow> (int \<times> int) list \<Rightarrow> bool" where
  "permit_state p0 i st cs \<longleftrightarrow> (\<exists>p k. fmlookup (withdraw_permissions st) i = Some p \<and> 0 \<le> k \<and>
     withdrawal_limit p = withdrawal_limit p0 \<and> withdrawal_period_sec p = withdrawal_period_sec p0 \<and>
     period_start_time p = period_start_time p0 + k * withdrawal_period_sec p0 \<and> period_start_time p \<le> head_block_time st \<and>
     0 \<le> claimed_this_period p \<and>
     (\<forall>(t, a)\<in>set cs. (t - period_start_time p0) div withdrawal_period_sec p0 \<le> k) \<and>
     claimed_in (period_start_time p0) (withdrawal_period_sec p0) k cs \<le> claimed_this_period p \<and>
     (\<forall>j. claimed_in (period_start_time p0) (withdrawal_period_sec p0) j cs \<le> amount (withdrawal_limit p0)))"

lemma permit_state_claim:
  assumes "permit_state p0 i st cs" "withdraw_permission op = i" "op_validate early (WithdrawPermissionClaim op) = Inr ()"
    "withdraw_permission_claim_evaluate op st = Inr ()" "withdraw_permission_claim_apply op st = Inr st'"
    "0 < withdrawal_period_sec p0" "0 \<le> period_start_time p0" "head_block_time st + withdrawal_period_sec p0 < 2 ^ 32"
  shows "permit_state p0 i st' (cs @ [(head_block_time st, amount (amount_to_withdraw op))])"
proof -
  let ?d = "withdrawal_period_sec p0" and ?s = "period_start_time p0" and ?now = "head_block_time st"
    and ?amt = "amount (amount_to_withdraw op)"
  obtain p k where p: "fmlookup (withdraw_permissions st) i = Some p" "0 \<le> k" "withdrawal_limit p = withdrawal_limit p0"
      "withdrawal_period_sec p = ?d" "period_start_time p = ?s + k * ?d" "period_start_time p \<le> ?now" "0 \<le> claimed_this_period p"
      "\<forall>(t, a)\<in>set cs. (t - ?s) div ?d \<le> k" "claimed_in ?s ?d k cs \<le> claimed_this_period p"
      "\<forall>j. claimed_in ?s ?d j cs \<le> amount (withdrawal_limit p0)"
    using assms(1) unfolding permit_state_def by blast
  obtain p' where p': "claim_period ?now ?amt p = Inr p'" "fmlookup (withdraw_permissions st') i = Some p'"
      "head_block_time st' = ?now"
    using claim_apply_permission[OF assms(5)] p(1) assms(2) by auto
  obtain a where a: "available_this_period p ?now = Inr a" "?amt \<le> amount a"
    using claim_evaluate_available[OF assms(4)] p(1) assms(2) by auto
  have pos: "0 < ?amt" using assms(3) by simp
  define m where "m = (?now - period_start_time p) div ?d"
  have kd: "0 \<le> k * ?d" using p(2) assms(6) by simp
  have c: "0 \<le> m" "withdrawal_limit p' = withdrawal_limit p0" "withdrawal_period_sec p' = ?d"
      "period_start_time p' = ?s + k * ?d + m * ?d" "period_start_time p' \<le> ?now"
      "claimed_this_period p' = (if m = 0 then claimed_this_period p + ?amt else ?amt)"
      "claimed_this_period p' \<le> amount (withdrawal_limit p0)"
    using claim_period_step[OF p'(1) a pos] p(3-7) assms(6-8) kd by (simp_all add: m_def)
  have idx: "(?now - ?s) div ?d = k + m"
  proof -
    have "?now - ?s = (?now - period_start_time p) + k * ?d" by (simp add: p(5))
    then show ?thesis unfolding m_def using assms(6) by (simp only: div_mult_self1)
  qed
  have new: "claimed_in ?s ?d (k + m) (cs @ [(?now, ?amt)]) \<le> claimed_this_period p'"
  proof (cases "m = 0")
    case False
    then have "claimed_in ?s ?d (k + m) cs = 0" using p(8) c(1) by (intro claimed_in_none) force
    then show ?thesis using c(6) False by (simp add: claimed_in_snoc idx)
  qed (use p(9) c(6) idx in \<open>simp add: claimed_in_snoc\<close>)
  have all: "claimed_in ?s ?d j (cs @ [(?now, ?amt)]) \<le> amount (withdrawal_limit p0)" for j
  proof (cases "j = k + m")
    case True
    then show ?thesis using new c(7) by simp
  next
    case False
    then show ?thesis using p(10) idx by (simp add: claimed_in_snoc)
  qed
  show ?thesis
    unfolding permit_state_def
    by (rule exI[of _ p'], rule exI[of _ "k + m"])
      (use p(2,7,8) p' c pos new all idx in \<open>auto simp: distrib_right\<close>)
qed

lemma claim_history_times:
  assumes "claim_history i st cs s" shows "head_block_time st \<le> head_block_time s"
  using assms by (induction rule: claim_history.induct) (auto dest!: claim_apply_permission)

lemma claim_history_state:
  assumes "claim_history i st cs s" "permit_state p0 i st []" "0 < withdrawal_period_sec p0" "0 \<le> period_start_time p0"
    "head_block_time s + withdrawal_period_sec p0 < 2 ^ 32"
  shows "permit_state p0 i s cs"
  using assms
proof (induction rule: claim_history.induct)
  case (claim cs s op early s')
  have "head_block_time s' = head_block_time s" using claim_apply_permission[OF claim.hyps(5)] by auto
  then show ?case using permit_state_claim[OF claim.IH claim.hyps(2-5)] claim.prems by simp
next
  case (other cs s s')
  then have "permit_state p0 i s cs" by simp
  then show ?case using other.hyps(2,3) unfolding permit_state_def by fastforce
qed simp

section \<open>Properties\<close>


definition permit_chain :: "int \<Rightarrow> chain_state" where
  "permit_chain start = example_chain\<lparr>withdraw_permissions := fmupd 0
     \<lparr>withdraw_from_account = 12, authorized_account = 11, withdrawal_limit = mk_asset 100 1, withdrawal_period_sec = 60,
      period_start_time = start, wp_expiration = 100000, claimed_this_period = 0\<rparr> fmempty\<rparr>"

definition permit_claim :: "int \<Rightarrow> withdraw_permission_claim_operation" where
  "permit_claim a = \<lparr>pl_fee = mk_asset 0 0, withdraw_permission = 0, pl_from = 12, withdraw_to_account = 11,
     amount_to_withdraw = mk_asset a 1\<rparr>"


text \<open>The start of the first period is not enforced: a permission that was never claimed pays its whole limit before it.\<close>

lemma available_before_start:
  "claimed_this_period p = 0 \<Longrightarrow> in_i64 (amount (withdrawal_limit p)) \<Longrightarrow> 0 < amount (withdrawal_limit p) \<Longrightarrow>
    available_this_period p now = Inr (withdrawal_limit p)"
  by (auto simp: available_this_period_def safe_sub_def i64_defs)

end
