(* ===== verification/Witness_Schedule.thy ===== *)
theory Witness_Schedule
  imports Supply
begin

text \<open>Who may produce when: \<open>chain/db_witness_schedule.cpp\<close> (slots, the shuffle of the active witnesses, participation)
  and the part of \<open>chain/db_update.cpp\<close> that runs for every block (\<open>update_global_dynamic_data\<close>,
  \<open>update_signing_witness\<close>, \<open>update_last_irreversible_block\<close>, \<open>update_maintenance_flag\<close>).

  Times are seconds in 32 bits; the arithmetic of the code is written out with its wrap-around. The
  id of the head block is not kept. A block interval of zero, which the validation of the parameters refuses, divides by
  zero in the code. The generator of the shuffle works on \<open>64 word\<close>.\<close>

section \<open>Slots\<close>

definition maintenance_flag :: "32 word" where "maintenance_flag = 1"

definition get_scheduled_witness :: "int \<Rightarrow> chain_state \<Rightarrow> nat res" where
  "get_scheduled_witness slot_num st =
    (let ws = current_shuffled_witnesses st in
     rassert (ws \<noteq> []) UB
       (Inr (ws ! nat ((current_aslot (dgp st) + slot_num) mod 2 ^ 64 mod int (length ws)))))"

definition get_slot_time :: "int \<Rightarrow> chain_state \<Rightarrow> int" where
  "get_slot_time slot_num st =
    (if slot_num = 0 then 0
     else let interval = block_interval (params st) in
       if head_block_number (dgp st) = 0 then (dgp_time (dgp st) + slot_num * interval mod 2 ^ 32) mod 2 ^ 32
       else let head_slot_time = head_block_time st div interval * interval;
                slot_num = (if dynamic_flags (dgp st) AND maintenance_flag \<noteq> 0
                            then (slot_num + maintenance_skip_slots (params st)) mod 2 ^ 32 else slot_num) in
         (head_slot_time + slot_num * interval mod 2 ^ 32) mod 2 ^ 32)"

definition get_slot_at_time :: "int \<Rightarrow> chain_state \<Rightarrow> int" where
  "get_slot_at_time when st =
    (let first_slot_time = get_slot_time 1 st in
     if when < first_slot_time then 0
     else ((when - first_slot_time) div block_interval (params st) + 1) mod 2 ^ 32)"

definition popcount_64 :: "64 word \<Rightarrow> 64 word" where
  "popcount_64 x = fold (\<lambda>(m, w) x. (x AND m) + (drop_bit w x AND m))
     [(0x5555555555555555, 1), (0x3333333333333333, 2), (0x0F0F0F0F0F0F0F0F, 4),
      (0x00FF00FF00FF00FF, 8), (0x0000FFFF0000FFFF, 16), (0x00000000FFFFFFFF, 32)] x"

definition popcount :: "int \<Rightarrow> int" where
  "popcount x = (uint (popcount_64 (word_of_int x)) + uint (popcount_64 (word_of_int (x div 2 ^ 64)))) mod 2 ^ 8"

definition witness_participation_rate :: "chain_state \<Rightarrow> int" where
  "witness_participation_rate st = 10000 * popcount (recent_slots_filled (dgp st)) div 128"

section \<open>The shuffle\<close>

definition xorshift :: "64 word \<Rightarrow> 64 word" where
  "xorshift k =
    (let k = k XOR drop_bit 12 k; k = k XOR push_bit 25 k; k = k XOR drop_bit 27 k in k * 2685821657736338717)"

definition swap_at :: "nat \<Rightarrow> nat \<Rightarrow> 'a list \<Rightarrow> 'a list" where
  "swap_at i j xs = xs[i := xs ! j, j := xs ! i]"

definition shuffle_step :: "int \<Rightarrow> nat \<Rightarrow> 'a list \<Rightarrow> 'a list" where
  "shuffle_step now i ws =
    (let now_hi = push_bit 32 (word_of_int now :: 64 word);
         k = xorshift (now_hi + of_nat i * 2685821657736338717);
         jmax = length ws - i in
     swap_at i (i + unat k mod jmax) ws)"

definition shuffle_witnesses :: "int \<Rightarrow> 'a list \<Rightarrow> 'a list" where
  "shuffle_witnesses now ws = fold (shuffle_step now) [0..<length ws] ws"

definition update_witness_schedule :: "chain_state \<Rightarrow> chain_state res" where
  "update_witness_schedule st =
    rassert (active_witnesses st \<noteq> []) UB
      (Inr (if head_block_number (dgp st) mod int (length (active_witnesses st)) = 0
        then st\<lparr>current_shuffled_witnesses := shuffle_witnesses (head_block_time st) (active_witnesses st)\<rparr> else st))"

section \<open>Per-block updates\<close>

definition count_missed :: "'t signed_block \<Rightarrow> int \<Rightarrow> chain_state \<Rightarrow> chain_state res" where
  "count_missed b i st =
    rbind (get_scheduled_witness (i + 1) st) (\<lambda>w.
    rbind (lookup (witnesses st) w) (\<lambda>_.
    if w \<noteq> witness b then modify_witness w (\<lambda>wo. wo\<lparr>total_missed := total_missed wo + 1\<rparr>) st else Inr st))"

definition next_recently_missed :: "'t signed_block \<Rightarrow> int \<Rightarrow> chain_state \<Rightarrow> int" where
  "next_recently_missed b missed st =
    (let n = recently_missed_count (dgp st) in
     if int (block_num b) = 1 then 0
     else if (case last_checkpoint st of None \<Rightarrow> False | Some c \<Rightarrow> c \<ge> int (block_num b)) then 0
     else if missed \<noteq> 0 then (n + 4 * missed) mod 2 ^ 32
     else if n > 4 then n - 3
     else if n > 0 then n - 1 else n)"

definition MAX_UNDO_HISTORY :: int where "MAX_UNDO_HISTORY = 10000"

text \<open>The size that the undo database and the fork database are told to keep is returned with the state.\<close>

definition update_global_dynamic_data :: "bool \<Rightarrow> 't signed_block \<Rightarrow> chain_state \<Rightarrow> (int \<times> chain_state) res" where
  "update_global_dynamic_data skip_undo_history_check b st =
    (let missed_blocks = (get_slot_at_time (int (timestamp b)) st - 1) mod 2 ^ 32 in
    rbind (rfold (count_missed b) (map int [0..<nat missed_blocks]) st) (\<lambda>st.
    let d = dgp st;
        st = st\<lparr>dgp := d\<lparr>recently_missed_count := next_recently_missed b missed_blocks st,
               head_block_number := int (block_num b), dgp_time := int (timestamp b), current_witness := witness b,
               recent_slots_filled := u128 (u128 (u128 (recent_slots_filled d * 2) + 1) * 2 ^ nat missed_blocks),
               current_aslot := (current_aslot d + (missed_blocks + 1) mod 2 ^ 32) mod 2 ^ 64\<rparr>\<rparr>;
        behind = (head_block_number (dgp st) - last_irreversible_block_num (dgp st)) mod 2 ^ 32 in
    rassert (skip_undo_history_check \<or> behind < MAX_UNDO_HISTORY) OtherError
      (Inr ((behind + 1) mod 2 ^ 32, st))))"

definition update_signing_witness :: "nat \<Rightarrow> 't signed_block \<Rightarrow> chain_state \<Rightarrow> chain_state res" where
  "update_signing_witness wit b st =
    (let new_block_aslot = (current_aslot (dgp st) + get_slot_at_time (int (timestamp b)) st) mod 2 ^ 64;
         witness_pay = min (witness_pay_per_block (params st)) (witness_budget (dgp st)) in
    rbind (safe_sub (witness_budget (dgp st)) witness_pay) (\<lambda>budget.
    rbind (deposit_witness_pay wit witness_pay (st\<lparr>dgp := (dgp st)\<lparr>witness_budget := budget\<rparr>\<rparr>)) (\<lambda>st.
    modify_witness wit (\<lambda>w. w\<lparr>last_aslot := new_block_aslot, last_confirmed_block_num := int (block_num b)\<rparr>) st)))"

definition confirmations :: "chain_state \<Rightarrow> int list res" where
  "confirmations st = rfold (\<lambda>w acc. rbind (lookup (witnesses st) w) (\<lambda>wo. Inr (acc @ [last_confirmed_block_num wo])))
     (active_witnesses st) []"

definition irreversible_offset :: "nat \<Rightarrow> nat" where "irreversible_offset n = (10000 - 7000) * n div 10000"

definition update_last_irreversible_block :: "chain_state \<Rightarrow> chain_state res" where
  "update_last_irreversible_block st =
    rbind (confirmations st) (\<lambda>cs.
    rassert (cs \<noteq> []) UB
    (let lib = sort_by (<) cs ! irreversible_offset (length cs) in
     Inr (if lib > last_irreversible_block_num (dgp st)
          then st\<lparr>dgp := (dgp st)\<lparr>last_irreversible_block_num := lib\<rparr>\<rparr> else st)))"

definition update_maintenance_flag :: "bool \<Rightarrow> chain_state \<Rightarrow> chain_state" where
  "update_maintenance_flag new_flag st =
    st\<lparr>dgp := (dgp st)\<lparr>dynamic_flags := (dynamic_flags (dgp st) AND NOT maintenance_flag) OR
      (if new_flag then maintenance_flag else 0)\<rparr>\<rparr>"

section \<open>Slots and times\<close>

text \<open>The time of the slot before slot 1, and the range in which the 32-bit seconds do not wrap.\<close>

definition slot_base :: "chain_state \<Rightarrow> int" where
  "slot_base st =
    (let interval = block_interval (params st) in
     if head_block_number (dgp st) = 0 then head_block_time st
     else head_block_time st div interval * interval +
       (if dynamic_flags (dgp st) AND maintenance_flag \<noteq> 0 then maintenance_skip_slots (params st) * interval else 0))"

definition slots_ok :: "int \<Rightarrow> chain_state \<Rightarrow> bool" where
  "slots_ok n st \<longleftrightarrow> 0 < block_interval (params st) \<and> 0 \<le> maintenance_skip_slots (params st) \<and> 0 \<le> head_block_time st \<and>
     head_block_time st + (n + maintenance_skip_slots (params st)) * block_interval (params st) < 2 ^ 32"

lemma slots_ok_mono:
  assumes "slots_ok n st" "m \<le> n"
  shows "slots_ok m st"
proof -
  have "(m + maintenance_skip_slots (params st)) * block_interval (params st) \<le>
      (n + maintenance_skip_slots (params st)) * block_interval (params st)"
    using assms by (simp add: slots_ok_def mult_right_mono)
  then show ?thesis using assms unfolding slots_ok_def by linarith
qed

lemma le_times_interval: "0 < i \<Longrightarrow> 0 \<le> n \<Longrightarrow> n \<le> n * (i :: int)"
  using mult_left_mono[of 1 i n] by simp

lemma slot_num_bound:
  assumes "slots_ok n st" "0 \<le> n"
  shows "n < 2 ^ 32"
proof -
  have "n + maintenance_skip_slots (params st) \<le> (n + maintenance_skip_slots (params st)) * block_interval (params st)"
    using assms by (intro le_times_interval) (auto simp: slots_ok_def)
  then show ?thesis using assms unfolding slots_ok_def by linarith
qed

lemma slot_time_exact:
  assumes "slots_ok n st" "1 \<le> n"
  shows "get_slot_time n st = slot_base st + n * block_interval (params st)"
proof -
  define i where "i = block_interval (params st)"
  define s where "s = maintenance_skip_slots (params st)"
  have i: "0 < i" "0 \<le> s" "0 \<le> head_block_time st" "head_block_time st + (n + s) * i < 2 ^ 32"
    using assms(1) by (auto simp: slots_ok_def i_def s_def)
  have "0 \<le> head_block_time st div i * i" using i by (simp add: pos_imp_zdiv_nonneg_iff)
  moreover have "head_block_time st div i * i \<le> head_block_time st"
    using i(1) div_mult_mod_eq[of "head_block_time st" i] pos_mod_sign[of i "head_block_time st"] by linarith
  ultimately have down: "0 \<le> head_block_time st div i * i" "head_block_time st div i * i \<le> head_block_time st" by auto
  have le: "n + s \<le> (n + s) * i" "n * i \<le> (n + s) * i" "0 \<le> n * i" "n \<le> n * i" "0 \<le> (n + s) * i"
    using i assms(2) by (auto simp: mult_le_cancel_left1)
  have n: "n * i mod 2 ^ 32 = n * i" "(n + s) mod 2 ^ 32 = n + s" "(n + s) * i mod 2 ^ 32 = (n + s) * i"
    by (rule mod_pos_pos_trivial; use le i assms(2) in linarith)+
  have t: "(head_block_time st + n * i) mod 2 ^ 32 = head_block_time st + n * i"
    "(head_block_time st div i * i + n * i) mod 2 ^ 32 = head_block_time st div i * i + n * i"
    "(head_block_time st div i * i + (n + s) * i) mod 2 ^ 32 = head_block_time st div i * i + (n + s) * i"
    by (rule mod_pos_pos_trivial; use le i down in linarith)+
  have "get_slot_time n st = (if head_block_number (dgp st) = 0 then head_block_time st + n * i
      else head_block_time st div i * i +
        (if dynamic_flags (dgp st) AND maintenance_flag \<noteq> 0 then n + s else n) * i)"
    using assms(2) unfolding get_slot_time_def Let_def i_def[symmetric] s_def[symmetric] head_block_time_def[symmetric]
    by (simp only: n t if_distrib[of "\<lambda>k. (head_block_time st div i * i + k * i mod 2 ^ 32) mod 2 ^ 32"] split: if_split)
      simp
  then show ?thesis by (simp add: slot_base_def Let_def i_def[symmetric] s_def[symmetric] distrib_right)
qed

text \<open>A slot that ends before the head block wraps belongs to exactly one interval of time.\<close>

lemma slot_at_time_exact:
  assumes "slots_ok n st" "1 \<le> n" "get_slot_time n st \<le> when" "when < get_slot_time n st + block_interval (params st)"
  shows "get_slot_at_time when st = n"
proof -
  define i where "i = block_interval (params st)"
  define q where "q = when - slot_base st - n * i"
  have i: "0 < i" "n < 2 ^ 32"
    using assms(1,2) slot_num_bound[of n st] by (auto simp: slots_ok_def i_def)
  have first: "get_slot_time 1 st = slot_base st + i" "get_slot_time n st = slot_base st + n * i"
    using slot_time_exact[of 1 st] slot_time_exact[of n st] slots_ok_mono[OF assms(1), of 1] assms(1,2)
    by (simp_all add: i_def)
  have q: "0 \<le> q" "q < i" using assms(3,4) first by (simp_all add: q_def i_def)
  have "i \<le> n * i" using i assms(2) by (simp add: mult_le_cancel_right1)
  then have nl: "\<not> when < get_slot_time 1 st" using q first unfolding q_def by linarith
  have "when - get_slot_time 1 st = (n - 1) * i + q" by (simp add: first q_def algebra_simps)
  then have "(when - get_slot_time 1 st) div i = n - 1"
    using q i by (simp add: div_pos_pos_trivial)
  then show ?thesis using nl i assms(2) by (simp add: get_slot_at_time_def Let_def i_def[symmetric])
qed

section \<open>The shuffle permutes the witnesses\<close>

lemma mset_swap_at: "i < length xs \<Longrightarrow> j < length xs \<Longrightarrow> mset (swap_at i j xs) = mset xs"
  by (simp add: swap_at_def mset_swap)

lemma mset_shuffle_step:
  assumes "i < length ws"
  shows "mset (shuffle_step now i ws) = mset ws"
proof -
  have "i + m mod (length ws - i) < length ws" for m
    using assms mod_less_divisor[of "length ws - i" m] by linarith
  then show ?thesis using assms by (simp add: shuffle_step_def Let_def mset_swap_at)
qed

lemma length_shuffle_step [simp]: "length (shuffle_step now i ws) = length ws"
  by (simp add: shuffle_step_def swap_at_def Let_def)

lemma mset_shuffle_witnesses [simp]: "mset (shuffle_witnesses now ws) = mset ws"
proof -
  have "mset (fold (shuffle_step now) ns ws) = mset ws" if "\<forall>i\<in>set ns. i < length ws" for ns
    using that by (induction ns arbitrary: ws) (auto simp: mset_shuffle_step)
  then show ?thesis by (simp add: shuffle_witnesses_def)
qed

text \<open>A list read at consecutive numbers modulo its length is a permutation of it.\<close>

lemma map_nth_mod_mset:
  assumes "xs \<noteq> []"
  shows "mset (map (\<lambda>k. xs ! ((s + k) mod length xs)) [0..<length xs]) = mset xs"
proof -
  have "map (\<lambda>k. xs ! ((s + k) mod length xs)) [0..<length xs] = rotate s xs"
    using assms by (intro nth_equalityI) (auto simp: nth_rotate)
  moreover have "mset (rotate s xs) = mset xs"
    by (metis add.commute append_take_drop_id mset_append rotate_drop_take)
  ultimately show ?thesis by simp
qed

section \<open>Confirmations\<close>

lemma insert_by_less: "insert_by (<) x xs = insort x (xs :: int list)"
  by (induction xs) auto

lemma sort_by_less: "sort_by (<) xs = sort (xs :: int list)"
  by (simp add: sort_by_def sort_key_def insert_by_less[abs_def] fun_eq_iff)

text \<open>An element of a sorted list is large when enough of the list is.\<close>

lemma sorted_nth_ge:
  fixes xs :: "int list"
  assumes "sorted xs" "j < length xs"
  shows "k \<le> xs ! j \<longleftrightarrow> length xs - j \<le> length (filter (\<lambda>x. k \<le> x) xs)"
  using assms
proof (induction xs arbitrary: j)
  case (Cons x xs)
  show ?case
  proof (cases "k \<le> x")
    case True
    then have "filter (\<lambda>y. k \<le> y) (x # xs) = x # xs" using Cons.prems(1) by (auto simp: filter_id_conv)
    moreover have "k \<le> (x # xs) ! j" using Cons.prems True by (cases j) (auto intro: order_trans)
    ultimately show ?thesis by simp
  next
    case False
    then show ?thesis using Cons
      by (cases j) (auto simp: not_le le_imp_less_Suc length_filter_le)
  qed
qed simp

definition confirmed_by :: "int \<Rightarrow> chain_state \<Rightarrow> nat" where
  "confirmed_by k st = length (filter (\<lambda>w. case fmlookup (witnesses st) w of None \<Rightarrow> False
     | Some wo \<Rightarrow> k \<le> last_confirmed_block_num wo) (active_witnesses st))"

lemma confirmations_eq:
  assumes "confirmations st = Inr cs"
  shows "cs = map (\<lambda>w. last_confirmed_block_num (the (fmlookup (witnesses st) w))) (active_witnesses st) \<and>
    (\<forall>w\<in>set (active_witnesses st). fmlookup (witnesses st) w \<noteq> None)"
proof -
  have "rfold (\<lambda>w acc. rbind (lookup (witnesses st) w) (\<lambda>wo. Inr (acc @ [last_confirmed_block_num wo]))) ws acc = Inr cs \<Longrightarrow>
    cs = acc @ map (\<lambda>w. last_confirmed_block_num (the (fmlookup (witnesses st) w))) ws \<and>
    (\<forall>w\<in>set ws. fmlookup (witnesses st) w \<noteq> None)" for ws acc
    by (induction ws arbitrary: acc) fastforce+
  from this[of "active_witnesses st" "[]"] show ?thesis using assms by (simp add: confirmations_def)
qed

lemma confirmations_count:
  assumes "confirmations st = Inr cs"
  shows "length (filter (\<lambda>x. k \<le> x) cs) = confirmed_by k st \<and> length cs = length (active_witnesses st)"
proof -
  have "filter (\<lambda>w. k \<le> last_confirmed_block_num (the (fmlookup (witnesses st) w))) (active_witnesses st) =
    filter (\<lambda>w. case fmlookup (witnesses st) w of None \<Rightarrow> False | Some wo \<Rightarrow> k \<le> last_confirmed_block_num wo)
      (active_witnesses st)"
    using confirmations_eq[OF assms] by (intro filter_cong) auto
  then show ?thesis using confirmations_eq[OF assms] by (simp add: confirmed_by_def filter_map comp_def)
qed

lemma irreversible_offset_share: "n - irreversible_offset n \<le> c \<longleftrightarrow> 7000 * n \<le> 10000 * c"
proof -
  define f where "f = irreversible_offset n"
  have "10000 * f \<le> 3000 * n" "3000 * n < 10000 * f + 10000"
    using div_mult_mod_eq[of "3000 * n" 10000] mod_less_divisor[of 10000 "3000 * n"]
    by (auto simp: f_def irreversible_offset_def)
  then show ?thesis unfolding f_def[symmetric] by linarith
qed

lemma filter_sort: "length (filter P (sort xs)) = length (filter P xs)"
  by (metis mset_filter mset_sort size_mset)

section \<open>Rewards of the producer\<close>

lemma witness_budget_moves:
  "moves (\<lambda>A. part A (mk_asset (v - witness_budget (dgp st)) 0)) st (st\<lparr>dgp := (dgp st)\<lparr>witness_budget := v\<rparr>\<rparr>)"
  by (simp add: moves_def chain_ok_def excess_def)

lemma modify_witness_moves: "modify_witness i f st = Inr st' \<Longrightarrow> moves (\<lambda>A. 0) st st'"
  by (auto simp: modify_witness_def moves_def chain_ok_def excess_def)

lemma update_signing_witness_moves:
  assumes "update_signing_witness wit b st = Inr st'"
  shows "moves (\<lambda>A. 0) st st'"
  using assms unfolding update_signing_witness_def Let_def
proof (elim res_elims, goal_cases)
  case (1 budget s1)
  show ?case
    by (rule moves_cong[OF moves_seq[OF moves_seq[OF witness_budget_moves deposit_witness_pay_moves[OF 1(2)]]
          modify_witness_moves[OF 1(3)]]]) (use safe_sub_Inr[OF 1(1)] in auto)
qed

section \<open>Properties\<close>

definition schedule_example :: chain_state where
  "schedule_example = example_chain
    \<lparr>dgp := (dgp example_chain)\<lparr>head_block_number := 9, dgp_time := 1000003, current_aslot := 12, dynamic_flags := maintenance_flag,
       witness_budget := 5000000, last_irreversible_block_num := 2\<rparr>,
     active_witnesses := [4, 5, 6],
     witnesses := fold (\<lambda>(i, n). fmupd i \<lparr>witness_account = 11, last_aslot = 0, signing_key = 77, pay_vb = None, wit_vote_id = 0,
       wit_total_votes = 0, total_missed = 0, last_confirmed_block_num = n\<rparr>) [(4, 7), (5, 9), (6, 8)] fmempty\<rparr>"

lemmas schedule_example_defs = schedule_example_def example_chain_defs

text \<open>C31: the number of a slot and its time determine each other. As long as the seconds do not wrap, the moments from
  the time of slot \<open>n\<close> on, for one block interval, and no others, are in slot \<open>n\<close>, also when the head block was a maintenance
  block and slots are skipped.\<close>

theorem slot_times_inverse:
  assumes "slots_ok n st" and "1 \<le> n" and "when < 2 ^ 32"
  shows "get_slot_at_time when st = n \<longleftrightarrow>
    get_slot_time n st \<le> when \<and> when < get_slot_time n st + block_interval (params st)"
proof
  define i where "i = block_interval (params st)"
  have i: "0 < i" "0 \<le> slot_base st" using assms(1) by (auto simp: slots_ok_def i_def slot_base_def Let_def pos_imp_zdiv_nonneg_iff)
  have t: "get_slot_time n st = slot_base st + n * i" "get_slot_time 1 st = slot_base st + i"
    using slot_time_exact[OF assms(1,2)] slot_time_exact[OF slots_ok_mono[OF assms(1,2)]] by (simp_all add: i_def)
  assume n: "get_slot_at_time when st = n"
  define k where "k = (when - (slot_base st + i)) div i"
  have late: "\<not> when < slot_base st + i" using n t assms(2) by (auto simp: get_slot_at_time_def)
  have dm: "when - (slot_base st + i) = k * i + (when - (slot_base st + i)) mod i"
    "0 \<le> (when - (slot_base st + i)) mod i" "(when - (slot_base st + i)) mod i < i"
    using i by (simp_all add: k_def)
  have "0 \<le> k" using late i by (simp add: k_def pos_imp_zdiv_nonneg_iff)
  moreover have "k \<le> when - (slot_base st + i)" using dm le_times_interval[OF i(1) \<open>0 \<le> k\<close>] by linarith
  ultimately have "(k + 1) mod 2 ^ 32 = k + 1" using i assms(3) by (intro mod_pos_pos_trivial) linarith+
  then have "n = k + 1" using n t late by (simp add: get_slot_at_time_def Let_def k_def i_def)
  then show "get_slot_time n st \<le> when \<and> when < get_slot_time n st + block_interval (params st)"
    using dm unfolding t i_def[symmetric] by (simp add: distrib_right)
qed (use slot_at_time_exact[OF assms(1,2)] in auto)

lemma slot_times_inverse_witness:
  "get_slot_at_time 1000023 schedule_example = 1 \<longleftrightarrow>
    get_slot_time 1 schedule_example \<le> 1000023 \<and> 1000023 < get_slot_time 1 schedule_example + block_interval (params schedule_example)"
  by (rule slot_times_inverse) code_simp+

text \<open>C32: every active witness gets its turn. Once the schedule was shuffled, any window of as many consecutive slots as
  there are active witnesses contains every active witness exactly as often as the active list does, wherever the window
  starts and however many slots were missed before it, as long as the schedule is kept.\<close>

theorem every_witness_is_scheduled:
  assumes "update_witness_schedule st = Inr st'"
    and "head_block_number (dgp st) mod int (length (active_witnesses st)) = 0"
    and "current_shuffled_witnesses later = current_shuffled_witnesses st'"
    and "0 \<le> current_aslot (dgp later) + slot"
    and "current_aslot (dgp later) + slot + int (length (active_witnesses st)) \<le> 2 ^ 64"
  shows "mset (map (\<lambda>k. get_scheduled_witness (slot + int k) later) [0..<length (active_witnesses st)]) =
    mset (map Inr (active_witnesses st))"
proof -
  define ws where "ws = current_shuffled_witnesses later"
  define s where "s = nat (current_aslot (dgp later) + slot)"
  have ws: "mset ws = mset (active_witnesses st)" "ws \<noteq> []"
    using assms(1-3) by (auto simp: ws_def update_witness_schedule_def simp flip: size_mset mset_zero_iff)
  have len: "length ws = length (active_witnesses st)" using ws(1) by (metis size_mset)
  have "get_scheduled_witness (slot + int k) later = Inr (ws ! ((s + k) mod length ws))" if "k < length ws" for k
  proof -
    have "(current_aslot (dgp later) + (slot + int k)) mod 2 ^ 64 = int (s + k)"
      using assms(4,5) that len by (simp add: s_def)
    then show ?thesis using ws(2) by (simp add: get_scheduled_witness_def ws_def[symmetric] nat_mod_distrib nat_add_distrib)
  qed
  then have "map (\<lambda>k. get_scheduled_witness (slot + int k) later) [0..<length ws] =
      map Inr (map (\<lambda>k. ws ! ((s + k) mod length ws)) [0..<length ws])"
    by simp
  then show ?thesis
    using map_nth_mod_mset[OF ws(2), of s] ws(1) unfolding len by (metis mset_map)
qed

lemma every_witness_is_scheduled_witness:
  "mset (map (\<lambda>k. get_scheduled_witness (2 + int k)
      (case update_witness_schedule schedule_example of Inr st \<Rightarrow> st)) [0..<length (active_witnesses schedule_example)]) =
    mset (map Inr (active_witnesses schedule_example))"
  by (rule every_witness_is_scheduled[of _ "case update_witness_schedule schedule_example of Inr st \<Rightarrow> st"])
    (auto simp: update_witness_schedule_def schedule_example_defs)

text \<open>C33: a block becomes irreversible exactly when 70 percent of the active witnesses have confirmed it or a later one,
  and never stops being so.\<close>

theorem irreversible_iff_confirmed:
  assumes "update_last_irreversible_block st = Inr st'"
  shows "k \<le> last_irreversible_block_num (dgp st') \<longleftrightarrow>
    k \<le> last_irreversible_block_num (dgp st) \<or> 7000 * length (active_witnesses st) \<le> 10000 * confirmed_by k st"
proof -
  obtain cs where cs: "confirmations st = Inr cs" "cs \<noteq> []"
    using assms by (auto simp: update_last_irreversible_block_def)
  define j where "j = irreversible_offset (length cs)"
  have j: "j < length cs" using cs(2) by (cases "length cs") (auto simp: j_def irreversible_offset_def)
  have lib: "last_irreversible_block_num (dgp st') = max (last_irreversible_block_num (dgp st)) (sort cs ! j)"
    using assms cs(1) by (auto simp: update_last_irreversible_block_def sort_by_less j_def Let_def)
  have "k \<le> sort cs ! j \<longleftrightarrow> length cs - j \<le> length (filter (\<lambda>x. k \<le> x) cs)"
    using sorted_nth_ge[of "sort cs" j k] j by (simp add: filter_sort)
  then show ?thesis
    using confirmations_count[OF cs(1), of k] irreversible_offset_share[of "length cs"]
    by (auto simp: lib j_def le_max_iff_disj)
qed

lemma irreversible_iff_confirmed_witness:
  "8 \<le> last_irreversible_block_num (dgp (case update_last_irreversible_block schedule_example of Inr st \<Rightarrow> st)) \<longleftrightarrow>
    8 \<le> last_irreversible_block_num (dgp schedule_example) \<or>
    7000 * length (active_witnesses schedule_example) \<le> 10000 * confirmed_by 8 schedule_example"
  by (rule irreversible_iff_confirmed)
    (simp add: update_last_irreversible_block_def confirmations_def lookup_def schedule_example_defs Let_def)

end
