(* ===== verification/Block_Updates.thy ===== *)
theory Block_Updates
  imports Operation_Conservation
begin

text \<open>What every block does after its transactions: \<open>clear_expired_orders\<close>, \<open>update_expired_feeds\<close>,
  \<open>update_withdraw_permissions\<close> and \<open>update_maintenance_flag\<close> of \<open>chain/db_update.cpp\<close>.

  The three loops of \<open>clear_expired_orders\<close> run until an ordered index has no due element left; each is a \<open>function\<close>
  whose termination proof says why: a cancelled order never comes back, a match settles a positive amount, and a round
  over the settlements removes one, exhausts the volume of its asset or moves on to a later asset.\<close>

unbundle bit_operations_syntax

section \<open>Expired limit orders\<close>

text \<open>\<open>by_expiration\<close> of the limit orders.\<close>

definition expires_before :: "nat \<times> limit_order_object \<Rightarrow> nat \<times> limit_order_object \<Rightarrow> bool" where
  "expires_before x y \<longleftrightarrow> lo_expiration (snd x) < lo_expiration (snd y) \<or>
     lo_expiration (snd x) = lo_expiration (snd y) \<and> fst x < fst y"

definition next_expiring :: "chain_state \<Rightarrow> (nat \<times> limit_order_object) option" where
  "next_expiring st = (case sort_by expires_before (entries (limit_orders st)) of [] \<Rightarrow> None | x # _ \<Rightarrow> Some x)"

text \<open>The cancellation that the chain builds itself; its fee is capped at the order's deferred fee.\<close>

definition expiry_context :: transaction_evaluation_state where
  "expiry_context = \<lparr>skip_fee = False, skip_fee_schedule_check = True, is_proposed_trx = False\<rparr>"

definition expiry_cancel :: "nat \<Rightarrow> limit_order_object \<Rightarrow> int \<Rightarrow> limit_order_cancel_operation" where
  "expiry_cancel i l fee = \<lparr>lx_fee = mk_asset fee 0, lx_order = i, fee_paying_account = lo_seller l\<rparr>"

definition expire_order :: "(operation \<Rightarrow> int res) \<Rightarrow> nat \<Rightarrow> limit_order_object \<Rightarrow> chain_state \<Rightarrow> chain_state res" where
  "expire_order schedule i l st =
    rbind (schedule (LimitOrderCancel (expiry_cancel i l 0))) (\<lambda>fee.
    let canceler = expiry_cancel i l (if fee > deferred_fee l then deferred_fee l else fee) in
    rbind (evaluate_operation schedule expiry_context (LimitOrderCancel canceler) st) (\<lambda>(_, st). Inr st))"

text \<open>The orders that a step may remove, and what it leaves alone.\<close>

definition fewer_orders :: "chain_state \<Rightarrow> chain_state \<Rightarrow> bool" where
  "fewer_orders st st' \<longleftrightarrow> fmdom' (limit_orders st') \<subseteq> fmdom' (limit_orders st)"

lemma fewer_orders_refl: "fewer_orders st st"
  by (simp add: fewer_orders_def)

lemma fewer_orders_trans: "fewer_orders st s1 \<Longrightarrow> fewer_orders s1 s2 \<Longrightarrow> fewer_orders st s2"
  by (auto simp: fewer_orders_def)

lemma fewer_orders_eq: "limit_orders st' = limit_orders st \<Longrightarrow> fewer_orders st st'"
  by (simp add: fewer_orders_def)

lemma free_collateral_orders:
  "(case cf of None \<Rightarrow> Inr st | Some f \<Rightarrow> adjust_balance b f st) = Inr st' \<Longrightarrow> limit_orders st' = limit_orders st"
  by (auto split: option.splits dest: adjust_balance_orders)

lemma fill_call_order_orders: "fill_call_order i p r st = Inr (b, st') \<Longrightarrow> limit_orders st' = limit_orders st"
  unfolding fill_call_order_def
  by (elim run_elims; auto dest!: free_collateral_orders modify_stats_orders modify_dyn_orders adjust_balance_orders)

lemma modify_bitasset_orders: "modify_bitasset i f st = Inr st' \<Longrightarrow> limit_orders st' = limit_orders st"
  by (auto simp: modify_bitasset_def)

lemma settle_calls_orders:
  "rfold (settle_call p) is (g, st) = Inr (g', st') \<Longrightarrow> limit_orders st' = limit_orders st"
proof (induction "is" arbitrary: g st)
  case (Cons i js)
  then obtain g1 s1 where "settle_call p i (g, st) = Inr (g1, s1)" "rfold (settle_call p) js (g1, s1) = Inr (g', st')" by auto
  moreover have "limit_orders s1 = limit_orders st"
    using calculation(1) unfolding settle_call_def prod.case by (elim run_elims) (auto dest!: fill_call_order_orders)
  ultimately show ?case using Cons.IH by simp
qed simp

lemma globally_settle_orders: "globally_settle_asset m p st = Inr st' \<Longrightarrow> limit_orders st' = limit_orders st"
  unfolding globally_settle_asset_def
  by (elim run_elims; auto dest!: settle_calls_orders modify_bitasset_orders modify_dyn_orders)

lemma blackswan_orders: "check_for_blackswan m en st = Inr (b, st') \<Longrightarrow> limit_orders st' = limit_orders st"
  unfolding check_for_blackswan_def by (elim run_elims; auto dest!: globally_settle_orders)

lemma fill_limit_fewer: "fill_limit_order i p r cull st = Inr (b, st') \<Longrightarrow> fewer_orders st st'"
proof -
  assume a: "fill_limit_order i p r cull st = Inr (b, st')"
  then obtain l where l: "fmlookup (limit_orders st) i = Some l" by (auto simp: fill_limit_order_def)
  have "j \<in> fmdom' (limit_orders st)" if "j \<in> fmdom' (limit_orders st')" for j
    using fill_limit_order_fills[OF a l] l that by (cases "j = i") (auto simp: fills_def fmdom'_iff)
  then show ?thesis by (auto simp: fewer_orders_def)
qed

lemma call_loop_fewer: "call_loop mia en fp calls limits fl mc st = Inr (b, st') \<Longrightarrow> fewer_orders st st'"
proof (induction "length calls + length limits" arbitrary: calls limits fl mc st rule: less_induct)
  case less
  obtain swan s0 where swan: "check_for_blackswan mia en st = Inr (swan, s0)"
    using less(2) by (subst (asm) call_loop.simps) auto
  have m0: "limit_orders s0 = limit_orders st" by (rule blackswan_orders[OF swan])
  show ?case
  proof (cases "swan \<or> calls = [] \<or> limits = []")
    case True
    then have "st' = s0" using less(2) swan by (subst (asm) call_loop.simps) (auto split: list.splits if_splits)
    with m0 show ?thesis by (simp add: fewer_orders_eq)
  next
    case False
    then obtain c cs l ls where cl: "calls = c # cs" "limits = l # ls" and ns: "\<not> swan"
      by (cases calls; cases limits) auto
    have "call_loop mia en fp (c # cs) (l # ls) fl mc st = Inr (b, st')"
      "check_for_blackswan mia en st = Inr (False, s0)" using less(2) cl swan ns by auto
    then have "fewer_orders s0 st'"
    proof (cases rule: call_loop_round)
      case (trade match_price traded paid f1 s1 f2 s2 calls' limits' fl')
      have "fewer_orders s2 st'" using less(1)[OF _ trade(4)] trade(5) cl by simp
      then show ?thesis
        using fill_call_order_orders[OF trade(2)] fill_limit_fewer[OF trade(3)] by (auto simp: fewer_orders_def)
    qed (simp_all add: globally_settle_orders fewer_orders_eq)
    with m0 show ?thesis by (simp add: fewer_orders_def)
  qed
qed

lemma check_call_orders_fewer: "check_call_orders mia en st = Inr (b, st') \<Longrightarrow> fewer_orders st st'"
  unfolding check_call_orders_def
  by (elim run_elims; fastforce dest!: blackswan_orders call_loop_fewer simp: fewer_orders_def)

lemma expire_order_removes:
  assumes "expire_order schedule i l st = Inr st'"
  shows "fewer_orders st st' \<and> i \<notin> fmdom' (limit_orders st')"
  using assms unfolding expire_order_def evaluate_operation_def start_evaluate_def Let_def
proof (elim rbind_pairE rbindE, goal_cases)
  case (1 fee r s core u c s1 d s2 res s3 charge s4)
  have pays: "\<not> skip_fee expiry_context" by (simp add: expiry_context_def)
  have "fee_step s1 s2" using pays_fee_pay_fee[of False] 1(7) pays by (auto simp: pays_fee_def)
  then have "fee_step st s2" using convert_fee_moves[OF 1(6) pays] fee_step_trans by blast
  then have same: "limit_orders s2 = limit_orders st" using fee_stepD by blast
  have "fewer_orders s2 s3 \<and> i \<notin> fmdom' (limit_orders s3)"
    using 1(8) by (auto simp: limit_order_cancel_apply_def expiry_cancel_def fewer_orders_def
        dest!: check_call_orders_fewer cancel_limit_order_orders) blast+
  then show ?case using same adjust_balance_orders[OF 1(10)] 1(2,11) by (auto simp: fewer_orders_def)
qed

lemma next_expiring_least:
  assumes "next_expiring st = Some x" "fmlookup (limit_orders st) i = Some l"
  shows "lo_expiration (snd x) \<le> lo_expiration l"
proof -
  obtain xs where "sort_by expires_before (entries (limit_orders st)) = x # xs"
    using assms(1) by (auto simp: next_expiring_def split: list.splits)
  moreover have "lo_expiration (snd (hd (sort_by expires_before (entries (limit_orders st))))) \<le> lo_expiration (snd (i, l))"
    by (rule sort_by_least) (use assms(2) in \<open>auto simp: expires_before_def set_entries\<close>)
  ultimately show ?thesis by simp
qed

lemma next_expiring_in: "next_expiring st = Some (i, l) \<Longrightarrow> fmlookup (limit_orders st) i = Some l"
  by (auto simp: next_expiring_def split: list.splits) (metis list.set_intros(1) set_entries set_sort_by)

lemma next_expiring_None: "next_expiring st = None \<Longrightarrow> fmlookup (limit_orders st) i = None"
  by (auto simp: next_expiring_def split: list.splits)
    (metis empty_iff empty_set option.exhaust set_entries set_sort_by)

text \<open>The loop over the expired orders.\<close>

function expire_limits :: "(operation \<Rightarrow> int res) \<Rightarrow> chain_state \<Rightarrow> chain_state res" where
  "expire_limits schedule st = (case next_expiring st of
     None \<Rightarrow> Inr st
   | Some (i, l) \<Rightarrow> if lo_expiration l > head_block_time st then Inr st
       else rbind (expire_order schedule i l st) (expire_limits schedule))"
  by pat_completeness auto

termination
proof (relation "measure (\<lambda>(_, st). card (fmdom' (limit_orders st)))", goal_cases)
  case (2 schedule st x i l st')
  then have "i \<in> fmdom' (limit_orders st)" using next_expiring_in[of st i l] by (auto simp: fmdom'_iff)
  then have "fmdom' (limit_orders st') \<subset> fmdom' (limit_orders st)"
    using expire_order_removes[of schedule i l st st'] 2 by (auto simp: fewer_orders_def)
  then show ?case by (simp add: psubset_card_mono)
qed simp

declare expire_limits.simps [simp del]

lemma expire_limits_done:
  assumes "expire_limits schedule st = Inr st'" "fmlookup (limit_orders st') i = Some l"
  shows "head_block_time st' < lo_expiration l"
  using assms
proof (induction schedule st rule: expire_limits.induct)
  case (1 schedule st)
  show ?case
  proof (cases "next_expiring st")
    case None
    then show ?thesis using 1 next_expiring_None by (subst (asm) (2) expire_limits.simps) simp
  next
    case (Some x)
    then show ?thesis using 1 next_expiring_least[OF Some, of i l]
      by (subst (asm) (2) expire_limits.simps) (fastforce split: prod.splits if_splits)
  qed
qed

lemma expire_order_moves: "expire_order schedule i l st = Inr st' \<Longrightarrow> moves (\<lambda>A. 0) st st'"
  unfolding expire_order_def Let_def
proof (elim rbind_pairE rbindE, goal_cases)
  case (1 fee r s)
  let ?op = "LimitOrderCancel (expiry_cancel i l (if fee > deferred_fee l then deferred_fee l else fee))"
  obtain core c where m: "prepare_fee (fee_payer ?op) (op_fee ?op) st = Inr core" "do_evaluate expiry_context ?op core st = Inr c"
      "moves (\<lambda>A. op_gain ?op c A + (if asset_id (op_fee ?op) = 0 then part A (mk_asset (c - amount (op_fee ?op)) 0) else 0)) st s"
    by (rule operation.start_moves[OF 1(2)[unfolded evaluate_operation_def]]) (auto simp: expiry_context_def)
  have "c = core" using do_evaluate_fee[OF m(2)] by simp
  then show ?case using m(3) prepare_fee_core[OF m(1)] 1(3) by (auto simp: expiry_cancel_def elim!: moves_cong)
qed

lemma expire_limits_moves: "expire_limits schedule st = Inr st' \<Longrightarrow> moves (\<lambda>A. 0) st st'"
proof (induction schedule st rule: expire_limits.induct)
  case (1 schedule st)
  have stay: "moves (\<lambda>A. 0) s s" for s by (simp add: moves_refl)
  have step: "moves (\<lambda>A. 0) st st'" if "next_expiring st = Some (i, l)" "\<not> head_block_time st < lo_expiration l"
      "expire_order schedule i l st = Inr s1" "expire_limits schedule s1 = Inr st'" for i l s1
    using moves0_trans[OF expire_order_moves[OF that(3)] 1(1)[OF that(1) refl that(2,3,4)]] .
  show ?case using 1(2)
    by (subst (asm) expire_limits.simps) (auto split: option.splits if_splits simp: stay step)
qed

section \<open>Expired force settlements\<close>

lemma match_settles_something:
  assumes "match_call_settle c i p max_settlement st = Inr (paid, st')" "0 < amount max_settlement"
  shows "0 < amount paid"
proof -
  obtain co :: call_order_object and s :: force_settlement_object and a where "debt co > 0" "amount (fs_balance s) > 0" "asset_min (fs_balance s) max_settlement = Inr a"
      "asset_min a (get_debt co) = Inr paid"
    using assms(1) unfolding match_call_settle_def by (elim res_elims) fastforce
  then show ?thesis using assms(2) by (auto simp: asset_min_def get_debt_def split: if_splits)
qed

lemma asset_lt_Inr: "asset_lt a b = Inr r \<Longrightarrow> r \<longleftrightarrow> amount a < amount b"
  by (auto simp: asset_lt_def)

lemma asset_add_amount: "asset_add a b = Inr c \<Longrightarrow> amount c = amount a + amount b"
  by (auto simp: asset_add_def dest!: safe_add_Inr)

lemma asset_sub_amount: "asset_sub a b = Inr c \<Longrightarrow> amount c = amount a - amount b"
  by (auto simp: asset_sub_def dest!: safe_sub_Inr)

text \<open>The while loop that matches one settlement with the least collateralised positions. A black swan is caught: the
  settlement is cancelled. The position is taken from the index without testing that there is one.\<close>

function settle_loop :: "nat \<Rightarrow> nat \<Rightarrow> price \<Rightarrow> asset \<Rightarrow> asset \<Rightarrow> chain_state \<Rightarrow> (asset \<times> chain_state) res" where
  "settle_loop mia order_id at max_volume settled st =
    rbind (asset_lt settled max_volume) (\<lambda>room.
    if \<not> room then Inr (settled, st) else
    case fmlookup (settlements st) order_id of None \<Rightarrow> Inr (settled, st) | Some order \<Rightarrow>
    rbind (lookup (bitassets st) mia) (\<lambda>bd.
    rbind (price_min (short_backing_asset (bit_options bd)) mia) (\<lambda>lo.
    rbind (asset_sub max_volume settled) (\<lambda>max_settlement.
    if amount (fs_balance order) = 0
    then rbind (cancel_settle_order order_id True st) (\<lambda>st. Inr (settled, st)) else
    rbind (least_collateralized lo st) (\<lambda>call.
    case match_call_settle call order_id at max_settlement st of
      Inl e \<Rightarrow> if e = BlackSwan then rbind (cancel_settle_order order_id True st) (\<lambda>st. Inr (settled, st)) else Inl e
    | Inr (paid, st) \<Rightarrow> rbind (asset_add settled paid) (\<lambda>settled.
        settle_loop mia order_id at max_volume settled st))))))"
  by pat_completeness auto

termination
proof (relation "measure (\<lambda>(_, _, _, m, s, _). nat (amount m - amount s))", goal_cases)
  case (2 mia i p m s st room order bd lo rest c r paid st' s')
  then have "amount s < amount m" "amount rest = amount m - amount s" "amount s' = amount s + amount paid"
    by (auto dest: asset_lt_Inr asset_add_amount asset_sub_amount)
  moreover have "0 < amount paid"
    by (rule match_settles_something[of c i p rest st paid st']) (use 2 calculation in auto)
  ultimately show ?case by simp
qed simp

declare settle_loop.simps [simp del]

text \<open>One round of the loop over the settlements: \<open>Settled\<close> when it ends, \<open>SettleNext\<close> with the current asset and the
  maximal volume otherwise. \<open>first_settlement\<close> is \<open>lower_bound\<close>, \<open>next_settled_asset\<close> the \<open>upper_bound\<close> of \<open>next_asset\<close>.\<close>

datatype settle_progress = Settled chain_state | SettleNext nat asset chain_state

definition first_settlement :: "nat \<Rightarrow> chain_state \<Rightarrow> (nat \<times> force_settlement_object) option" where
  "first_settlement current st =
    (case filter (\<lambda>x. current \<le> asset_id (fs_balance (snd x))) (sort_by settlement_before (entries (settlements st))) of
      [] \<Rightarrow> None | x # _ \<Rightarrow> Some x)"

definition next_settled_asset :: "nat \<Rightarrow> chain_state \<Rightarrow> nat option" where
  "next_settled_asset current st =
    (case filter (\<lambda>x. current < asset_id (fs_balance (snd x))) (sort_by settlement_before (entries (settlements st))) of
      [] \<Rightarrow> None | x # _ \<Rightarrow> Some (asset_id (fs_balance (snd x))))"

definition skip_asset :: "nat \<Rightarrow> asset \<Rightarrow> chain_state \<Rightarrow> settle_progress" where
  "skip_asset current max_volume st = (case next_settled_asset current st of
     None \<Rightarrow> Settled st | Some next \<Rightarrow> SettleNext next max_volume st)"

text \<open>The price that the settlement gets: the feed's settlement price less the offset of the asset.\<close>

definition settlement_match_price :: "asset_bitasset_data \<Rightarrow> asset \<Rightarrow> price res" where
  "settlement_match_price bd balance =
    rbind (asset_mul balance (settlement_price (current_feed bd))) (\<lambda>receives.
    rbind (to_uint64 (u128 (u128 (amount receives) * u128 (10000 - force_settlement_offset_percent (bit_options bd))) div 10000)) (\<lambda>r.
    asset_div balance (receives\<lparr>amount := share_of_u64 r\<rparr>)))"

definition settle_order :: "nat \<Rightarrow> nat \<Rightarrow> asset_bitasset_data \<Rightarrow> asset \<Rightarrow> asset \<Rightarrow> chain_state \<Rightarrow> chain_state res" where
  "settle_order current order_id bd balance max_volume st =
    rbind (settlement_match_price bd balance) (\<lambda>p.
    rbind (settle_loop current order_id p max_volume (mk_asset (force_settled_volume bd) current) st) (\<lambda>(settled, st).
    modify_bitasset current (\<lambda>b. Inr (b\<lparr>force_settled_volume := amount settled\<rparr>)) st))"

definition settle_round :: "nat \<Rightarrow> asset \<Rightarrow> chain_state \<Rightarrow> settle_progress res" where
  "settle_round current max_volume st = (case first_settlement current st of
     None \<Rightarrow> Inr (Settled st)
   | Some (order_id, order) \<Rightarrow>
     let current = asset_id (fs_balance order) in
     rbind (lookup (assets st) current) (\<lambda>_.
     rbind (lookup (bitassets st) current) (\<lambda>bd.
     if has_settlement bd
     then rbind (cancel_settle_order order_id True st) (\<lambda>st. Inr (SettleNext current max_volume st))
     else if settlement_date order > head_block_time st then Inr (skip_asset current max_volume st)
     else if price_is_null (settlement_price (current_feed bd))
     then rbind (cancel_settle_order order_id True st) (\<lambda>st. Inr (SettleNext current max_volume st))
     else
     rbind (if asset_id max_volume = current then Inr max_volume
            else rbind (lookup (dyn_data st) current) (\<lambda>d.
              rbind (max_force_settlement_volume bd (current_supply d)) (\<lambda>v. Inr (mk_asset v current)))) (\<lambda>max_volume.
     if force_settled_volume bd \<ge> amount max_volume then Inr (skip_asset current max_volume st)
     else rbind (settle_order current order_id bd (fs_balance order) max_volume st) (\<lambda>st.
       Inr (SettleNext current max_volume st))))))"

text \<open>What the matching of settlements leaves alone.\<close>

definition kept :: "chain_state \<Rightarrow> (nat, force_settlement_object) fmap \<times> dynamic_global_properties \<times> (nat, limit_order_object) fmap" where
  "kept st = (settlements st, dgp st, limit_orders st)"

lemma adjust_balance_kept: "adjust_balance a d st = Inr st' \<Longrightarrow> kept st' = kept st"
  by (auto simp: kept_def dest!: adjust_balance_cases)

lemma modify_dyn_kept: "modify_dyn i f st = Inr st' \<Longrightarrow> kept st' = kept st"
  by (auto simp: kept_def modify_dyn_def)

lemma modify_stats_kept: "modify_stats i f st = Inr st' \<Longrightarrow> kept st' = kept st"
  by (auto simp: kept_def modify_stats_def)

lemma modify_bitasset_kept: "modify_bitasset i f st = Inr st' \<Longrightarrow> kept st' = kept st"
  by (auto simp: kept_def modify_bitasset_def)

lemma free_collateral_kept:
  "(case cf of None \<Rightarrow> Inr st | Some f \<Rightarrow> adjust_balance b f st) = Inr st' \<Longrightarrow> kept st' = kept st"
  by (auto split: option.splits dest: adjust_balance_kept)

lemmas kept_steps = adjust_balance_kept modify_dyn_kept modify_stats_kept modify_bitasset_kept

lemma push_kept [simp]: "kept (push_applied_operation v st) = kept st"
  by (simp add: kept_def push_applied_operation_def)

lemma calls_kept [simp]: "kept (st\<lparr>call_orders := c\<rparr>) = kept st"
  by (simp add: kept_def)

lemma settlements_kept [simp]: "kept (st\<lparr>settlements := c\<rparr>) = (c, snd (kept st))"
  by (simp add: kept_def)

lemma fill_call_order_kept: "fill_call_order i p r st = Inr (b, st') \<Longrightarrow> kept st' = kept st"
  unfolding fill_call_order_def
  by (elim run_elims; auto dest!: free_collateral_kept kept_steps split: if_splits)

lemma pay_market_fees_kept: "pay_market_fees i x st = Inr (f, st') \<Longrightarrow> kept st' = kept st"
  unfolding pay_market_fees_def by (elim run_elims) (auto dest: kept_steps)

text \<open>Only settlement \<open>i\<close> changes, and not its asset.\<close>

definition settles :: "nat \<Rightarrow> chain_state \<Rightarrow> chain_state \<Rightarrow> bool" where
  "settles i st st' \<longleftrightarrow> snd (kept st') = snd (kept st) \<and>
    (\<forall>j. j \<noteq> i \<longrightarrow> fmlookup (settlements st') j = fmlookup (settlements st) j) \<and>
    (\<forall>s'. fmlookup (settlements st') i = Some s' \<longrightarrow>
      (\<exists>s. fmlookup (settlements st) i = Some s \<and> asset_id (fs_balance s') = asset_id (fs_balance s)))"

lemma settles_trans: "settles i st s1 \<Longrightarrow> settles i s1 s2 \<Longrightarrow> settles i st s2"
  unfolding settles_def by metis

lemma kept_settles: "kept st' = kept st \<Longrightarrow> settles i st st'"
  by (simp add: settles_def kept_def)

lemma fill_settle_order_settles: "fill_settle_order i p r st = Inr (b, st') \<Longrightarrow> settles i st st'"
  unfolding fill_settle_order_def
  by (elim run_elims; auto dest!: pay_market_fees_kept kept_steps simp: settles_def kept_def push_applied_operation_def
      asset_sub_part)

lemma match_settles: "match_call_settle c i p m st = Inr (paid, st') \<Longrightarrow> settles i st st'"
  unfolding match_call_settle_def
  by (elim res_elims) (metis fill_call_order_kept fill_settle_order_settles kept_settles settles_trans Pair_inject sum.inject(2))

lemma cancel_settles:
  "cancel_settle_order i v st = Inr st' \<Longrightarrow> settles i st st' \<and> settlements st' = fmdrop i (settlements st)"
  unfolding cancel_settle_order_def
  by (elim run_elims; auto dest!: kept_steps simp: settles_def kept_def push_applied_operation_def)

lemma catch_resE:
  assumes "(case m of Inl e \<Rightarrow> if e = BlackSwan then x else Inl e | Inr (a, b) \<Rightarrow> f a b) = Inr r"
  obtains (swan) "m = Inl BlackSwan" "x = Inr r" | (ok) a b where "m = Inr (a, b)" "f a b = Inr r"
  using assms by (auto split: sum.splits if_splits)

lemma settle_loop_round:
  assumes "settle_loop mia i p m s st = Inr (s', st')"
  obtains (stop) "st' = st" "fmlookup (settlements st) i = None \<or> amount m \<le> amount s'"
  | (cancel) "cancel_settle_order i True st = Inr st'"
  | (match) room order bd lo rest c paid s1 settled where "asset_lt s m = Inr room" "room"
      "fmlookup (settlements st) i = Some order" "lookup (bitassets st) mia = Inr bd"
      "price_min (short_backing_asset (bit_options bd)) mia = Inr lo" "asset_sub m s = Inr rest"
      "amount (fs_balance order) \<noteq> 0" "least_collateralized lo st = Inr c"
      "match_call_settle c i p rest st = Inr (paid, s1)" "asset_add s paid = Inr settled"
      "settle_loop mia i p m settled s1 = Inr (s', st')"
  using trans[OF settle_loop.simps[symmetric] assms]
  apply (elim catch_resE run_elims)
  apply (fastforce dest: asset_lt_Inr intro: stop)
  apply (fastforce intro: stop)
  apply (simp add: cancel)
  apply (simp add: cancel)
  apply (rule match; simp)
  done

lemma settle_loop_settles:
  assumes "settle_loop mia i p m s st = Inr (s', st')"
  shows "settles i st st' \<and> moves (\<lambda>A. 0) st st' \<and> (fmlookup (settlements st') i = None \<or> amount m \<le> amount s')"
  using assms
proof (induction mia i p m s st rule: settle_loop.induct)
  case (1 mia i p m s st)
  from 1(2) show ?case
  proof (cases rule: settle_loop_round)
    case (match room order bd lo rest c paid s1 settled)
    then have "settles i s1 st' \<and> moves (\<lambda>A. 0) s1 st' \<and> (fmlookup (settlements st') i = None \<or> amount m \<le> amount s')"
      using 1(1) by fastforce
    then show ?thesis using match_settles[OF match(9)] match_call_settle_moves[OF match(9)] settles_trans moves0_trans by blast
  next
    case cancel
    then show ?thesis using cancel_settles[OF cancel] cancel_settle_order_moves[OF cancel] by simp
  qed (simp add: kept_settles moves_refl)
qed

text \<open>The measure of a round: the settlements, those of later assets, and whether the volume of the current asset is
  exhausted.\<close>

definition later_settlements :: "nat \<Rightarrow> chain_state \<Rightarrow> nat set" where
  "later_settlements current st = {i. \<exists>s. fmlookup (settlements st) i = Some s \<and> current < asset_id (fs_balance s)}"

definition volume_exhausted :: "nat \<Rightarrow> asset \<Rightarrow> chain_state \<Rightarrow> bool" where
  "volume_exhausted current m st \<longleftrightarrow> asset_id m = current \<and>
    (case fmlookup (bitassets st) current of None \<Rightarrow> False | Some b \<Rightarrow> amount m \<le> force_settled_volume b)"

definition round_measure :: "nat \<times> asset \<times> chain_state \<Rightarrow> nat \<times> nat \<times> nat" where
  "round_measure = (\<lambda>(current, m, st). (card (fmdom' (settlements st)), card (later_settlements current st),
     if volume_exhausted current m st then 0 else 1))"

lemma finite_later: "finite (later_settlements current st)"
  by (rule finite_subset[of _ "fmdom' (settlements st)"]) (auto simp: later_settlements_def fmdom'_iff)

lemma index_head:
  "filter P (sort_by lt (entries t)) = x # xs \<Longrightarrow> fmlookup t (fst x) = Some (snd x) \<and> P x"
  by (cases x; drule arg_cong[of _ _ set]) (auto simp: set_eq_iff set_entries)

lemma first_settlement_Some:
  "first_settlement current st = Some (i, s) \<Longrightarrow> fmlookup (settlements st) i = Some s \<and> current \<le> asset_id (fs_balance s)"
  by (auto simp: first_settlement_def split: list.splits dest!: index_head)

lemma next_settled_asset_Some:
  "next_settled_asset current st = Some a \<Longrightarrow>
    \<exists>i s. fmlookup (settlements st) i = Some s \<and> current < asset_id (fs_balance s) \<and> a = asset_id (fs_balance s)"
  by (auto simp: next_settled_asset_def split: list.splits dest!: index_head)

lemma skip_asset_next:
  assumes "skip_asset a m st = SettleNext current' m' st'" "current \<le> a"
  shows "st' = st \<and> (\<exists>i s. fmlookup (settlements st) i = Some s \<and> current < asset_id (fs_balance s) \<and> current' = asset_id (fs_balance s))"
proof -
  have "next_settled_asset a st = Some current'" "st' = st" using assms(1) by (auto simp: skip_asset_def split: option.splits)
  then show ?thesis using next_settled_asset_Some assms(2) by (metis le_less_trans)
qed

text \<open>The ways a round goes on.\<close>

lemma settle_round_next:
  assumes "settle_round current m st = Inr (SettleNext current' m' st')"
  obtains (cancel) i s where "fmlookup (settlements st) i = Some s" "cancel_settle_order i True st = Inr st'"
  | (skip) "st' = st" "\<exists>i s. fmlookup (settlements st) i = Some s \<and> current < asset_id (fs_balance s) \<and> current' = asset_id (fs_balance s)"
  | (settle) i s bd where "fmlookup (settlements st) i = Some s" "current \<le> current'" "current' = asset_id (fs_balance s)"
      "fmlookup (bitassets st) current' = Some bd" "asset_id m' = current'" "asset_id m = current' \<Longrightarrow> m' = m"
      "force_settled_volume bd < amount m'" "settle_order current' i bd (fs_balance s) m' st = Inr st'"
proof -
  obtain i s where f: "first_settlement current st = Some (i, s)"
    using assms by (auto simp: settle_round_def split: option.splits)
  note fs = first_settlement_Some[OF f]
  have skipped: thesis if "skip_asset (asset_id (fs_balance s)) m'' st = SettleNext current' m' st'" for m''
    using skip_asset_next[OF that, of current] fs skip by blast
  show thesis using assms f fs unfolding settle_round_def f option.case prod.case
    apply (elim run_elims)
    apply (fastforce intro: cancel)
    apply (fastforce intro: skipped)
    apply (fastforce intro: cancel)
    apply (fastforce intro: skipped)
    apply (rule settle[of i s], auto)
    apply (fastforce intro: skipped)
    apply (rule settle[of i s], auto)
    done
qed

lemma settle_order_settles:
  assumes "settle_order current i bd bal m st = Inr st'" "asset_id m = current"
  shows "settles i st st' \<and> moves (\<lambda>A. 0) st st' \<and>
    (fmlookup (settlements st') i = None \<or> volume_exhausted current m st')"
  using assms unfolding settle_order_def
proof (elim res_elims, goal_cases)
  case (1 p settled s1)
  note l = settle_loop_settles[OF 1(3)]
  obtain b where b: "fmlookup (bitassets s1) current = Some b"
      "st' = s1\<lparr>bitassets := fmupd current (b\<lparr>force_settled_volume := amount settled\<rparr>) (bitassets s1)\<rparr>"
    using 1(4) by (auto simp: modify_bitasset_def)
  have "kept st' = kept s1" by (simp add: b(2) kept_def)
  moreover have "moves (\<lambda>A. 0) s1 st'"
    using b by (auto simp: moves_def chain_ok_def excess_def fmsum_fmupd bit_part_def bit_ok_def has_settlement_def intro: unused_fmupd)
  moreover have "settlements st' = settlements s1" by (simp add: b(2))
  moreover have "amount m \<le> amount settled \<Longrightarrow> volume_exhausted current m st'"
    using assms(2) by (simp add: b(2) volume_exhausted_def)
  ultimately show ?case using l settles_trans[OF _ kept_settles] moves0_trans by metis
qed

lemma settles_dom: "settles i st st' \<Longrightarrow> fmdom' (settlements st') \<subseteq> fmdom' (settlements st)"
  unfolding settles_def by (metis fmdom'_iff not_Some_eq subsetI)

lemma settles_later: "settles i st st' \<Longrightarrow> later_settlements current st' \<subseteq> later_settlements current st"
  unfolding settles_def later_settlements_def by (clarsimp, metis)

lemma removed_settlement:
  assumes "settles i st st'" "fmlookup (settlements st) i = Some s" "fmlookup (settlements st') i = None"
  shows "card (fmdom' (settlements st')) < card (fmdom' (settlements st))"
proof (rule psubset_card_mono)
  have "i \<in> fmdom' (settlements st)" "i \<notin> fmdom' (settlements st')" using assms(2,3) by (simp_all add: fmdom'_iff)
  then show "fmdom' (settlements st') \<subset> fmdom' (settlements st)" using settles_dom[OF assms(1)] by blast
qed simp

lemma later_strict:
  assumes "fmlookup (settlements st) i = Some s" "current < asset_id (fs_balance s)"
  shows "later_settlements (asset_id (fs_balance s)) st \<subset> later_settlements current st"
proof -
  have "i \<in> later_settlements current st" "i \<notin> later_settlements (asset_id (fs_balance s)) st"
    using assms by (simp_all add: later_settlements_def)
  moreover have "later_settlements (asset_id (fs_balance s)) st \<subseteq> later_settlements current st"
    using assms(2) by (auto simp: later_settlements_def)
  ultimately show ?thesis by blast
qed

lemma settle_round_decreases:
  assumes "settle_round current m st = Inr (SettleNext current' m' st')"
  shows "(round_measure (current', m', st'), round_measure (current, m, st)) \<in> less_than <*lex*> less_than <*lex*> less_than"
  using assms
proof (cases rule: settle_round_next)
  case (cancel i s)
  then have "card (fmdom' (settlements st')) < card (fmdom' (settlements st))"
    by (intro removed_settlement[OF _ cancel(1)]) (auto dest: cancel_settles)
  then show ?thesis by (simp add: round_measure_def)
next
  case skip
  then have "later_settlements current' st \<subset> later_settlements current st" using later_strict by blast
  then show ?thesis using skip(1) psubset_card_mono[OF finite_later] by (simp add: round_measure_def)
next
  case (settle i s bd)
  have so: "settles i st st'" "fmlookup (settlements st') i = None \<or> volume_exhausted current' m' st'"
    using settle_order_settles[OF settle(8,5)] by auto
  show ?thesis
  proof (cases "fmlookup (settlements st') i = None")
    case True
    then show ?thesis using removed_settlement[OF so(1) settle(1)] by (simp add: round_measure_def)
  next
    case False
    then have ex: "volume_exhausted current' m' st'" using so(2) by auto
    have dom: "card (fmdom' (settlements st')) \<le> card (fmdom' (settlements st))"
      by (rule card_mono[OF _ settles_dom[OF so(1)]]) simp
    have later: "later_settlements current' st' \<subseteq> later_settlements current' st" by (rule settles_later[OF so(1)])
    show ?thesis
    proof (cases "current = current'")
      case True
      then have "\<not> volume_exhausted current m st" using settle(4,6,7) by (auto simp: volume_exhausted_def)
      then show ?thesis using ex dom card_mono[OF finite_later later] True by (auto simp: round_measure_def)
    next
      case False
      then have "later_settlements current' st \<subset> later_settlements current st"
        using settle(1-3) later_strict[OF settle(1), of current] by auto
      then have "card (later_settlements current' st') < card (later_settlements current st)"
        using later by (simp add: psubset_card_mono[OF finite_later] subset_psubset_trans)
      then show ?thesis using dom by (auto simp: round_measure_def)
    qed
  qed
qed

function settle_rounds :: "nat \<Rightarrow> asset \<Rightarrow> chain_state \<Rightarrow> chain_state res" where
  "settle_rounds current m st = rbind (settle_round current m st) (\<lambda>r. case r of
     Settled st \<Rightarrow> Inr st
   | SettleNext current m st \<Rightarrow> settle_rounds current m st)"
  by pat_completeness auto

termination
  by (relation "inv_image (less_than <*lex*> less_than <*lex*> less_than) round_measure")
    (auto intro!: settle_round_decreases)

declare settle_rounds.simps [simp del]

lemma settle_round_moves:
  assumes "settle_round current m st = Inr r"
  shows "case r of Settled st' \<Rightarrow> st' = st | SettleNext current' m' st' \<Rightarrow> moves (\<lambda>A. 0) st st' \<and> snd (kept st') = snd (kept st)"
proof (cases r)
  case (Settled st')
  then show ?thesis using assms unfolding settle_round_def
    by (auto simp: skip_asset_def Let_def split: option.splits if_splits)
next
  case (SettleNext current' m' st')
  with assms have "settle_round current m st = Inr (SettleNext current' m' st')" by simp
  then have "moves (\<lambda>A. 0) st st' \<and> snd (kept st') = snd (kept st)"
  proof (cases rule: settle_round_next)
    case (cancel i s)
    then show ?thesis using cancel_settles[OF cancel(2)] cancel_settle_order_moves by (simp add: settles_def)
  next
    case (settle i s bd)
    then show ?thesis using settle_order_settles[OF settle(8,5)] by (simp add: settles_def)
  qed (simp add: moves_refl)
  with SettleNext show ?thesis by simp
qed

lemma settle_rounds_moves:
  assumes "settle_rounds current m st = Inr st'"
  shows "moves (\<lambda>A. 0) st st' \<and> snd (kept st') = snd (kept st)"
  using assms
proof (induction current m st rule: settle_rounds.induct)
  case (1 current m st)
  obtain r where r: "settle_round current m st = Inr r"
      "(case r of Settled st \<Rightarrow> Inr st | SettleNext current m st \<Rightarrow> settle_rounds current m st) = Inr st'"
    using trans[OF settle_rounds.simps[symmetric] 1(2)] by (elim rbindE)
  show ?case
  proof (cases r)
    case (Settled s)
    then show ?thesis using r settle_round_moves[OF r(1)] by (simp add: moves_refl)
  next
    case (SettleNext c' m' s)
    then have "moves (\<lambda>A. 0) s st' \<and> snd (kept st') = snd (kept s)" using 1(1)[OF r(1)] r(2) by simp
    then show ?thesis using settle_round_moves[OF r(1)] SettleNext moves0_trans by fastforce
  qed
qed

section \<open>The whole of it\<close>

definition skip_authority_check :: "32 word" where "skip_authority_check = 64"

text \<open>\<open>with_skip_flags\<close> puts the old flags back.\<close>

definition with_skip_flags :: "32 word \<Rightarrow> (chain_state \<Rightarrow> chain_state res) \<Rightarrow> chain_state \<Rightarrow> chain_state res" where
  "with_skip_flags flags f st = rbind (f (st\<lparr>skip_flags := flags\<rparr>)) (\<lambda>st'. Inr (st'\<lparr>skip_flags := skip_flags st\<rparr>))"

definition clear_expired_orders :: "(operation \<Rightarrow> int res) \<Rightarrow> chain_state \<Rightarrow> chain_state res" where
  "clear_expired_orders schedule st =
    rbind (with_skip_flags (skip_flags st OR skip_authority_check) (expire_limits schedule) st) (\<lambda>st.
    case first_settlement 0 st of
      None \<Rightarrow> Inr st
    | Some (_, s) \<Rightarrow> settle_rounds (asset_id (fs_balance s)) (mk_asset 0 0) st)"

lemma skip_flags_moves: "moves (\<lambda>A. 0) st (st\<lparr>skip_flags := f\<rparr>)"
  by (simp add: moves_def chain_ok_def excess_def)

lemma with_skip_flags_moves:
  assumes "with_skip_flags flags f st = Inr st'" "\<And>s s'. f s = Inr s' \<Longrightarrow> moves (\<lambda>A. 0) s s'"
  shows "moves (\<lambda>A. 0) st st'"
proof -
  obtain s where s: "f (st\<lparr>skip_flags := flags\<rparr>) = Inr s" "st' = s\<lparr>skip_flags := skip_flags st\<rparr>"
    using assms(1) by (auto simp: with_skip_flags_def)
  show ?thesis unfolding s(2) by (rule moves0_trans[OF skip_flags_moves moves0_trans[OF assms(2)[OF s(1)] skip_flags_moves]])
qed

lemma clear_expired_orders_moves: "clear_expired_orders schedule st = Inr st' \<Longrightarrow> moves (\<lambda>A. 0) st st'"
  unfolding clear_expired_orders_def
proof (elim rbindE option_resE)
  fix s assume "with_skip_flags (skip_flags st OR skip_authority_check) (expire_limits schedule) st = Inr s"
  then have m: "moves (\<lambda>A. 0) st s" using with_skip_flags_moves expire_limits_moves by blast
  { assume "Inr s = (Inr st' :: chain_state res)" then show "moves (\<lambda>A. 0) st st'" using m by simp }
  fix y assume "(case y of (_, x) \<Rightarrow> settle_rounds (asset_id (fs_balance x)) (mk_asset 0 0) s) = Inr st'"
  then show "moves (\<lambda>A. 0) st st'" using m settle_rounds_moves moves0_trans by (cases y) auto
qed

lemma no_expired_orders:
  assumes "clear_expired_orders schedule st = Inr st'" "fmlookup (limit_orders st') i = Some l"
  shows "head_block_time st' < lo_expiration l"
proof -
  obtain s where s: "with_skip_flags (skip_flags st OR skip_authority_check) (expire_limits schedule) st = Inr s"
      "st' = s \<or> (\<exists>a. settle_rounds a (mk_asset 0 0) s = Inr st')"
    using assms(1) unfolding clear_expired_orders_def by (auto split: option.splits)
  then have same: "snd (kept st') = snd (kept s)" using settle_rounds_moves by blast
  obtain s0 where "expire_limits schedule (st\<lparr>skip_flags := skip_flags st OR skip_authority_check\<rparr>) = Inr s0"
      "s = s0\<lparr>skip_flags := skip_flags st\<rparr>"
    using s(1) by (auto simp: with_skip_flags_def)
  then show ?thesis using expire_limits_done[of schedule _ s0 i l] same assms(2) by (simp add: kept_def head_block_time_def)
qed

section \<open>Expired feeds and permissions\<close>

text \<open>After the medians of an asset were recomputed, the margin calls are checked in the base asset of its settlement
  price, which is the core asset when the feed became null.\<close>

definition update_expired_feed :: "nat \<Rightarrow> chain_state \<Rightarrow> chain_state res" where
  "update_expired_feed i st =
    rbind (lookup (bitassets st) i) (\<lambda>b.
    rbind (if (if head_block_time st < hardfork_time st 615
               then feed_is_expired_before_hardfork_615 b (head_block_time st)
               else feed_is_expired b (head_block_time st))
           then rbind (modify_bitasset i (update_median_feeds (head_block_time st)) st) (\<lambda>st.
             rbind (lookup (bitassets st) i) (\<lambda>b.
             let a = asset_id (base (settlement_price (current_feed b))) in
             rbind (lookup (assets st) a) (\<lambda>_.
             rbind (check_call_orders a True st) (\<lambda>(_, st). Inr st))))
           else Inr st) (\<lambda>st.
    rbind (lookup (bitassets st) i) (\<lambda>b. rbind (lookup (assets st) i) (\<lambda>a.
    let rate = core_exchange_rate (current_feed b) in
    if \<not> price_is_null rate \<and> \<not> price_eq (opt_core_exchange_rate (options a)) rate
    then modify_asset i (\<lambda>a. a\<lparr>options := (options a)\<lparr>opt_core_exchange_rate := rate\<rparr>\<rparr>) st
    else Inr st))))"

definition market_issued_assets :: "chain_state \<Rightarrow> nat list" where
  "market_issued_assets st = map fst (filter (\<lambda>x. is_market_issued (snd x)) (entries (assets st)))"

definition update_expired_feeds :: "chain_state \<Rightarrow> chain_state res" where
  "update_expired_feeds st = rfold update_expired_feed (market_issued_assets st) st"

text \<open>The loop removes the permissions in the order of their expiration until the first that has not expired.\<close>

definition update_withdraw_permissions :: "chain_state \<Rightarrow> chain_state" where
  "update_withdraw_permissions st =
    st\<lparr>withdraw_permissions := fmfilter (\<lambda>i. case fmlookup (withdraw_permissions st) i of
        None \<Rightarrow> False | Some p \<Rightarrow> \<not> wp_expiration p \<le> head_block_time st) (withdraw_permissions st)\<rparr>"

lemma modify_asset_rate_moves:
  "modify_asset i (\<lambda>a. a\<lparr>options := (options a)\<lparr>opt_core_exchange_rate := r\<rparr>\<rparr>) st = Inr st' \<Longrightarrow> moves (\<lambda>A. 0) st st'"
  by (auto simp: modify_asset_def moves_def chain_ok_def excess_def split: if_splits)

lemma median_update_moves:
  assumes "modify_bitasset i (update_median_feeds now) st = Inr st'"
  shows "moves (\<lambda>A. 0) st st'"
  using feed_update_moves[of i now feeds st st'] assms by simp

lemma update_expired_feed_moves: "update_expired_feed i st = Inr st' \<Longrightarrow> moves (\<lambda>A. 0) st st'"
  unfolding update_expired_feed_def
proof (elim rbindE, goal_cases)
  case (1 b s1 b' a)
  have "moves (\<lambda>A. 0) st s1"
    using 1(2) by (elim run_elims) (auto intro: moves_refl moves0_trans median_update_moves check_call_orders_moves)
  moreover have "moves (\<lambda>A. 0) s1 st'"
    using 1(5) by (auto simp: Let_def intro: moves_refl modify_asset_rate_moves split: if_splits)
  ultimately show ?case by (rule moves0_trans)
qed

lemma update_expired_feeds_moves: "update_expired_feeds st = Inr st' \<Longrightarrow> moves (\<lambda>A. 0) st st'"
  unfolding update_expired_feeds_def
  by (rule rfold_invariant[where P = "moves (\<lambda>A. 0) st"]) (auto intro: moves_refl moves0_trans update_expired_feed_moves)

lemma update_withdraw_permissions_moves: "moves (\<lambda>A. 0) st (update_withdraw_permissions st)"
  by (simp add: update_withdraw_permissions_def moves_def chain_ok_def excess_def)

section \<open>Properties\<close>


text \<open>The market of the margin call example with an order that expires now and a due settlement of 50 units.\<close>

definition due_settlement :: force_settlement_object where
  "due_settlement = \<lparr>fs_owner = 11, fs_balance = mk_asset 50 1, settlement_date = 900\<rparr>"

definition settling_market :: chain_state where
  "settling_market = (margin_market 300)\<lparr>settlements := fmupd 0 due_settlement fmempty, next_settlement := 1\<rparr>"

lemma settling_market_ok: "chain_ok settling_market"
  using margin_market_ok[of 300] by (auto simp: chain_ok_def settling_market_def unused_from_def i64_defs)


end
