(* ===== verification/Budget.thy ===== *)
theory Budget
  imports Governance_Conservation
begin

text \<open>Where the core asset comes from: the budget of \<open>chain/db_maint.cpp\<close> (\<open>initialize_budget_record\<close>,
  \<open>process_budget\<close>, \<open>pay_workers\<close>), the payment of workers (\<open>worker_object.hpp\<close>, \<open>worker_evaluator.cpp\<close>) and the distribution of
  the fees of confidential transfers (\<open>split_fba_balance\<close>, \<open>fba_object.cpp\<close>).

  Times are seconds; a difference of times is a number of microseconds in the code. Conversions between \<open>share_type\<close> and
  unsigned numbers are written out (\<open>u128\<close>, \<open>to_uint64\<close>, \<open>share_of_u64\<close>). The assertions on the arguments of
  \<open>process_budget\<close> are compiled out of a release build: a maintenance time that is not in the future is then
  converted to a large unsigned number, and a block interval of zero divides by zero.\<close>

section \<open>Workers\<close>

definition worker_is_active :: "int \<Rightarrow> worker_object \<Rightarrow> bool" where
  "worker_is_active now w \<longleftrightarrow> now \<ge> work_begin_date w \<and> now \<le> work_end_date w"

definition approving_stake :: "worker_object \<Rightarrow> int" where
  "approving_stake w = share_of_u64 (total_votes_for w) - share_of_u64 (total_votes_against w)"

fun pay_worker :: "int \<Rightarrow> worker_type \<Rightarrow> chain_state \<Rightarrow> (worker_type \<times> chain_state) res" where
  "pay_worker pay (RefundWorker burned) st =
    rbind (safe_add burned pay) (\<lambda>burned.
    rbind (modify_dyn 0 (\<lambda>d. rbind (safe_sub (current_supply d) pay) (\<lambda>s. Inr (d\<lparr>current_supply := s\<rparr>))) st) (\<lambda>st.
    Inr (RefundWorker burned, st)))"
| "pay_worker pay (VestingWorker i) st =
    rbind (lookup (vesting_balances st) i) (\<lambda>v.
    rbind (vb_deposit (head_block_time st) (mk_asset pay 0) v) (\<lambda>v.
    Inr (VestingWorker i, st\<lparr>vesting_balances := fmupd i v (vesting_balances st)\<rparr>)))"
| "pay_worker pay (BurnWorker burned) st =
    rbind (safe_add burned pay) (\<lambda>burned.
    rbind (adjust_balance NULL_ACCOUNT (mk_asset pay 0) st) (\<lambda>st. Inr (BurnWorker burned, st)))"

definition worker_before :: "nat \<times> worker_object \<Rightarrow> nat \<times> worker_object \<Rightarrow> bool" where
  "worker_before x y \<longleftrightarrow> approving_stake (snd x) > approving_stake (snd y) \<or>
     approving_stake (snd x) = approving_stake (snd y) \<and> fst x < fst y"

definition active_workers :: "chain_state \<Rightarrow> nat list" where
  "active_workers st = map fst (sort_by worker_before
     (filter (\<lambda>x. worker_is_active (head_block_time st) (snd x) \<and> approving_stake (snd x) > 0) (entries (workers st))))"

text \<open>A day's pay, scaled to the time since the last budget.\<close>

definition requested_pay :: "int \<Rightarrow> chain_state \<Rightarrow> int res" where
  "requested_pay daily st =
    (let elapsed = 1000000 * (head_block_time st - last_budget_time (dgp st)); day = 1000000 * 86400 in
     if elapsed = day then Inr daily
     else rbind (to_uint64 (u128 (u128 daily * u128 elapsed) div day)) (\<lambda>p. Inr (share_of_u64 p)))"

definition pay_active_worker :: "nat \<Rightarrow> int \<times> chain_state \<Rightarrow> (int \<times> chain_state) res" where
  "pay_active_worker i bst = (case bst of (budget, st) \<Rightarrow>
    if \<not> budget > 0 then Inr (budget, st) else
    rbind (lookup (workers st) i) (\<lambda>w.
    rbind (requested_pay (daily_pay w) st) (\<lambda>requested.
    let actual = (if requested < budget then requested else budget) in
    rbind (pay_worker actual (worker w) st) (\<lambda>(wt, st).
    rbind (safe_sub budget actual) (\<lambda>budget.
    Inr (budget, st\<lparr>workers := fmupd i (w\<lparr>worker := wt\<rparr>) (workers st)\<rparr>))))))"

definition pay_workers :: "int \<Rightarrow> chain_state \<Rightarrow> (int \<times> chain_state) res" where
  "pay_workers budget st = rfold pay_active_worker (active_workers st) (budget, st)"

section \<open>The budget\<close>

definition CORE_ASSET_CYCLE_RATE :: int where "CORE_ASSET_CYCLE_RATE = 17"
definition CORE_ASSET_CYCLE_RATE_BITS :: nat where "CORE_ASSET_CYCLE_RATE_BITS = 32"

definition initial_record :: "int \<Rightarrow> int \<Rightarrow> int \<Rightarrow> budget_record" where
  "initial_record reserved fees unused =
    \<lparr>time_since_last_budget = 0, from_initial_reserve = reserved, from_accumulated_fees = fees,
     from_unused_witness_budget = unused, requested_witness_budget = 0, total_budget = 0, br_witness_budget = 0,
     worker_budget = 0, leftover_worker_funds = 0, supply_delta = 0\<rparr>"

text \<open>The comparison \<open>budget_u128 < reserve.value\<close> is one of 128-bit numbers.\<close>

definition cycle_budget :: "int \<Rightarrow> int \<Rightarrow> int res" where
  "cycle_budget reserve dt =
    (let b = u128 (u128 (u128 (u128 reserve * dt) * CORE_ASSET_CYCLE_RATE) + (2 ^ CORE_ASSET_CYCLE_RATE_BITS - 1))
           div 2 ^ CORE_ASSET_CYCLE_RATE_BITS in
     if b < u128 reserve then rbind (to_uint64 b) (\<lambda>x. Inr (share_of_u64 x)) else Inr reserve)"

definition initialize_budget_record :: "int \<Rightarrow> chain_state \<Rightarrow> budget_record res" where
  "initialize_budget_record now st =
    rbind (lookup (assets st) 0) (\<lambda>core.
    rbind (lookup (dyn_data st) 0) (\<lambda>core_dd.
    rbind (dynamic_reserved core core_dd) (\<lambda>reserved.
    let rec = initial_record reserved (accumulated_fees core_dd) (witness_budget (dgp st)) in
    if last_budget_time (dgp st) = 0 \<or> now \<le> last_budget_time (dgp st) then Inr rec
    else let dt = now - last_budget_time (dgp st) in
      rbind (safe_add reserved (accumulated_fees core_dd)) (\<lambda>reserve.
      rbind (safe_add reserve (witness_budget (dgp st))) (\<lambda>reserve.
      rbind (cycle_budget reserve dt) (\<lambda>total.
      Inr (rec\<lparr>time_since_last_budget := dt, total_budget := total\<rparr>)))))))"

definition witness_request :: "int \<Rightarrow> chain_state \<Rightarrow> int res" where
  "witness_request time_to_maint st =
    rassert (block_interval (params st) \<noteq> 0) UB
      (Inr (share_of_u64 (witness_pay_per_block (params st) *
         (((time_to_maint mod 2 ^ 64 + block_interval (params st) - 1) mod 2 ^ 64) div block_interval (params st)) mod 2 ^ 64)))"

definition worker_share :: "int \<Rightarrow> int \<Rightarrow> chain_state \<Rightarrow> int res" where
  "worker_share time_to_maint available st =
    (let w = u128 (u128 (worker_budget_per_day (params st)) * (time_to_maint mod 2 ^ 64)) div 86400 in
     if w \<ge> u128 available then Inr available else rbind (to_uint64 w) (\<lambda>x. Inr (share_of_u64 x)))"

definition process_budget :: "chain_state \<Rightarrow> chain_state res" where
  "process_budget st =
    (let now = head_block_time st; time_to_maint = next_maintenance_time (dgp st) - now in
    rbind (initialize_budget_record now st) (\<lambda>rec.
    rbind (witness_request time_to_maint st) (\<lambda>requested.
    let wb = (if total_budget rec < requested then total_budget rec else requested) in
    rbind (safe_sub (total_budget rec) wb) (\<lambda>available.
    rbind (worker_share time_to_maint available st) (\<lambda>worker_budget.
    rbind (safe_sub available worker_budget) (\<lambda>available.
    rbind (pay_workers worker_budget st) (\<lambda>(leftover, st).
    rbind (safe_add available leftover) (\<lambda>_.
    rbind (safe_add wb worker_budget) (\<lambda>delta.
    rbind (safe_sub delta leftover) (\<lambda>delta.
    rbind (safe_sub delta (from_accumulated_fees rec)) (\<lambda>delta.
    rbind (safe_sub delta (from_unused_witness_budget rec)) (\<lambda>delta.
    let rec = rec\<lparr>requested_witness_budget := requested, br_witness_budget := wb, worker_budget := worker_budget,
          leftover_worker_funds := leftover, supply_delta := delta\<rparr> in
    rbind (modify_dyn 0 (\<lambda>d. rbind (safe_add (current_supply d) delta) (\<lambda>s.
             Inr (d\<lparr>current_supply := s, accumulated_fees := 0\<rparr>))) st) (\<lambda>st.
    Inr (st\<lparr>dgp := (dgp st)\<lparr>witness_budget := wb, last_budget_time := now\<rparr>,
            budget_records := budget_records st @ [(head_block_time st, rec)]\<rparr>))))))))))))))"

section \<open>The fees of confidential transfers\<close>

definition allowed_fba_flags :: "16 word \<Rightarrow> bool" where
  "allowed_fba_flags f \<longleftrightarrow> f AND charge_market_fee = f"

fun top_holders_of :: "nat \<Rightarrow> special_authority \<Rightarrow> bool" where
  "top_holders_of i (TopHoldersSpecialAuthority a n) \<longleftrightarrow> a = i"
| "top_holders_of i NoSpecialAuthority \<longleftrightarrow> False"

definition fba_is_configured :: "fba_accumulator_object \<Rightarrow> chain_state \<Rightarrow> bool res" where
  "fba_is_configured fba st = (case designated_asset fba of
     None \<Rightarrow> Inr False
   | Some i \<Rightarrow> (case fmlookup (assets st) i of
       None \<Rightarrow> Inr False
     | Some a \<Rightarrow>
         if is_market_issued a \<or> \<not> allowed_fba_flags (issuer_permissions (options a)) \<or>
           \<not> allowed_fba_flags (asset_flags (options a)) \<or> buyback_account a = None then Inr False
         else rbind (lookup (accounts st) (issuer a)) (\<lambda>issuer_acct.
           Inr (top_holders_of i (owner_special_authority issuer_acct) \<and>
             top_holders_of i (active_special_authority issuer_acct) \<and> top_n_control_flags issuer_acct = 3))))"

definition fba_percent :: "int \<Rightarrow> int \<Rightarrow> int res" where
  "fba_percent fees pct = rbind (to_uint64 (u128 (u128 fees * pct) div 10000)) (\<lambda>x. Inr (share_of_u64 x))"

definition sub_core_supply :: "int \<Rightarrow> chain_state \<Rightarrow> chain_state res" where
  "sub_core_supply x = modify_dyn 0 (\<lambda>d. rbind (safe_sub (current_supply d) x) (\<lambda>s. Inr (d\<lparr>current_supply := s\<rparr>)))"

definition pay_fba :: "nat \<Rightarrow> nat \<Rightarrow> int \<Rightarrow> chain_state \<Rightarrow> chain_state res" where
  "pay_fba acct fba_id x st =
    (if x = 0 then Inr st
     else rbind (adjust_balance acct (mk_asset x 0) st) (\<lambda>st. Inr (push_applied_operation (FbaDistributeOp acct fba_id x) st)))"

definition clear_fba :: "nat \<Rightarrow> fba_accumulator_object \<Rightarrow> chain_state \<Rightarrow> chain_state" where
  "clear_fba i fba st = st\<lparr>fba_accumulators := fmupd i (fba\<lparr>accumulated_fba_fees := 0\<rparr>) (fba_accumulators st)\<rparr>"

definition give_to_network :: "int \<Rightarrow> chain_state \<Rightarrow> chain_state res" where
  "give_to_network x st = (if x \<noteq> 0 then sub_core_supply x st else Inr st)"

definition split_fba_balance :: "nat \<Rightarrow> int \<Rightarrow> int \<Rightarrow> int \<Rightarrow> chain_state \<Rightarrow> chain_state res" where
  "split_fba_balance fba_id network_pct buyback_pct issuer_pct st =
    fc_assert (network_pct + buyback_pct + issuer_pct = 10000)
    (rbind (lookup (fba_accumulators st) fba_id) (\<lambda>fba.
    let fees = accumulated_fba_fees fba in
    if fees = 0 then Inr st else
    rbind (fba_is_configured fba st) (\<lambda>configured.
    if \<not> configured then rbind (sub_core_supply fees st) (\<lambda>st. Inr (clear_fba fba_id fba st)) else
    rbind (fba_percent fees buyback_pct) (\<lambda>buyback_amount.
    rbind (fba_percent fees issuer_pct) (\<lambda>issuer_amount.
    rbind (safe_add buyback_amount issuer_amount) (\<lambda>both.
    fc_assert (both \<le> fees)
    (rbind (safe_sub fees both) (\<lambda>network_amount.
    rbind (from_option UB (designated_asset fba)) (\<lambda>i.
    rbind (lookup (assets st) i) (\<lambda>a.
    rbind (give_to_network network_amount st) (\<lambda>st.
    rbind (from_option UB (buyback_account a)) (\<lambda>buyback.
    rbind (pay_fba buyback fba_id buyback_amount st) (\<lambda>st.
    rbind (pay_fba (issuer a) fba_id issuer_amount st) (\<lambda>st.
    Inr (clear_fba fba_id fba st)))))))))))))))"

definition distribute_fba_balances :: "chain_state \<Rightarrow> chain_state res" where
  "distribute_fba_balances st =
    rbind (split_fba_balance 0 2000 6000 2000 st) (\<lambda>st.
    rbind (split_fba_balance 1 2000 6000 2000 st) (\<lambda>st.
    split_fba_balance 2 2000 6000 2000 st))"

section \<open>What paying the workers does\<close>

text \<open>\<open>core_paid p r st st'\<close>: \<open>p\<close> was paid out, \<open>r\<close> of it by lowering the supply.\<close>

definition core_paid :: "int \<Rightarrow> int \<Rightarrow> chain_state \<Rightarrow> chain_state \<Rightarrow> bool" where
  "core_paid p r st st' \<longleftrightarrow> moves (\<lambda>A. part A (mk_asset p 0)) st st' \<and> dgp st' = dgp st \<and> assets st' = assets st \<and> params st' = params st \<and>
    budget_records st' = budget_records st \<and>
    (\<forall>d. fmlookup (dyn_data st) 0 = Some d \<longrightarrow> fmlookup (dyn_data st') 0 = Some (d\<lparr>current_supply := current_supply d - r\<rparr>))"

lemma core_paid_refl: "core_paid 0 0 st st"
  by (simp add: core_paid_def moves_refl)

lemma core_paid_trans:
  assumes "core_paid p r st s1" "core_paid q t s1 s2"
  shows "core_paid (p + q) (r + t) st s2"
proof -
  have "moves (\<lambda>A. part A (mk_asset (p + q) 0)) st s2"
    by (rule moves_trans[of "\<lambda>A. part A (mk_asset p 0)" st s1 "\<lambda>A. part A (mk_asset q 0)"])
      (use assms in \<open>auto simp: core_paid_def\<close>)
  then show ?thesis using assms by (auto simp: core_paid_def algebra_simps)
qed

lemma pay_worker_paid:
  assumes "pay_worker pay w st = Inr (w', st')"
  shows "\<exists>r. core_paid pay r st st' \<and> (r = 0 \<or> r = pay)"
proof (cases w)
  case (RefundWorker b)
  then obtain s where "modify_dyn 0 (\<lambda>d. rbind (safe_sub (current_supply d) pay) (\<lambda>s. Inr (d\<lparr>current_supply := s\<rparr>))) st = Inr st'"
    using assms by auto
  from sub_supply_moves[OF this] have "core_paid pay pay st st'" by (auto simp: core_paid_def)
  then show ?thesis by blast
next
  case (VestingWorker i)
  then obtain v v' where v: "fmlookup (vesting_balances st) i = Some v"
      "vb_deposit (head_block_time st) (mk_asset pay 0) v = Inr v'"
      "st' = st\<lparr>vesting_balances := fmupd i v' (vesting_balances st)\<rparr>"
    using assms by auto
  have "moves (\<lambda>A. part A (mk_asset pay 0)) st st'"
    using v vb_deposit_part(1)[OF v(2)] by (auto simp: moves_def chain_ok_def excess_def fmsum_fmupd intro: unused_fmupd)
  then have "core_paid pay 0 st st'" by (auto simp: core_paid_def v(3))
  then show ?thesis by blast
next
  case (BurnWorker b)
  then have a: "adjust_balance NULL_ACCOUNT (mk_asset pay 0) st = Inr st'" using assms by auto
  have "core_paid pay 0 st st'" using adjust_balance_moves[OF a] adjust_balance_cases[OF a] by (auto simp: core_paid_def)
  then show ?thesis by blast
qed

lemma workers_update_paid: "core_paid 0 0 st (st\<lparr>workers := w\<rparr>)"
  by (auto simp: core_paid_def moves_def chain_ok_def excess_def)

definition pays_ok :: "chain_state \<Rightarrow> bool" where
  "pays_ok st \<longleftrightarrow> (\<forall>i w. fmlookup (workers st) i = Some w \<longrightarrow> (\<forall>p. requested_pay (daily_pay w) st = Inr p \<longrightarrow> 0 \<le> p))"

lemma pay_worker_workers: "pay_worker pay w st = Inr (w', st') \<Longrightarrow> workers st' = workers st"
  by (cases w) (auto simp: modify_dyn_def dest!: adjust_balance_cases)

lemma requested_pay_dgp: "dgp st' = dgp st \<Longrightarrow> requested_pay x st' = requested_pay x st"
  by (simp add: requested_pay_def head_block_time_def)

lemma pays_ok_update:
  assumes "pays_ok st" "dgp st' = dgp st" "workers st' = fmupd i (w\<lparr>worker := wt\<rparr>) (workers st)" "fmlookup (workers st) i = Some w"
  shows "pays_ok st'"
  unfolding pays_ok_def requested_pay_dgp[OF assms(2)] using assms(1,4)
  by (auto simp: pays_ok_def assms(3) split: if_splits)

lemma pay_active_worker_paid:
  assumes "pay_active_worker i (b, st) = Inr (b', st')"
  shows "\<exists>r. core_paid (b - b') r st st' \<and> (0 \<le> b \<longrightarrow> 0 \<le> b') \<and> (pays_ok st \<longrightarrow> pays_ok st' \<and> 0 \<le> r)"
proof (cases "b > 0")
  case True
  obtain w q wt s1 where w: "fmlookup (workers st) i = Some w" "requested_pay (daily_pay w) st = Inr q"
      "pay_worker (if q < b then q else b) (worker w) st = Inr (wt, s1)" "safe_sub b (if q < b then q else b) = Inr b'"
      "st' = s1\<lparr>workers := fmupd i (w\<lparr>worker := wt\<rparr>) (workers s1)\<rparr>"
    using assms True unfolding pay_active_worker_def by (auto simp: Let_def)
  obtain r where r: "core_paid (if q < b then q else b) r st s1" "r = 0 \<or> r = (if q < b then q else b)"
    using pay_worker_paid[OF w(3)] by blast
  have b': "b' = b - (if q < b then q else b)" using safe_sub_Inr[OF w(4)] by simp
  have "core_paid (b - b') r st st'"
    using core_paid_trans[OF r(1) workers_update_paid] by (simp add: w(5) b')
  moreover have "pays_ok st'" if "pays_ok st"
    by (rule pays_ok_update[OF that _ _ w(1), of _ wt]) (use r(1) pay_worker_workers[OF w(3)] in \<open>auto simp: w(5) core_paid_def\<close>)
  moreover have "0 \<le> r" if "pays_ok st"
    using that w(1,2) r(2) True unfolding pays_ok_def by (auto split: if_splits)
  ultimately show ?thesis using True b' by auto
qed (use assms core_paid_refl in \<open>auto simp: pay_active_worker_def\<close>)

lemma pay_workers_paid_aux:
  "rfold pay_active_worker is (b, st) = Inr (b', st') \<Longrightarrow>
    \<exists>r. core_paid (b - b') r st st' \<and> (0 \<le> b \<longrightarrow> 0 \<le> b') \<and> (pays_ok st \<longrightarrow> 0 \<le> r)"
proof (induction "is" arbitrary: b st)
  case Nil
  then show ?case using core_paid_refl by auto
next
  case (Cons i js)
  then obtain b1 s1 where 1: "pay_active_worker i (b, st) = Inr (b1, s1)" "rfold pay_active_worker js (b1, s1) = Inr (b', st')"
    by auto
  obtain r1 r2 where "core_paid (b - b1) r1 st s1" "0 \<le> b \<longrightarrow> 0 \<le> b1" "pays_ok st \<longrightarrow> pays_ok s1 \<and> 0 \<le> r1"
      "core_paid (b1 - b') r2 s1 st'" "0 \<le> b1 \<longrightarrow> 0 \<le> b'" "pays_ok s1 \<longrightarrow> 0 \<le> r2"
    using pay_active_worker_paid[OF 1(1)] Cons.IH[OF 1(2)] by blast
  then show ?case using core_paid_trans[of "b - b1" r1 st s1 "b1 - b'" r2 st'] by (intro exI[of _ "r1 + r2"]) auto
qed

lemma pay_workers_paid:
  "pay_workers b st = Inr (b', st') \<Longrightarrow>
    \<exists>r. core_paid (b - b') r st st' \<and> (0 \<le> b \<longrightarrow> 0 \<le> b') \<and> (pays_ok st \<longrightarrow> 0 \<le> r)"
  unfolding pay_workers_def by (rule pay_workers_paid_aux)

section \<open>What the budget does\<close>

lemma cycle_budget_le:
  assumes "cycle_budget reserve dt = Inr t" "0 \<le> reserve" "reserve < 2 ^ 63"
  shows "t \<le> reserve"
proof -
  have "u128 reserve = reserve" using assms(2,3) by (simp add: u128_def)
  then show ?thesis using assms by (auto simp: cycle_budget_def Let_def share_of_u64_def to_uint64_def split: if_splits)
qed

lemma worker_share_le:
  assumes "worker_share t available st = Inr w" "0 \<le> available" "available < 2 ^ 63"
  shows "0 \<le> w \<and> w \<le> available"
proof -
  have "u128 available = available" using assms(2,3) by (simp add: u128_def)
  moreover have "0 \<le> u128 x div 86400" for x by (simp add: u128_def pos_imp_zdiv_nonneg_iff)
  ultimately show ?thesis using assms
    by (auto simp: worker_share_def Let_def share_of_u64_def to_uint64_def split: if_splits)
qed

text \<open>The core asset is within its maximal supply and holds no negative fees or budget.\<close>

definition core_ok :: "chain_state \<Rightarrow> bool" where
  "core_ok st \<longleftrightarrow> (\<exists>core d. fmlookup (assets st) 0 = Some core \<and> fmlookup (dyn_data st) 0 = Some d \<and>
     0 \<le> current_supply d \<and> current_supply d \<le> max_supply (options core) \<and> max_supply (options core) \<le> MAX_SHARE_SUPPLY \<and>
     0 \<le> accumulated_fees d \<and> 0 \<le> witness_budget (dgp st))"

lemma safe_add_small: "safe_add a b = Inr c \<Longrightarrow> 0 \<le> a \<Longrightarrow> a < 2 ^ 63 \<Longrightarrow> 0 \<le> b \<Longrightarrow> 0 \<le> c \<and> c < 2 ^ 63"
  by (auto simp: safe_add_def i64_defs split: if_splits)

lemma budget_record_total:
  assumes "initialize_budget_record now st = Inr rec" "fmlookup (assets st) 0 = Some core" "fmlookup (dyn_data st) 0 = Some d"
  shows "from_accumulated_fees rec = accumulated_fees d \<and> from_unused_witness_budget rec = witness_budget (dgp st) \<and>
    (core_ok st \<longrightarrow>
      total_budget rec \<le> max_supply (options core) - current_supply d + accumulated_fees d + witness_budget (dgp st))"
proof -
  have "t \<le> r + accumulated_fees d + witness_budget (dgp st)"
    if "cycle_budget r2 dt = Inr t" "safe_add r1 (witness_budget (dgp st)) = Inr r2" "safe_add r (accumulated_fees d) = Inr r1"
      "r = max_supply (options core) - current_supply d" "core_ok st" for r r1 r2 dt t
  proof -
    have "0 \<le> r" "r < 2 ^ 63" "0 \<le> accumulated_fees d" "0 \<le> witness_budget (dgp st)"
      using that(4,5) assms(2,3) by (auto simp: core_ok_def MAX_SHARE_SUPPLY_def)
    then have "0 \<le> r2 \<and> r2 < 2 ^ 63" using safe_add_small that(2,3) by blast
    then show ?thesis using cycle_budget_le[OF that(1)] that(2,3) by (auto dest!: safe_add_Inr)
  qed
  then show ?thesis using assms unfolding initialize_budget_record_def Let_def
    by (elim run_elims) (auto simp: initial_record_def dynamic_reserved_def core_ok_def dest!: safe_sub_Inr)
qed

lemma total_budget_i64:
  assumes "initialize_budget_record now st = Inr rec" "core_ok st"
  shows "total_budget rec < 2 ^ 63"
proof -
  obtain core d where cd: "fmlookup (assets st) 0 = Some core" "fmlookup (dyn_data st) 0 = Some d"
      "0 \<le> current_supply d" "current_supply d \<le> max_supply (options core)" "max_supply (options core) \<le> MAX_SHARE_SUPPLY"
      "0 \<le> accumulated_fees d" "0 \<le> witness_budget (dgp st)"
    using assms(2) by (auto simp: core_ok_def)
  have "t < 2 ^ 63" if "cycle_budget r2 dt = Inr t" "safe_add r1 (witness_budget (dgp st)) = Inr r2" "safe_add r (accumulated_fees d) = Inr r1"
      "r = max_supply (options core) - current_supply d" for r r1 r2 dt t
  proof -
    have "0 \<le> r" "r < 2 ^ 63" using that(4) cd(3-5) by (auto simp: MAX_SHARE_SUPPLY_def)
    then have "0 \<le> r2 \<and> r2 < 2 ^ 63" using safe_add_small that(2,3) cd(6,7) by blast
    then show ?thesis using cycle_budget_le[OF that(1)] by linarith
  qed
  then show ?thesis using assms(1) cd(1,2) unfolding initialize_budget_record_def Let_def
    by (elim run_elims) (auto simp: initial_record_def dynamic_reserved_def dest!: safe_sub_Inr)
qed

lemma budget_dgp_moves:
  "moves (\<lambda>A. part A (mk_asset (wb - witness_budget (dgp st)) 0)) st
    (st\<lparr>dgp := (dgp st)\<lparr>witness_budget := wb, last_budget_time := now\<rparr>, budget_records := r\<rparr>)"
  by (auto simp: moves_def chain_ok_def excess_def)

text \<open>The steps of a successful run.\<close>

lemma process_budget_steps:
  assumes "process_budget st = Inr st'"
  obtains rec wb available wkb leftover s1 d r where
    "initialize_budget_record (head_block_time st) st = Inr rec" "wb \<le> total_budget rec"
    "safe_sub (total_budget rec) wb = Inr available"
    "worker_share (next_maintenance_time (dgp st) - head_block_time st) available st = Inr wkb"
    "core_paid (wkb - leftover) r st s1" "0 \<le> wkb \<longrightarrow> 0 \<le> leftover" "pays_ok st \<longrightarrow> 0 \<le> r"
    "fmlookup (dyn_data s1) 0 = Some d"
    "st' = s1\<lparr>dyn_data := fmupd 0 (d\<lparr>current_supply := current_supply d +
        (wb + wkb - leftover - from_accumulated_fees rec - from_unused_witness_budget rec), accumulated_fees := 0\<rparr>) (dyn_data s1),
      dgp := (dgp s1)\<lparr>witness_budget := wb, last_budget_time := head_block_time st\<rparr>, budget_records := budget_records st'\<rparr>"
  using assms unfolding process_budget_def Let_def
proof (elim rbind_pairE rbindE, goal_cases)
  case (1 rec requested available wkb available2 leftover s1 a d1 d2 d3 delta s2)
  obtain r where r: "core_paid (wkb - leftover) r st s1" "0 \<le> wkb \<longrightarrow> 0 \<le> leftover" "pays_ok st \<longrightarrow> 0 \<le> r"
    using pay_workers_paid[of wkb st leftover s1] 1 by blast
  have delta: "delta = (if total_budget rec < requested then total_budget rec else requested) + wkb - leftover
      - from_accumulated_fees rec - from_unused_witness_budget rec"
    using 1 by (auto dest!: safe_add_Inr safe_sub_Inr)
  obtain d where d: "fmlookup (dyn_data s1) 0 = Some d"
      "s2 = s1\<lparr>dyn_data := fmupd 0 (d\<lparr>current_supply := current_supply d + delta, accumulated_fees := 0\<rparr>) (dyn_data s1)\<rparr>"
    using 1(13) by (auto simp: modify_dyn_def dest!: safe_add_Inr)
  have wb: "(if total_budget rec < requested then total_budget rec else requested) \<le> total_budget rec" by simp
  have st': "st' = s2\<lparr>dgp := (dgp s2)\<lparr>witness_budget := if total_budget rec < requested then total_budget rec else requested,
      last_budget_time := head_block_time st\<rparr>, budget_records := budget_records st'\<rparr>"
    using 1(14) by auto
  show ?case by (rule 1(1)[OF 1(2) wb 1(4) 1(5) r d(1)]) (use st' d(2) delta in simp)
qed

lemma process_budget_moves:
  assumes "process_budget st = Inr st'"
  shows "moves (\<lambda>A. 0) st st'"
  using assms
proof (cases rule: process_budget_steps)
  case (1 rec wb available wkb leftover s1 d r)
  obtain core d0 where d0: "fmlookup (assets st) 0 = Some core" "fmlookup (dyn_data st) 0 = Some d0"
    using 1(1) by (auto simp: initialize_budget_record_def)
  have rec: "from_accumulated_fees rec = accumulated_fees d0" "from_unused_witness_budget rec = witness_budget (dgp st)"
    using budget_record_total[OF 1(1) d0] by auto
  have d: "accumulated_fees d = accumulated_fees d0" "dgp s1 = dgp st" using 1(5,8) d0 by (auto simp: core_paid_def)
  let ?d = "d\<lparr>current_supply := current_supply d +
        (wb + wkb - leftover - from_accumulated_fees rec - from_unused_witness_budget rec), accumulated_fees := 0\<rparr>"
  let ?s2 = "s1\<lparr>dyn_data := fmupd 0 ?d (dyn_data s1)\<rparr>"
  have "modify_dyn 0 (\<lambda>_. Inr ?d) s1 = Inr ?s2" using 1(8) by (simp add: modify_dyn_def)
  from modify_dyn_moves[OF this] have m: "moves (\<lambda>A. dyn_part A 0 ?d - dyn_part A 0 d) s1 ?s2" using 1(8) by auto
  have "st' = ?s2\<lparr>dgp := (dgp ?s2)\<lparr>witness_budget := wb, last_budget_time := head_block_time st\<rparr>, budget_records := budget_records st'\<rparr>"
    using 1(9) by simp
  then have m2: "moves (\<lambda>A. part A (mk_asset (wb - witness_budget (dgp ?s2)) 0)) ?s2 st'" using budget_dgp_moves by metis
  show ?thesis
    by (rule moves_cong[OF moves_seq[OF _ moves_seq[OF m m2]]])
      (use 1(5) rec d in \<open>auto simp: core_paid_def dyn_part_def part_def\<close>)
qed

lemma process_budget_cap:
  assumes "process_budget st = Inr st'" "core_ok st" "pays_ok st"
    and "fmlookup (assets st) 0 = Some core" "fmlookup (dyn_data st') 0 = Some d'"
  shows "current_supply d' \<le> max_supply (options core) \<and> accumulated_fees d' = 0 \<and> last_budget_time (dgp st') = head_block_time st"
  using assms(1)
proof (cases rule: process_budget_steps)
  case (1 rec wb available wkb leftover s1 d r)
  obtain d0 where d0: "fmlookup (dyn_data st) 0 = Some d0" using assms(2) by (auto simp: core_ok_def)
  have tot: "total_budget rec \<le> max_supply (options core) - current_supply d0 + accumulated_fees d0 + witness_budget (dgp st)"
    and rec: "from_accumulated_fees rec = accumulated_fees d0" "from_unused_witness_budget rec = witness_budget (dgp st)"
    using budget_record_total[OF 1(1) assms(4) d0] assms(2) by auto
  have av: "available = total_budget rec - wb" using safe_sub_Inr[OF 1(3)] .
  have "available < 2 ^ 63"
  proof -
    have "safe_sub (total_budget rec) wb = Inr available" by (rule 1(3))
    moreover have "total_budget rec < 2 ^ 63" by (rule total_budget_i64[OF 1(1) assms(2)])
    ultimately show ?thesis by (auto simp: safe_sub_def i64_defs split: if_splits)
  qed
  then have wkb: "0 \<le> wkb \<and> wkb \<le> available" using worker_share_le[OF 1(4)] av 1(2) by simp
  have d: "d = d0\<lparr>current_supply := current_supply d0 - r\<rparr>" using 1(5,8) d0 by (simp add: core_paid_def)
  have "d' = d\<lparr>current_supply := current_supply d + (wb + wkb - leftover - accumulated_fees d0 - witness_budget (dgp st)), accumulated_fees := 0\<rparr>"
    using assms(5) rec by (subst (asm) 1(9)) simp
  moreover have "last_budget_time (dgp st') = head_block_time st" by (subst 1(9)) simp
  ultimately show ?thesis using tot av wkb 1(6,7) assms(3) d by simp
qed

section \<open>What distributing the fees does\<close>

lemma sub_core_supply_moves: "sub_core_supply x st = Inr st' \<Longrightarrow> moves (\<lambda>A. part A (mk_asset x 0)) st st' \<and> fba_accumulators st' = fba_accumulators st"
  unfolding sub_core_supply_def using sub_supply_moves[of 0 x st st'] by auto

lemma pay_fba_moves: "pay_fba a i x st = Inr st' \<Longrightarrow> moves (\<lambda>A. part A (mk_asset x 0)) st st' \<and> fba_accumulators st' = fba_accumulators st"
  unfolding pay_fba_def
proof (elim if_resE rbindE)
  assume "x = 0" "Inr st = (Inr st' :: chain_state res)"
  then show ?thesis by (auto intro: moves_refl)
next
  fix s1 assume s: "adjust_balance a (mk_asset x 0) st = Inr s1" "Inr (push_applied_operation (FbaDistributeOp a i x) s1) = (Inr st' :: chain_state res)"
  have "moves (\<lambda>A. 0) s1 st'" using s(2) by (auto simp: moves_def chain_ok_def excess_def push_applied_operation_def)
  then have "moves (\<lambda>A. part A (mk_asset x 0)) st st'" using moves_trans[OF adjust_balance_moves[OF s(1)]] by simp
  then show ?thesis using adjust_balance_cases[OF s(1)] s(2) by (auto simp: push_applied_operation_def)
qed

lemma clear_fba_moves:
  assumes "fmlookup (fba_accumulators st) i = Some fba"
  shows "moves (\<lambda>A. - part A (mk_asset (accumulated_fba_fees fba) 0)) st (clear_fba i fba st)"
  using assms by (auto simp: clear_fba_def moves_def chain_ok_def excess_def fmsum_fmupd)

lemma give_to_network_moves:
  "give_to_network x st = Inr st' \<Longrightarrow> moves (\<lambda>A. part A (mk_asset x 0)) st st' \<and> fba_accumulators st' = fba_accumulators st"
  unfolding give_to_network_def using sub_core_supply_moves[of x st st'] by (auto split: if_splits intro: moves_refl)

lemma split_fba_moves:
  assumes "split_fba_balance i n b p st = Inr st'"
  shows "moves (\<lambda>A. 0) st st'"
  using assms unfolding split_fba_balance_def Let_def
proof (elim fc_assertE rbindE if_resE, goal_cases)
  case 1
  then show ?case by (auto intro: moves_refl)
next
  case (2 fba c s1)
  note m = sub_core_supply_moves[OF 2(6)]
  have "moves (\<lambda>A. - part A (mk_asset (accumulated_fba_fees fba) 0)) s1 (clear_fba i fba s1)"
    by (rule clear_fba_moves) (use m 2(2) in simp)
  then show ?case using 2(7) moves_cong[OF moves_seq[OF m[THEN conjunct1]]] by fastforce
next
  case (3 fba c bb iss both net a ao s1 bba s2 s3)
  have sum: "accumulated_fba_fees fba = net + bb + iss" using 3(8,10) by (auto dest!: safe_add_Inr safe_sub_Inr)
  note m1 = give_to_network_moves[OF 3(13)] and m2 = pay_fba_moves[OF 3(15)] and m3 = pay_fba_moves[OF 3(16)]
  have "moves (\<lambda>A. - part A (mk_asset (accumulated_fba_fees fba) 0)) s3 (clear_fba i fba s3)"
    by (rule clear_fba_moves) (use m1 m2 m3 3(2) in simp)
  then have m4: "moves (\<lambda>A. - part A (mk_asset (accumulated_fba_fees fba) 0)) s3 st'" using 3(17) by simp
  show ?case by (rule moves_cong[OF moves_seq[OF m1[THEN conjunct1] moves_seq[OF m2[THEN conjunct1]
        moves_seq[OF m3[THEN conjunct1] m4]]]]) (auto simp: sum)
qed

lemma distribute_fba_moves: "distribute_fba_balances st = Inr st' \<Longrightarrow> moves (\<lambda>A. 0) st st'"
  unfolding distribute_fba_balances_def by (elim rbindE) (blast intro: moves0_trans split_fba_moves)

section \<open>Properties\<close>

text \<open>C37: the budget never prints core beyond its maximal supply: whatever the witnesses and workers are granted comes out of the
  reserve, the accumulated fees and the unused budget. The accumulated fees are spent, the time of the budget is
  recorded, and no asset is created or destroyed beyond the change of the supply.\<close>

theorem budget_within_supply:
  assumes "process_budget st = Inr st'" and "chain_ok st" and "core_ok st" and "pays_ok st"
    and "fmlookup (assets st) 0 = Some core" and "fmlookup (dyn_data st') 0 = Some d'"
  shows "current_supply d' \<le> max_supply (options core) \<and> accumulated_fees d' = 0 \<and>
    last_budget_time (dgp st') = head_block_time st \<and> (\<forall>A. excess st' A = excess st A)"
  using process_budget_cap[OF assms(1,3-6)] process_budget_moves[OF assms(1)] assms(2) by (simp add: moves_def)

definition budget_chain :: chain_state where
  "budget_chain = example_chain
    \<lparr>dgp := (dgp example_chain)\<lparr>last_budget_time := 400, witness_budget := 50\<rparr>,
     workers := fmupd 0 \<lparr>worker_account = 12, work_begin_date = 0, work_end_date = 100000, daily_pay = 40000000,
        worker = RefundWorker 0, vote_for = vote_id Worker 2, vote_against = vote_id Worker 3, total_votes_for = 9,
        total_votes_against = 0\<rparr> fmempty\<rparr>"

lemma budget_chain_ok: "chain_ok budget_chain"
  using example_chain_ok by (simp add: chain_ok_def budget_chain_def example_chain_defs)

lemma budget_core_ok: "core_ok budget_chain"
  by (simp add: core_ok_def budget_chain_def example_chain_defs MAX_SHARE_SUPPLY_def)

lemma budget_pays_ok: "pays_ok budget_chain"
proof -
  have "requested_pay 40000000 budget_chain = Inr 277777" by code_simp
  then show ?thesis by (auto simp: pays_ok_def budget_chain_def)
qed

lemma budget_within_supply_witness:
  "\<exists>st' core d'. process_budget budget_chain = Inr st' \<and> fmlookup (assets budget_chain) 0 = Some core \<and>
    fmlookup (dyn_data st') 0 = Some d' \<and> current_supply d' \<le> max_supply (options core) \<and> accumulated_fees d' = 0 \<and>
    (\<forall>A. excess st' A = excess budget_chain A)"
proof -
  have "(case process_budget budget_chain of Inl _ \<Rightarrow> False | Inr st' \<Rightarrow>
      fmlookup (dyn_data st') 0 \<noteq> None \<and> fmlookup (assets budget_chain) 0 \<noteq> None)" by code_simp
  then obtain st' d' core where "process_budget budget_chain = Inr st'" "fmlookup (dyn_data st') 0 = Some d'"
      "fmlookup (assets budget_chain) 0 = Some core"
    by (auto split: sum.splits)
  with budget_within_supply[OF this(1) budget_chain_ok budget_core_ok budget_pays_ok this(3,2)] show ?thesis by blast
qed

end
