(* ===== verification/Elections.thy ===== *)
theory Elections
  imports Governance_Conservation
begin

text \<open>Votes and elections: the account maintenance of \<open>chain/db_maint.cpp\<close> (\<open>vote_tally_helper\<close>, \<open>process_fees_helper\<close>),
  the elections of witnesses, committee members and workers (\<open>sort_votable_objects\<close>, \<open>update_active_witnesses\<close>,
  \<open>update_active_committee_members\<close>, \<open>update_worker_votes\<close>) and the authorities held by the top holders of an asset
  (\<open>update_top_n_authorities\<close>).

  The buffers of the tally belong to the database object; a maintenance that completes leaves them empty, so they
  are built afresh here. Their cells are unsigned 64-bit numbers. Reading a cell outside a buffer is \<open>UB\<close>. Accounts are
  visited in the order of their names.\<close>

section \<open>The tally\<close>

record vote_tally =
  vote_buffer :: "int list"
  witness_histogram :: "int list"
  committee_histogram :: "int list"
  total_voting_stake :: int

definition init_tally :: "chain_state \<Rightarrow> vote_tally" where
  "init_tally st =
    \<lparr>vote_buffer = replicate (unat (next_available_vote_id st)) 0,
     witness_histogram = replicate (nat (maximum_witness_count (params st) div 2) + 1) 0,
     committee_histogram = replicate (nat (maximum_committee_count (params st) div 2) + 1) 0,
     total_voting_stake = 0\<rparr>"

definition add_at :: "nat \<Rightarrow> int \<Rightarrow> int list \<Rightarrow> int list" where
  "add_at i v xs = xs[i := (xs ! i + v) mod 2 ^ 64]"

text \<open>The sum is one of signed 64-bit numbers.\<close>

definition voting_stake :: "nat \<Rightarrow> account_object \<Rightarrow> chain_state \<Rightarrow> int res" where
  "voting_stake i a st =
    rbind (lookup (statistics st) i) (\<lambda>s.
    rbind (case cashback_vb a of None \<Rightarrow> Inr 0
           | Some v \<Rightarrow> rbind (lookup (vesting_balances st) v) (\<lambda>vb. Inr (amount (vb_balance vb)))) (\<lambda>cashback.
    let x = total_core_in_orders s + cashback; y = x + amount (get_balance st i 0) in
    rassert (in_i64 x \<and> in_i64 y) UB (Inr (y mod 2 ^ 64))))"

definition tally_vote :: "int \<Rightarrow> 32 word \<Rightarrow> vote_tally \<Rightarrow> vote_tally" where
  "tally_vote stake v t =
    (let offset = unat (vote_instance v) in
     if offset < length (vote_buffer t) then t\<lparr>vote_buffer := add_at offset stake (vote_buffer t)\<rparr> else t)"

definition tally_count :: "int \<Rightarrow> int \<Rightarrow> int \<Rightarrow> int list \<Rightarrow> int list" where
  "tally_count stake wanted maximum hist =
    (if wanted \<le> maximum then add_at (min (nat (wanted div 2)) (length hist - 1)) stake hist else hist)"

definition tally_account :: "nat \<Rightarrow> chain_state \<Rightarrow> vote_tally \<Rightarrow> vote_tally res" where
  "tally_account i st t =
    rbind (lookup (accounts st) i) (\<lambda>stake_account.
    if \<not> (count_non_member_votes (params st) \<or> is_member stake_account (head_block_time st)) then Inr t else
    rbind (if voting_account (acct_options stake_account) = PROXY_TO_SELF_ACCOUNT then Inr stake_account
           else lookup (accounts st) (voting_account (acct_options stake_account))) (\<lambda>opinion_account.
    rbind (voting_stake i stake_account st) (\<lambda>stake.
    let opinion = acct_options opinion_account; t = fold (tally_vote stake) (votes opinion) t in
    Inr (t\<lparr>witness_histogram := tally_count stake (num_witness opinion) (maximum_witness_count (params st)) (witness_histogram t),
           committee_histogram := tally_count stake (num_committee opinion) (maximum_committee_count (params st)) (committee_histogram t),
           total_voting_stake := (total_voting_stake t + stake) mod 2 ^ 64\<rparr>))))"

fun string_less :: "string \<Rightarrow> string \<Rightarrow> bool" where
  "string_less _ [] = False"
| "string_less [] (_ # _) = True"
| "string_less (c # cs) (d # ds) \<longleftrightarrow>
    (of_char c :: nat) < of_char d \<or> (of_char c :: nat) = of_char d \<and> string_less cs ds"

definition accounts_by_name :: "chain_state \<Rightarrow> nat list" where
  "accounts_by_name st = map fst (sort_by (\<lambda>x y. string_less (account_name (snd x)) (account_name (snd y))) (entries (accounts st)))"

text \<open>Each account is tallied and then its pending fees are paid out, before the next account is looked at.\<close>

definition maintain_account :: "nat \<Rightarrow> vote_tally \<times> chain_state \<Rightarrow> (vote_tally \<times> chain_state) res" where
  "maintain_account i ts = (case ts of (t, st) \<Rightarrow>
    rbind (tally_account i st t) (\<lambda>t. rbind (process_fees i st) (\<lambda>st. Inr (t, st))))"

definition perform_account_maintenance :: "chain_state \<Rightarrow> (vote_tally \<times> chain_state) res" where
  "perform_account_maintenance st = rfold maintain_account (accounts_by_name st) (init_tally st, st)"

section \<open>Elections\<close>

definition tallied :: "vote_tally \<Rightarrow> 32 word \<Rightarrow> int" where
  "tallied t v = vote_buffer t ! unat (vote_instance v)"

definition in_buffer :: "vote_tally \<Rightarrow> 32 word \<Rightarrow> bool" where
  "in_buffer t v \<longleftrightarrow> unat (vote_instance v) < length (vote_buffer t)"

text \<open>Vote identifiers are compared through their conversion to a number, which is the instance.\<close>

definition more_votes :: "vote_tally \<Rightarrow> nat \<times> 32 word \<Rightarrow> nat \<times> 32 word \<Rightarrow> bool" where
  "more_votes t x y \<longleftrightarrow>
    (let a = share_of_u64 (tallied t (snd x)); b = share_of_u64 (tallied t (snd y)) in
     if a \<noteq> b then a > b else vote_instance (snd x) < vote_instance (snd y))"

text \<open>\<open>refs.front()\<close> is read even when there is no object at all.\<close>

definition sort_votable_objects :: "vote_tally \<Rightarrow> nat \<Rightarrow> (nat \<times> 32 word) list \<Rightarrow> nat list res" where
  "sort_votable_objects t cnt objects =
    rassert (objects \<noteq> [] \<and> list_all (\<lambda>x. in_buffer t (snd x)) objects) UB
      (Inr (map fst (take cnt (sort_by (more_votes t) objects))))"

text \<open>The number of members that half of the voting stake asks for. The tally of the stake is a \<open>share_type\<close> for the
  witnesses and an unsigned number for the committee.\<close>

fun witness_count_loop :: "int \<Rightarrow> int \<Rightarrow> nat \<Rightarrow> int list \<Rightarrow> nat res" where
  "witness_count_loop target tally n [] = Inr n"
| "witness_count_loop target tally n (h # hs) =
    (if tally \<le> target then rbind (safe_add tally (share_of_u64 h)) (\<lambda>tally. witness_count_loop target tally (n + 1) hs)
     else Inr n)"

fun committee_count_loop :: "int \<Rightarrow> int \<Rightarrow> nat \<Rightarrow> int list \<Rightarrow> nat" where
  "committee_count_loop target tally n [] = n"
| "committee_count_loop target tally n (h # hs) =
    (if share_of_u64 tally \<le> target then committee_count_loop target ((tally + h) mod 2 ^ 64) (n + 1) hs else n)"

definition stake_target :: "vote_tally \<Rightarrow> int" where
  "stake_target t = (total_voting_stake t - witness_histogram t ! 0) mod 2 ^ 64 div 2"

text \<open>Before hardfork 533 the weights were scaled by the total of the votes; of two members with the same account
  the first counts. With no votes at all \<open>find_msb\<close> is undefined.\<close>

definition old_weights :: "(nat \<times> int) list \<Rightarrow> (nat \<times> int) list" where
  "old_weights members = fold (\<lambda>(a, v) ws. if a \<in> fst ` set ws then ws else flat_put a v ws) members []"

definition old_authority :: "(nat \<times> int) list \<Rightarrow> authority \<Rightarrow> authority res" where
  "old_authority members auth =
    (let total = sum_list (map snd members) mod 2 ^ 64 in
     rassert (total \<noteq> 0) UB
     (let bits_to_drop = nat (max (int (find_msb (nat total)) - 15) 0);
          ws = map (\<lambda>(a, v). (a, max (v div 2 ^ bits_to_drop) 1 mod 2 ^ 16)) (old_weights members)
      in Inr ((authority_clear auth)\<lparr>account_auths := map (\<lambda>(a, w). (a, nat w)) ws,
        weight_threshold := nat ((sum_list (map snd ws) mod 2 ^ 32 div 2 + 1) mod 2 ^ 32)\<rparr>)))"

definition new_authority :: "(nat \<times> int) list \<Rightarrow> authority \<Rightarrow> authority" where
  "new_authority members auth =
    vote_counter_finish (fold (\<lambda>(a, v). vote_counter_add a (nat v)) members init_vote_counter) auth"

definition elected_authority :: "(nat \<times> int) list \<Rightarrow> chain_state \<Rightarrow> authority \<Rightarrow> authority res" where
  "elected_authority members st auth =
    (if head_block_time st < hardfork_time st 533 then old_authority members auth else Inr (new_authority members auth))"

definition set_active :: "nat \<Rightarrow> (authority \<Rightarrow> authority res) \<Rightarrow> chain_state \<Rightarrow> chain_state res" where
  "set_active i f st = rbind (lookup (accounts st) i) (\<lambda>a. rbind (f (active_auth a)) (\<lambda>au.
     Inr (st\<lparr>accounts := fmupd i (a\<lparr>active_auth := au\<rparr>) (accounts st)\<rparr>)))"

definition witness_candidates :: "chain_state \<Rightarrow> (nat \<times> 32 word) list" where
  "witness_candidates st = map (\<lambda>(i, w). (i, wit_vote_id w)) (entries (witnesses st))"

definition wanted_witnesses :: "vote_tally \<Rightarrow> chain_state \<Rightarrow> nat res" where
  "wanted_witnesses t st =
    rbind (if stake_target t > 0 then witness_count_loop (stake_target t) 0 0 (tl (witness_histogram t)) else Inr 0) (\<lambda>n.
    Inr (max (n * 2 + 1) (min_witness_count st)))"

definition update_active_witnesses :: "vote_tally \<Rightarrow> chain_state \<Rightarrow> chain_state res" where
  "update_active_witnesses t st =
    rbind (wanted_witnesses t st) (\<lambda>cnt.
    rbind (sort_votable_objects t cnt (witness_candidates st)) (\<lambda>wits.
    let st = st\<lparr>witnesses := fmmap (\<lambda>w. w\<lparr>wit_total_votes := tallied t (wit_vote_id w)\<rparr>) (witnesses st)\<rparr> in
    rbind (rfold (\<lambda>i ms. rbind (lookup (witnesses st) i) (\<lambda>w. Inr (ms @ [(witness_account w, tallied t (wit_vote_id w))]))) wits []) (\<lambda>members.
    rbind (set_active WITNESS_ACCOUNT (elected_authority members st) st) (\<lambda>st.
    Inr (st\<lparr>active_witnesses := sort wits\<rparr>)))))"

definition committee_candidates :: "chain_state \<Rightarrow> (nat \<times> 32 word) list" where
  "committee_candidates st = map (\<lambda>(i, c). (i, cm_vote_id c)) (entries (committee_members st))"

text \<open>The code takes the abstaining stake from the histogram of the witnesses here too.\<close>

definition update_active_committee_members :: "vote_tally \<Rightarrow> chain_state \<Rightarrow> chain_state res" where
  "update_active_committee_members t st =
    (let n = (if stake_target t > 0 then committee_count_loop (stake_target t) 0 0 (tl (committee_histogram t)) else 0) in
    rbind (sort_votable_objects t (max (n * 2 + 1) (min_committee_member_count st)) (committee_candidates st)) (\<lambda>ids.
    rbind (rfold (\<lambda>i st. rbind (lookup (committee_members st) i) (\<lambda>c.
             Inr (st\<lparr>committee_members := fmupd i (c\<lparr>cm_total_votes := tallied t (cm_vote_id c)\<rparr>) (committee_members st)\<rparr>))) ids st) (\<lambda>st.
    rbind (rfold (\<lambda>i ms. rbind (lookup (committee_members st) i) (\<lambda>c. Inr (ms @ [(committee_member_account c, tallied t (cm_vote_id c))]))) ids []) (\<lambda>members.
    rbind (if ids = [] then Inr st else
        rbind (set_active COMMITTEE_ACCOUNT (elected_authority members st) st) (\<lambda>st.
        rbind (lookup (accounts st) COMMITTEE_ACCOUNT) (\<lambda>c.
        set_active RELAXED_COMMITTEE_ACCOUNT (\<lambda>_. Inr (active_auth c)) st))) (\<lambda>st.
    Inr (st\<lparr>active_committee_members := sort ids\<rparr>))))))"

definition update_worker_votes :: "vote_tally \<Rightarrow> chain_state \<Rightarrow> chain_state res" where
  "update_worker_votes t st =
    (let allow_negative_votes = (head_block_time st < hardfork_time st 607) in
     rassert (list_all (\<lambda>(i, w). in_buffer t (vote_for w) \<and> (allow_negative_votes \<longrightarrow> in_buffer t (vote_against w))) (entries (workers st))) UB
       (Inr (st\<lparr>workers := fmmap (\<lambda>w. w\<lparr>total_votes_for := tallied t (vote_for w),
          total_votes_against := (if allow_negative_votes then tallied t (vote_against w) else 0)\<rparr>) (workers st)\<rparr>)))"

section \<open>Top holders\<close>

text \<open>\<open>by_asset_balance\<close>: the holders of an asset, largest balance first.\<close>

definition holders :: "nat \<Rightarrow> chain_state \<Rightarrow> (nat \<times> int) list" where
  "holders i st = sort_by (\<lambda>x y. snd x > snd y \<or> snd x = snd y \<and> fst x < fst y)
     (concat (map (\<lambda>owner. case fmlookup (balances st) (owner, i) of None \<Rightarrow> [] | Some b \<Rightarrow> [(owner, b)])
       (sorted_list_of_fset (fimage fst (fmdom (balances st))))))"

definition top_holders :: "nat \<Rightarrow> nat \<Rightarrow> nat \<Rightarrow> chain_state \<Rightarrow> vote_counter" where
  "top_holders acct i n st =
    fold (\<lambda>(owner, b). vote_counter_add owner (nat (b mod 2 ^ 64)))
      (take n (filter (\<lambda>h. fst h \<noteq> acct) (holders i st))) init_vote_counter"

fun update_top_n :: "nat \<Rightarrow> bool \<Rightarrow> special_authority \<Rightarrow> chain_state \<Rightarrow> chain_state res" where
  "update_top_n acct is_owner NoSpecialAuthority st = Inr st"
| "update_top_n acct is_owner (TopHoldersSpecialAuthority i n) st =
    (if n = 0 then Inr st
     else let vc = top_holders acct i n st in
       modify_account acct (\<lambda>a.
         let a = (if is_owner then a\<lparr>owner_auth := vote_counter_finish vc (owner_auth a)\<rparr>
                  else a\<lparr>active_auth := vote_counter_finish vc (active_auth a)\<rparr>)
         in if vote_counter_is_empty vc then a
            else a\<lparr>top_n_control_flags := or (top_n_control_flags a) (if is_owner then 1 else 2)\<rparr>) st)"

definition update_top_n_authorities :: "chain_state \<Rightarrow> chain_state res" where
  "update_top_n_authorities st = rfold (\<lambda>(_, acct) st.
     rbind (lookup (accounts st) acct) (\<lambda>a.
     rbind (update_top_n acct True (owner_special_authority a) st) (\<lambda>st.
     rbind (lookup (accounts st) acct) (\<lambda>a.
     update_top_n acct False (active_special_authority a) st)))) (entries (special_authorities st)) st"

section \<open>No money moves\<close>

lemma perform_account_maintenance_moves:
  assumes "perform_account_maintenance st = Inr (t, st')"
  shows "moves (\<lambda>A. 0) st st'"
proof -
  have "moves (\<lambda>A. 0) st (snd (t, st'))"
    by (rule rfold_invariant[where P = "\<lambda>ts. moves (\<lambda>A. 0) st (snd ts)", OF assms[unfolded perform_account_maintenance_def]])
      (auto simp: maintain_account_def moves_refl dest!: process_fees_moves intro: moves0_trans)
  then show ?thesis by simp
qed

lemma set_active_money: "set_active i f st = Inr st' \<Longrightarrow> same_money st st'"
  by (auto simp: set_active_def same_money_def)

lemma same_money_trans: "same_money st s1 \<Longrightarrow> same_money s1 s2 \<Longrightarrow> same_money st s2"
  unfolding same_money_def by (simp, metis)

lemma update_active_witnesses_money:
  assumes "update_active_witnesses t st = Inr st'"
  shows "same_money st st'"
  using assms unfolding update_active_witnesses_def Let_def
proof (elim rbindE, goal_cases)
  case (1 cnt wits members s1)
  have "same_money s1 st'" using 1(5) by (auto simp: same_money_def)
  moreover have "same_money st s1"
    by (rule same_money_trans[OF _ set_active_money[OF 1(4)]]) (simp add: same_money_def)
  ultimately show ?case using same_money_trans by blast
qed

lemma update_active_committee_money:
  assumes "update_active_committee_members t st = Inr st'"
  shows "same_money st st'"
  using assms unfolding update_active_committee_members_def Let_def
proof (elim rbindE, goal_cases)
  case (1 ids s1 members s2)
  have "same_money st s1"
    by (rule rfold_invariant[OF 1(2)]) (auto intro: same_money_trans simp: same_money_def)
  moreover have "same_money s1 s2"
    using 1(4) by (auto intro: same_money_trans set_active_money split: if_splits)
  moreover have "same_money s2 st'" using 1(5) by (auto simp: same_money_def)
  ultimately show ?case using same_money_trans by blast
qed

lemma update_worker_votes_money: "update_worker_votes t st = Inr st' \<Longrightarrow> same_money st st'"
  by (auto simp: update_worker_votes_def Let_def same_money_def)

lemma modify_account_money: "modify_account i f st = Inr st' \<Longrightarrow> same_money st st'"
  by (auto simp: modify_account_def same_money_def)

lemma update_top_n_money: "update_top_n acct own sa st = Inr st' \<Longrightarrow> same_money st st'"
  by (cases sa; simp only: update_top_n.simps; elim if_resE done_resE let_resE) (simp_all add: modify_account_money)

lemma update_top_n_authorities_money: "update_top_n_authorities st = Inr st' \<Longrightarrow> same_money st st'"
  unfolding update_top_n_authorities_def
  by (erule rfold_invariant) (auto dest!: update_top_n_money intro: same_money_trans[OF same_money_trans])

section \<open>Who is elected\<close>

definition vote_order :: "vote_tally \<Rightarrow> nat \<times> 32 word \<Rightarrow> nat \<times> 32 word \<Rightarrow> bool" where
  "vote_order t x y \<longleftrightarrow>
    (let a = share_of_u64 (tallied t (snd x)); b = share_of_u64 (tallied t (snd y)) in
     b < a \<or> a = b \<and> vote_instance (snd x) \<le> vote_instance (snd y))"

lemma votable_sorted: "sorted_wrt (vote_order t) (sort_by (more_votes t) xs)"
  by (rule sort_by_sorted) (auto simp: more_votes_def vote_order_def Let_def split: if_splits)

lemma sort_votable_elects:
  assumes "sort_votable_objects t cnt objects = Inr ids" "distinct (map fst objects)"
  shows "length ids = min cnt (length objects) \<and> distinct ids \<and> set ids \<subseteq> fst ` set objects \<and>
    (\<forall>x\<in>set objects. \<forall>y\<in>set objects. fst x \<in> set ids \<longrightarrow> fst y \<notin> set ids \<longrightarrow> vote_order t x y)"
proof -
  let ?s = "sort_by (more_votes t) objects"
  have ids: "ids = map fst (take cnt ?s)" using assms(1) by (auto simp: sort_votable_objects_def)
  have d: "distinct (map fst ?s)" using assms(2) by (metis distinct_map distinct_sort_by set_sort_by)
  have "vote_order t x y" if "x \<in> set objects" "y \<in> set objects" "fst x \<in> set ids" "fst y \<notin> set ids" for x y
  proof (rule first_of_sorted[OF votable_sorted])
    note fx = that(3)
    have "x = x'" if "x' \<in> set ?s" "fst x = fst x'" for x'
      using d \<open>x \<in> set objects\<close> that by (metis distinct_map inj_onD set_sort_by)
    moreover obtain x' where "x' \<in> set (take cnt ?s)" "fst x = fst x'" using fx ids by auto
    ultimately show "x \<in> set (take cnt ?s)" using in_set_takeD by metis
  qed (use that ids in auto)
  moreover have "distinct ids" using d by (metis ids distinct_take take_map)
  moreover have "set ids \<subseteq> fst ` set objects" by (auto simp: ids dest!: in_set_takeD)
  moreover have "length ids = min cnt (length objects)" by (simp add: ids min.commute)
  ultimately show ?thesis by blast
qed

lemma distinct_candidates: "distinct (map fst (witness_candidates st))"
  using distinct_entries[of "witnesses st"] by (simp add: witness_candidates_def comp_def split_def)

lemma candidate_dom: "i \<in> fst ` set (witness_candidates st) \<Longrightarrow> fmlookup (witnesses st) i \<noteq> None"
  by (auto simp: witness_candidates_def set_entries)

lemma candidate_iff: "(i, v) \<in> set (witness_candidates st) \<longleftrightarrow> (\<exists>w. fmlookup (witnesses st) i = Some w \<and> v = wit_vote_id w)"
  by (force simp: witness_candidates_def set_entries)

section \<open>Properties\<close>

text \<open>C38: an election of the witnesses that succeeds makes active, without repetition and in the order of their
  numbers, as many witnesses as the voters ask for or as there are, never fewer than the minimum unless there are fewer;
  no witness left out has more votes than one that was taken, and of two with equal votes the older was taken. All
  witnesses remember their votes.\<close>

theorem elected_witnesses_lead:
  assumes "update_active_witnesses t st = Inr st'" and "wanted_witnesses t st = Inr n"
  shows "sorted_wrt (<) (active_witnesses st') \<and>
    length (active_witnesses st') = min n (length (entries (witnesses st))) \<and> min_witness_count st \<le> n \<and>
    (\<forall>i\<in>set (active_witnesses st'). fmlookup (witnesses st) i \<noteq> None) \<and>
    (\<forall>i j v w. fmlookup (witnesses st) i = Some v \<longrightarrow> fmlookup (witnesses st) j = Some w \<longrightarrow>
      i \<in> set (active_witnesses st') \<longrightarrow> j \<notin> set (active_witnesses st') \<longrightarrow> vote_order t (i, wit_vote_id v) (j, wit_vote_id w)) \<and>
    (\<forall>i w. fmlookup (witnesses st) i = Some w \<longrightarrow>
      fmlookup (witnesses st') i = Some (w\<lparr>wit_total_votes := tallied t (wit_vote_id w)\<rparr>))"
proof -
  obtain wits where wits: "sort_votable_objects t n (witness_candidates st) = Inr wits" "active_witnesses st' = sort wits"
      "witnesses st' = fmmap (\<lambda>w. w\<lparr>wit_total_votes := tallied t (wit_vote_id w)\<rparr>) (witnesses st)"
    using assms unfolding update_active_witnesses_def by (auto simp: Let_def set_active_def)
  note e = sort_votable_elects[OF wits(1) distinct_candidates]
  have "sorted_wrt (<) (sort wits)" using e by (simp add: strict_sorted_iff)
  moreover have "length (sort wits) = min n (length (entries (witnesses st)))" using e by (simp add: witness_candidates_def)
  moreover have "min_witness_count st \<le> n" using assms(2) by (auto simp: wanted_witnesses_def)
  moreover have "\<forall>i\<in>set (sort wits). fmlookup (witnesses st) i \<noteq> None" using e candidate_dom[of _ st] unfolding set_sort by blast
  moreover have "vote_order t (i, wit_vote_id v) (j, wit_vote_id w)"
    if "fmlookup (witnesses st) i = Some v" "fmlookup (witnesses st) j = Some w" "i \<in> set wits" "j \<notin> set wits" for i j v w
  proof -
    have "(i, wit_vote_id v) \<in> set (witness_candidates st)" "(j, wit_vote_id w) \<in> set (witness_candidates st)"
      using that by (auto simp: candidate_iff)
    then show ?thesis using e that(3,4) by (metis fst_conv)
  qed
  ultimately show ?thesis unfolding wits(2,3) set_sort fmlookup_map by (intro conjI allI impI) auto
qed

text \<open>Three witnesses of which two are wanted; the last has the most votes.\<close>

definition election_chain :: chain_state where
  "election_chain = example_chain
    \<lparr>accounts := fmupd 1 (example_account ''witness-account'' 1) (accounts example_chain), min_witness_count := 2,
     witnesses := fmap_of_list (map (\<lambda>i. (i, \<lparr>witness_account = 11 + i, last_aslot = 0, signing_key = i, pay_vb = None,
        wit_vote_id = vote_id Witness (word_of_nat i), wit_total_votes = 0, total_missed = 0, last_confirmed_block_num = 0\<rparr>)) [0, 1, 2])\<rparr>"

definition election_tally :: vote_tally where
  "election_tally = \<lparr>vote_buffer = [1, 1, 2], witness_histogram = [4], committee_histogram = [4], total_voting_stake = 4\<rparr>"

lemma update_active_witnesses_succeeds:
  assumes "wanted_witnesses t st = Inr n" "sort_votable_objects t n (witness_candidates st) = Inr wits"
    "\<forall>i\<in>set wits. fmlookup (witnesses st) i \<noteq> None" "fmlookup (accounts st) WITNESS_ACCOUNT = Some a"
    "\<not> head_block_time st < hardfork_time st 533"
  shows "\<exists>st'. update_active_witnesses t st = Inr st' \<and> active_witnesses st' = sort wits"
proof -
  have ms: "\<exists>ms. rfold (\<lambda>i ms. rbind (lookup (fmmap f (witnesses st)) i) (\<lambda>w. Inr (ms @ [g w]))) wits ms0 = Inr ms"
    for f ms0 and g :: "witness_object \<Rightarrow> nat \<times> int"
    using assms(3) by (induction wits arbitrary: ms0) (auto simp: lookup_def)
  obtain ms where "rfold (\<lambda>i ms. rbind (lookup (fmmap (\<lambda>w. w\<lparr>wit_total_votes := tallied t (wit_vote_id w)\<rparr>) (witnesses st)) i)
      (\<lambda>w. Inr (ms @ [(witness_account w, tallied t (wit_vote_id w))]))) wits [] = Inr ms"
    using ms[where g = "\<lambda>w. (witness_account w, tallied t (wit_vote_id w))"] by blast
  then show ?thesis using assms(1,2,4,5)
    by (simp add: update_active_witnesses_def Let_def set_active_def elected_authority_def head_block_time_def lookup_def
        del: fmlookup_map)
qed

lemma elected_witnesses_lead_witness:
  "\<exists>st'. update_active_witnesses election_tally election_chain = Inr st' \<and> active_witnesses st' = [0, 2] \<and>
    sorted_wrt (<) (active_witnesses st') \<and> length (active_witnesses st') = min 2 (length (entries (witnesses election_chain)))"
proof -
  have n: "wanted_witnesses election_tally election_chain = Inr 2" by code_simp
  have s: "sort_votable_objects election_tally 2 (witness_candidates election_chain) = Inr [2, 0]" by code_simp
  obtain st' where st': "update_active_witnesses election_tally election_chain = Inr st'" "active_witnesses st' = sort [2, 0]"
    using update_active_witnesses_succeeds[OF n s] by (auto simp: election_chain_def example_chain_defs WITNESS_ACCOUNT_def head_block_time_def)
  show ?thesis using st' elected_witnesses_lead[OF st'(1) n] by auto
qed

end
