(* ===== verification/Maintenance.thy ===== *)
theory Maintenance
  imports Operation_Conservation Budget Elections
begin

text \<open>The maintenance of the chain: \<open>perform_chain_maintenance\<close> of \<open>chain/db_maint.cpp\<close> with the buyback orders
  (\<open>create_buyback_orders\<close>) and the end of annual memberships (\<open>deprecate_annual_members\<close>).

  These two apply operations inside a \<open>try\<close> block and go on when an exception is thrown. An exception of the
  checks that come before any change leaves the state as it was, and the model goes on with it. An exception
  that is thrown after the operation began to change the state leaves the changes made so far in place; the model does not
  follow the code there and stops with \<open>PartialEffect\<close>.\<close>

section \<open>Operations that may fail\<close>

definition evaluation_guards :: "(operation \<Rightarrow> int res) \<Rightarrow> transaction_evaluation_state \<Rightarrow> operation \<Rightarrow> chain_state \<Rightarrow> unit res" where
  "evaluation_guards schedule es op st =
    rbind (prepare_fee (fee_payer op) (op_fee op) st) (\<lambda>core_fee_paid.
    rbind (if skip_fee_schedule_check es then Inr ()
           else rbind (schedule op) (\<lambda>r. rassert (core_fee_paid \<ge> r) InsufficientFee (Inr ()))) (\<lambda>_.
    rbind (do_evaluate es op core_fee_paid st) (\<lambda>_. Inr ())))"

definition try_operation :: "(operation \<Rightarrow> int res) \<Rightarrow> transaction_evaluation_state \<Rightarrow> operation \<Rightarrow> chain_state
    \<Rightarrow> (operation_result \<times> chain_state) option res" where
  "try_operation schedule es op st = (case evaluation_guards schedule es op st of
     Inl e \<Rightarrow> if e = UB then Inl UB else Inr None
   | Inr _ \<Rightarrow> (case evaluate_operation schedule es op st of
       Inl e \<Rightarrow> Inl (if e = UB then UB else PartialEffect)
     | Inr rs \<Rightarrow> Inr (Some rs)))"

definition chain_context :: transaction_evaluation_state where
  "chain_context = \<lparr>skip_fee = False, skip_fee_schedule_check = True, is_proposed_trx = False\<rparr>"

section \<open>Buyback orders\<close>

definition buyback_order :: "nat \<Rightarrow> nat \<Rightarrow> nat \<Rightarrow> int \<Rightarrow> limit_order_create_operation" where
  "buyback_order acct to_buy to_sell amt =
    \<lparr>lc_fee = mk_asset 0 0, lc_seller = acct, amount_to_sell = mk_asset amt to_sell, min_to_receive = mk_asset 1 to_buy,
     lc_expiration = 2 ^ 32 - 1, fill_or_kill = False\<rparr>"

definition buyback_cancel :: "nat \<Rightarrow> nat \<Rightarrow> limit_order_cancel_operation" where
  "buyback_cancel acct i = \<lparr>lx_fee = mk_asset 0 0, lx_order = i, fee_paying_account = acct\<rparr>"

definition sell_for_buyback :: "(operation \<Rightarrow> int res) \<Rightarrow> nat \<Rightarrow> nat \<Rightarrow> nat \<Rightarrow> int \<Rightarrow> chain_state \<Rightarrow> chain_state res" where
  "sell_for_buyback schedule acct to_buy to_sell amt st =
    rbind (try_operation schedule chain_context (LimitOrderCreate (buyback_order acct to_buy to_sell amt)) st) (\<lambda>r. case r of
      None \<Rightarrow> Inr st
    | Some (result, st) \<Rightarrow> (case result of
        ObjectResult i \<Rightarrow>
          if fmlookup (limit_orders st) i = None then Inr st
          else rbind (try_operation schedule chain_context (LimitOrderCancel (buyback_cancel acct i)) st) (\<lambda>r. case r of
            None \<Rightarrow> Inr st
          | Some (_, st) \<Rightarrow> Inr st)
      | _ \<Rightarrow> Inl PartialEffect))"

text \<open>The loop over the holdings of a buyback account goes through the assets in the order of their numbers and looks
  each one up when it comes to it. A balance is a 64-bit number.\<close>

definition buyback_holding :: "(operation \<Rightarrow> int res) \<Rightarrow> nat \<Rightarrow> nat \<Rightarrow> nat \<Rightarrow> chain_state \<Rightarrow> chain_state res" where
  "buyback_holding schedule acct to_buy to_sell st = (case fmlookup (balances st) (acct, to_sell) of
     None \<Rightarrow> Inr st
   | Some amt \<Rightarrow>
       if to_sell = to_buy \<or> amt = 0 then Inr st else
       rbind (deref (accounts st) acct) (\<lambda>a.
       rbind (from_option UB (allowed_assets a)) (\<lambda>allowed.
       if to_sell \<notin> set allowed then Inr st
       else rassert (in_i64 amt) UB (sell_for_buyback schedule acct to_buy to_sell amt st))))"

definition create_buyback_orders :: "(operation \<Rightarrow> int res) \<Rightarrow> chain_state \<Rightarrow> chain_state res" where
  "create_buyback_orders schedule st = rfold (\<lambda>(_, to_buy) st.
     rbind (lookup (assets st) to_buy) (\<lambda>a.
     rbind (from_option UB (buyback_account a)) (\<lambda>acct.
     rbind (lookup (accounts st) acct) (\<lambda>ao.
     if allowed_assets ao = None then Inr st
     else rfold (buyback_holding schedule acct to_buy) [0..<next_asset st] st)))) (entries (buybacks st)) st"

section \<open>Annual members\<close>

definition lifetime_upgrade :: "nat \<Rightarrow> account_upgrade_operation" where
  "lifetime_upgrade i = \<lparr>ug_fee = mk_asset 0 0, account_to_upgrade = i, upgrade_to_lifetime_member = True\<rparr>"

definition deprecate_annual_members :: "(operation \<Rightarrow> int res) \<Rightarrow> chain_state \<Rightarrow> chain_state res" where
  "deprecate_annual_members schedule st = rfold (\<lambda>(i, _) st.
     rbind (lookup (accounts st) i) (\<lambda>a.
     if \<not> is_annual_member a (head_block_time st) then Inr st
     else rbind (try_operation schedule chain_context (AccountUpgrade (lifetime_upgrade i)) st) (\<lambda>r. case r of
       None \<Rightarrow> Inr st
     | Some (_, st) \<Rightarrow> Inr st))) (entries (accounts st)) st"

section \<open>The whole maintenance\<close>

text \<open>The scaling of the registration fee is taken back before the pending parameters take effect. A shift by 64 bits
  or more is undefined.\<close>

definition unscaled_fee :: "chain_state \<Rightarrow> int res" where
  "unscaled_fee st =
    (let p = params st in
     rassert (accounts_per_fee_scale p \<noteq> 0) UB
     (let shift = account_fee_scale_bitshifts p * (accounts_registered_this_interval (dgp st) div accounts_per_fee_scale p) in
      rassert (0 \<le> shift \<and> shift < 64) UB (Inr (account_basic_fee p div 2 ^ nat shift))))"

definition update_parameters :: "chain_state \<Rightarrow> chain_state res" where
  "update_parameters st =
    rbind (unscaled_fee st) (\<lambda>fee.
    Inr (case pending_parameters st of
      None \<Rightarrow> st\<lparr>params := (params st)\<lparr>account_basic_fee := fee\<rparr>\<rparr>
    | Some p \<Rightarrow> st\<lparr>params := p, pending_parameters := None\<rparr>))"

definition next_maintenance :: "int \<Rightarrow> int \<Rightarrow> chain_state \<Rightarrow> int res" where
  "next_maintenance num now st =
    (let next = next_maintenance_time (dgp st); interval = maintenance_interval (params st) in
     if next > now then Inr next
     else rassert (interval \<noteq> 0) UB
       (Inr (if num = 1 then (now div interval + 1) * interval mod 2 ^ 32
             else let y = (head_block_time st - next) sdiv interval in
               (next + (y + 1) * interval mod 2 ^ 32) mod 2 ^ 32)))"

definition reset_settled_volumes :: "chain_state \<Rightarrow> chain_state" where
  "reset_settled_volumes st = st\<lparr>bitassets := fmmap (\<lambda>b. b\<lparr>force_settled_volume := 0\<rparr>) (bitassets st)\<rparr>"

definition perform_chain_maintenance :: "(operation \<Rightarrow> int res) \<Rightarrow> int \<Rightarrow> int \<Rightarrow> chain_state \<Rightarrow> chain_state res" where
  "perform_chain_maintenance schedule num now st =
    rbind (distribute_fba_balances st) (\<lambda>st.
    rbind (create_buyback_orders schedule st) (\<lambda>st.
    rbind (perform_account_maintenance st) (\<lambda>(t, st).
    rbind (update_top_n_authorities st) (\<lambda>st.
    rbind (update_active_witnesses t st) (\<lambda>st.
    rbind (update_active_committee_members t st) (\<lambda>st.
    rbind (update_worker_votes t st) (\<lambda>st.
    rbind (update_parameters st) (\<lambda>st.
    rbind (next_maintenance num now st) (\<lambda>next.
    rbind (if next_maintenance_time (dgp st) < hardfork_time st 613 \<and> next \<ge> hardfork_time st 613
           then deprecate_annual_members schedule st else Inr st) (\<lambda>st.
    let st = st\<lparr>dgp := (dgp st)\<lparr>next_maintenance_time := next, accounts_registered_this_interval := 0\<rparr>\<rparr> in
    process_budget (reset_settled_volumes st)))))))))))"

section \<open>No money moves\<close>

lemma try_operation_Some:
  "try_operation schedule es op st = Inr (Some rs) \<Longrightarrow> evaluate_operation schedule es op st = Inr rs"
  by (auto simp: try_operation_def split: sum.splits if_splits)

text \<open>An operation without fee, other than the creation of an asset.\<close>

lemma free_operation_moves:
  assumes "evaluate_operation schedule chain_context op st = Inr (r, st')" "op_ready op st" "op_fee op = mk_asset 0 0"
    "\<nexists>x. op = AssetCreate x"
  shows "moves (\<lambda>A. 0) st st'"
proof -
  obtain core c where m: "prepare_fee (fee_payer op) (op_fee op) st = Inr core" "do_evaluate chain_context op core st = Inr c"
      "moves (\<lambda>A. op_gain op c A + (if asset_id (op_fee op) = 0 then part A (mk_asset (c - amount (op_fee op)) 0) else 0)) st st'"
    by (rule operation.start_moves[OF assms(1)[unfolded evaluate_operation_def] _ assms(2)]) (auto simp: chain_context_def)
  have "core = 0" using prepare_fee_core[OF m(1)] assms(3) by simp
  moreover have "c = core" using do_evaluate_fee[OF m(2)] assms(4) by (cases op) auto
  ultimately show ?thesis using m(3) assms(3,4) by (cases op) (auto elim!: moves_cong)
qed

lemma try_free_moves:
  assumes "try_operation schedule chain_context op st = Inr (Some (r, st'))" "op_ready op st" "op_fee op = mk_asset 0 0"
    "\<nexists>x. op = AssetCreate x"
  shows "moves (\<lambda>A. 0) st st'"
  by (rule free_operation_moves[OF try_operation_Some[OF assms(1)] assms(2-4)])

lemma sell_for_buyback_moves:
  assumes "sell_for_buyback schedule acct to_buy to_sell amt st = Inr st'" "in_i64 amt"
  shows "moves (\<lambda>A. 0) st st'"
  using assms(1) unfolding sell_for_buyback_def
proof (elim rbindE option_resE, goal_cases)
  case (1 r)
  then show ?case by (simp add: moves_refl)
next
  case (2 r rs)
  obtain result s1 where rs: "rs = (result, s1)" by (cases rs)
  have m: "moves (\<lambda>A. 0) st s1"
    by (rule try_free_moves[OF 2(1)[unfolded 2(2) rs]]) (simp_all add: buyback_order_def assms(2))
  have "moves (\<lambda>A. 0) s1 s2" if "try_operation schedule chain_context (LimitOrderCancel (buyback_cancel acct i)) s1 = Inr (Some (r2, s2))" for i r2 s2
    by (rule try_free_moves[OF that]) (simp_all add: buyback_cancel_def)
  then have "moves (\<lambda>A. 0) s1 st'"
    using 2(3) by (auto simp: rs moves_refl split: operation_result.splits if_splits option.splits)
  with m show ?case by (rule moves0_trans)
qed

lemma buyback_holding_moves: "buyback_holding schedule acct to_buy i st = Inr st' \<Longrightarrow> moves (\<lambda>A. 0) st st'"
  unfolding buyback_holding_def
  by (elim run_elims) (auto simp: moves_refl intro: sell_for_buyback_moves)

lemma create_buyback_orders_moves: "create_buyback_orders schedule st = Inr st' \<Longrightarrow> moves (\<lambda>A. 0) st st'"
  unfolding create_buyback_orders_def
proof (erule rfold_invariant, goal_cases)
  case 1
  show ?case by (simp add: moves_refl)
next
  case (2 x s s')
  obtain i to_buy where x: "x = (i, to_buy)" by (cases x)
  have "moves (\<lambda>A. 0) s s1" if "rfold (buyback_holding schedule acct to_buy) is s = Inr s1" for acct "is" s1
    by (rule rfold_invariant[OF that]) (auto simp: moves_refl dest!: buyback_holding_moves intro: moves0_trans)
  then have "moves (\<lambda>A. 0) s s'" using 2(3) by (auto simp: x moves_refl split: if_splits)
  with 2(2) show ?case by (rule moves0_trans)
qed

lemma deprecate_moves: "deprecate_annual_members schedule st = Inr st' \<Longrightarrow> moves (\<lambda>A. 0) st st'"
  unfolding deprecate_annual_members_def
proof (erule rfold_invariant, goal_cases)
  case 1
  show ?case by (simp add: moves_refl)
next
  case (2 x s s')
  obtain i a where x: "x = (i, a)" by (cases x)
  have "moves (\<lambda>A. 0) s s1" if "try_operation schedule chain_context (AccountUpgrade (lifetime_upgrade i)) s = Inr (Some (r, s1))" for r s1
    by (rule try_free_moves[OF that]) (simp_all add: lifetime_upgrade_def)
  then have "moves (\<lambda>A. 0) s s'" using 2(3) by (auto simp: x moves_refl split: if_splits option.splits)
  with 2(2) show ?case by (rule moves0_trans)
qed

lemma update_parameters_money: "update_parameters st = Inr st' \<Longrightarrow> same_money st st'"
  by (auto simp: update_parameters_def same_money_def split: option.splits)

lemma fmsum_fmmap: "fmsum f (fmmap g m) = fmsum (\<lambda>k v. f k (g v)) m"
  by (auto simp: fmsum_def fmdom'_iff intro!: sum.cong)

lemma bit_part_volume: "bit_part A (b\<lparr>force_settled_volume := v\<rparr>) = bit_part A b"
  by (simp add: bit_part_def)

lemma bit_ok_volume: "bit_ok i (b\<lparr>force_settled_volume := v\<rparr>) = bit_ok i b"
  by (simp add: bit_ok_def has_settlement_def)

lemma reset_volumes_moves: "moves (\<lambda>A. 0) st (reset_settled_volumes st)"
  by (auto simp: reset_settled_volumes_def moves_def chain_ok_def excess_def fmsum_fmmap bit_part_volume bit_ok_volume
      unused_from_def)

lemma maintenance_dgp_moves:
  "moves (\<lambda>A. 0) st (st\<lparr>dgp := (dgp st)\<lparr>next_maintenance_time := n, accounts_registered_this_interval := 0\<rparr>\<rparr>)"
  by (simp add: moves_def chain_ok_def excess_def)

lemma perform_chain_maintenance_moves:
  assumes "perform_chain_maintenance schedule num now st = Inr st'"
  shows "moves (\<lambda>A. 0) st st'"
  using assms unfolding perform_chain_maintenance_def Let_def
proof (elim rbind_pairE rbindE, goal_cases)
  case (1 s1 s2 t s3 s4 s5 s6 s7 s8 nxt s9)
  have "moves (\<lambda>A. 0) s8 s9" using 1(10) deprecate_moves by (auto simp: moves_refl split: if_splits)
  then have tail: "moves (\<lambda>A. 0) s8 st'"
    using moves0_trans[OF moves0_trans[OF maintenance_dgp_moves reset_volumes_moves] process_budget_moves[OF 1(11)]]
    by (rule moves0_trans)
  have "moves (\<lambda>A. 0) s3 s8"
    using same_money_moves[OF same_money_trans[OF same_money_trans[OF same_money_trans[OF same_money_trans[OF
      update_top_n_authorities_money[OF 1(4)] update_active_witnesses_money[OF 1(5)]]
      update_active_committee_money[OF 1(6)]] update_worker_votes_money[OF 1(7)]] update_parameters_money[OF 1(8)]]] .
  then have "moves (\<lambda>A. 0) s3 st'" using tail by (rule moves0_trans)
  then show ?case
    using moves0_trans[OF distribute_fba_moves[OF 1(1)] moves0_trans[OF create_buyback_orders_moves[OF 1(2)]
      perform_account_maintenance_moves[OF 1(3)]]] moves0_trans by blast
qed

section \<open>Properties\<close>


text \<open>A chain at a maintenance before hardfork 533: one witness, one committee member and one worker, voted for by
  account 11, and the accounts the chain itself uses.\<close>

definition maintained_chain :: chain_state where
  "maintained_chain = example_chain
    \<lparr>dgp := (dgp example_chain)\<lparr>next_maintenance_time := 900, last_budget_time := 400, witness_budget := 50\<rparr>,
     params := default_parameters\<lparr>maximum_witness_count := 3, maximum_committee_count := 3, maintenance_interval := 500\<rparr>,
     hardfork_time := (\<lambda>n. if n = 533 then 5000 else 0),
     accounts := fmupd 0 (example_account ''committee-account'' 0) (fmupd 1 (example_account ''witness-account'' 1)
       (fmupd 2 (example_account ''relaxed-account'' 2) (fmupd 11 ((example_account ''alice'' 11)
         \<lparr>acct_options := \<lparr>voting_account = 5, num_witness = 0, num_committee = 0,
            votes = [vote_id Witness 0, vote_id Committee 1, vote_id Worker 2]\<rparr>\<rparr>) (accounts example_chain)))),
     statistics := fmupd 0 \<lparr>total_core_in_orders = 0, lifetime_fees_paid = 0, pending_fees = 0, pending_vested_fees = 0\<rparr>
       (fmupd 1 \<lparr>total_core_in_orders = 0, lifetime_fees_paid = 0, pending_fees = 0, pending_vested_fees = 0\<rparr>
       (fmupd 2 \<lparr>total_core_in_orders = 0, lifetime_fees_paid = 0, pending_fees = 0, pending_vested_fees = 0\<rparr> (statistics example_chain))),
     balances := fmupd (11, 0) 30 (balances example_chain),
     fba_accumulators := fmap_of_list (map (\<lambda>i. (i, \<lparr>accumulated_fba_fees = 0, designated_asset = None\<rparr>)) [0, 1, 2]),
     witnesses := fmupd 0 \<lparr>witness_account = 11, last_aslot = 0, signing_key = 0, pay_vb = None, wit_vote_id = vote_id Witness 0,
        wit_total_votes = 0, total_missed = 0, last_confirmed_block_num = 0\<rparr> fmempty,
     committee_members := fmupd 0 \<lparr>committee_member_account = 12, cm_vote_id = vote_id Committee 1, cm_total_votes = 0\<rparr> fmempty,
     workers := fmupd 0 \<lparr>worker_account = 12, work_begin_date = 0, work_end_date = 100000, daily_pay = 40000000,
        worker = BurnWorker 0, vote_for = vote_id Worker 2, vote_against = vote_id Worker 3, total_votes_for = 0, total_votes_against = 0\<rparr> fmempty,
     next_available_vote_id := 4\<rparr>"

lemmas maintained_chain_defs = maintained_chain_def example_chain_defs

lemma maintained_chain_ok: "chain_ok maintained_chain"
  by (auto simp: chain_ok_def unused_from_def maintained_chain_defs MAX_SHARE_SUPPLY_def split: if_splits)


lemma next_multiple:
  assumes "0 < interval" "next \<le> (head :: int)"
  shows "head < next + ((head - next) div interval + 1) * interval \<and> next + ((head - next) div interval + 1) * interval \<le> head + interval"
proof -
  have "head - next = (head - next) div interval * interval + (head - next) mod interval" by simp
  moreover have "0 \<le> (head - next) mod interval" "(head - next) mod interval < interval" using assms(1) by simp_all
  moreover have "((head - next) div interval + 1) * interval = (head - next) div interval * interval + interval" by (simp add: distrib_right)
  ultimately show ?thesis by linarith
qed

text \<open>C40: the next maintenance is always found, lies in the future by at most one interval, and keeps the
  rhythm of the last one (or starts at a multiple of the interval, for the first block), as long as the clock does not
  run out of its 32 bits.\<close>

theorem next_maintenance_least:
  assumes "0 < maintenance_interval (params st)" and "0 \<le> next_maintenance_time (dgp st)"
    and "next_maintenance_time (dgp st) \<le> head_block_time st" and "head_block_time st + maintenance_interval (params st) < 2 ^ 32"
  shows "\<exists>n. next_maintenance num (head_block_time st) st = Inr n \<and> head_block_time st < n \<and>
    n \<le> head_block_time st + maintenance_interval (params st) \<and>
    maintenance_interval (params st) dvd n - (if num = 1 then 0 else next_maintenance_time (dgp st))"
proof -
  let ?i = "maintenance_interval (params st)" and ?h = "head_block_time st" and ?n = "next_maintenance_time (dgp st)"
  let ?base = "if num = 1 then 0 else ?n"
  have base: "0 \<le> ?base" "?base \<le> ?h" using assms(2,3) by auto
  let ?r = "?base + ((?h - ?base) div ?i + 1) * ?i"
  note b = next_multiple[OF assms(1) base(2)]
  have k: "0 \<le> ((?h - ?base) div ?i + 1) * ?i" "((?h - ?base) div ?i + 1) * ?i < 2 ^ 32"
    using b base assms(1,4) by (auto simp: pos_imp_zdiv_nonneg_iff)
  have "next_maintenance num ?h st = Inr ?r"
    using assms base k b by (auto simp: next_maintenance_def Let_def)
  then show ?thesis using b by (intro exI[of _ ?r]) auto
qed

lemma next_maintenance_least_witness:
  "\<exists>n. next_maintenance 7 (head_block_time maintained_chain) maintained_chain = Inr n \<and> head_block_time maintained_chain < n \<and>
    n \<le> head_block_time maintained_chain + 500 \<and> 500 dvd n - 900"
  using next_maintenance_least[of maintained_chain 7] by (simp add: maintained_chain_defs head_block_time_def)

end
