(* ===== verification/Spec2Isabelle.thy ===== *)
theory Spec2Isabelle
  imports Safe_Int Undo_Sessions Asset_Price Fork_Database Authority Operation_Conservation Withdraw_Permissions Witness_Schedule Block_Updates Maintenance
begin

text \<open>Verification of the GameChainBase core (\<open>src/GameChainBaseCore/libraries\<close>).\<close>

end
